(* ===== verification/Prelude.thy ===== *)
theory Prelude
  imports Main "HOL-Library.Word" "HOL-Library.AList"
begin

text \<open>
  The library the components share.

  \<^item> Machine integers are words of their width; \<open>+\<close> and \<open>-\<close> wrap around, as the
    release build of the runtime does (no \<^verbatim>\<open>overflow-checks\<close> profile is set in the
    workspace's Cargo.toml).  The \<open>checked_*\<close> and \<open>saturating_*\<close> methods of the
    standard library are written out over \<open>unat\<close>.
  \<^item> \<open>Result<T, E>\<close> is the sum \<open>'e + 'a\<close> (\<open>Inl\<close> the error); the question-mark
    operator is \<open>and_then\<close>, \<open>ensure!\<close> and \<open>ok_or\<close> are functions of that name.
  \<^item> A two-key storage map is a function from the first key to an association list over
    the second; \<open>dm_iter\<close> is the prefix iteration.
\<close>

section \<open>Collections of facts\<close>

named_theorems result_simps \<open>inversion of the error monad\<close>
named_theorems dm_simps \<open>lookups in updated double maps\<close>

section \<open>Machine integers\<close>

type_synonym u8 = "8 word"
type_synonym u16 = "16 word"
type_synonym u32 = "32 word"
type_synonym u64 = "64 word"
type_synonym u128 = "128 word"
type_synonym h256 = "256 word"

definition checked_add :: "'l::len word \<Rightarrow> 'l word \<Rightarrow> 'l word option" where
  "checked_add a b = (if unat a + unat b < 2 ^ LENGTH('l) then Some (a + b) else None)"

definition checked_sub :: "'l::len word \<Rightarrow> 'l word \<Rightarrow> 'l word option" where
  "checked_sub a b = (if b \<le> a then Some (a - b) else None)"

definition saturating_add :: "'l::len word \<Rightarrow> 'l word \<Rightarrow> 'l word" where
  "saturating_add a b = (if unat a + unat b < 2 ^ LENGTH('l) then a + b else - 1)"

definition saturating_mul :: "'l::len word \<Rightarrow> 'l word \<Rightarrow> 'l word" where
  "saturating_mul a b = (if unat a * unat b < 2 ^ LENGTH('l) then a * b else - 1)"

lemma checked_add_Some_iff:
  "checked_add a b = Some c \<longleftrightarrow> unat a + unat b < 2 ^ LENGTH('l) \<and> c = a + (b :: 'l::len word)"
  by (auto simp: checked_add_def)

lemma unat_checked_add:
  assumes "checked_add a b = Some (c :: 'l::len word)"
  shows "unat c = unat a + unat b"
  using assms by (auto simp: checked_add_Some_iff unat_word_ariths)

lemma checked_sub_Some_iff:
  "checked_sub a b = Some c \<longleftrightarrow> b \<le> a \<and> c = a - (b :: 'l::len word)"
  by (auto simp: checked_sub_def)

lemma unat_checked_sub:
  assumes "checked_sub a b = Some (c :: 'l::len word)"
  shows "unat a = unat c + unat b"
  using assms by (auto simp: checked_sub_Some_iff unat_sub word_le_nat_alt)

lemma unat_Suc_below:
  assumes "a < (b :: 'l::len word)"
  shows "unat (a + 1) = Suc (unat a)"
proof -
  have "Suc (unat a) < 2 ^ LENGTH('l)"
  proof -
    have "unat a < unat b" using assms by (simp add: word_less_nat_alt)
    moreover have "unat b < 2 ^ LENGTH('l)" by (rule unsigned_less)
    ultimately show ?thesis by linarith
  qed
  then show ?thesis by (simp add: unat_word_ariths(1))
qed

lemma unat_saturating_mul_le:
  "unat (saturating_mul a (b :: 'l::len word)) \<le> unat a * unat b"
proof (cases "unat a * unat b < 2 ^ LENGTH('l)")
  case True
  then show ?thesis by (simp add: saturating_mul_def unat_word_ariths)
next
  case False
  have "unat (- 1 :: 'l word) < 2 ^ LENGTH('l)" by (rule unsigned_less)
  with False have "unat (- 1 :: 'l word) \<le> unat a * unat b" by linarith
  with False show ?thesis by (simp add: saturating_mul_def)
qed

section \<open>Results\<close>

definition and_then :: "'e + 'a \<Rightarrow> ('a \<Rightarrow> 'e + 'b) \<Rightarrow> 'e + 'b" where
  "and_then r f = (case r of Inl e \<Rightarrow> Inl e | Inr x \<Rightarrow> f x)"

definition ensure :: "bool \<Rightarrow> 'e \<Rightarrow> 'e + unit" where
  "ensure b e = (if b then Inr () else Inl e)"

definition ok_or :: "'a option \<Rightarrow> 'e \<Rightarrow> 'e + 'a" where
  "ok_or x e = (case x of None \<Rightarrow> Inl e | Some v \<Rightarrow> Inr v)"

definition map_err :: "('e \<Rightarrow> 'f) \<Rightarrow> 'e + 'a \<Rightarrow> 'f + 'a" where
  "map_err f r = (case r of Inl e \<Rightarrow> Inl (f e) | Inr x \<Rightarrow> Inr x)"

definition is_ok :: "'e + 'a \<Rightarrow> bool" where
  "is_ok r = (case r of Inl _ \<Rightarrow> False | Inr _ \<Rightarrow> True)"

lemma and_then_simps [simp]:
  "and_then (Inr x) f = f x"
  "and_then (Inl e) f = Inl e"
  by (simp_all add: and_then_def)

lemma and_then_Inr_iff [result_simps]:
  "and_then r f = Inr y \<longleftrightarrow> (\<exists>x. r = Inr x \<and> f x = Inr y)"
  by (cases r) auto

lemma and_then_Inl_iff:
  "and_then r f = Inl e \<longleftrightarrow> r = Inl e \<or> (\<exists>x. r = Inr x \<and> f x = Inl e)"
  by (cases r) auto

lemma ensure_simps [simp]:
  "ensure True e = Inr ()"
  "ensure False e = Inl e"
  by (simp_all add: ensure_def)

lemma ensure_iff [result_simps]:
  "ensure b e = Inr u \<longleftrightarrow> b"
  "ensure b e = Inl e' \<longleftrightarrow> \<not> b \<and> e' = e"
  by (auto simp: ensure_def)

lemma ok_or_simps [simp]:
  "ok_or (Some v) e = Inr v"
  "ok_or None e = Inl e"
  by (simp_all add: ok_or_def)

lemma ok_or_iff [result_simps]:
  "ok_or x e = Inr v \<longleftrightarrow> x = Some v"
  "ok_or x e = Inl e' \<longleftrightarrow> x = None \<and> e' = e"
  by (auto simp: ok_or_def split: option.splits)

lemma map_err_iff [result_simps]:
  "map_err f r = Inr x \<longleftrightarrow> r = Inr x"
  by (cases r) (auto simp: map_err_def)

lemma is_ok_simps [simp]:
  "is_ok (Inr x)"
  "\<not> is_ok (Inl e)"
  by (simp_all add: is_ok_def)

lemma is_ok_iff: "is_ok r \<longleftrightarrow> (\<exists>x. r = Inr x)"
  by (cases r) auto

lemma is_ok_projr: "is_ok r \<Longrightarrow> r = Inr (projr r)"
  by (cases r) auto

section \<open>Two-key storage maps\<close>

type_synonym ('a, 'b, 'v) dmap = "'a \<Rightarrow> ('b \<times> 'v) list"

definition dm_get :: "('a, 'b, 'v) dmap \<Rightarrow> 'a \<Rightarrow> 'b \<Rightarrow> 'v option" where
  "dm_get m a b = map_of (m a) b"

definition dm_contains :: "('a, 'b, 'v) dmap \<Rightarrow> 'a \<Rightarrow> 'b \<Rightarrow> bool" where
  "dm_contains m a b = (dm_get m a b \<noteq> None)"

definition dm_insert :: "'a \<Rightarrow> 'b \<Rightarrow> 'v \<Rightarrow> ('a, 'b, 'v) dmap \<Rightarrow> ('a, 'b, 'v) dmap" where
  "dm_insert a b v m = m(a := AList.update b v (m a))"

definition dm_remove :: "'a \<Rightarrow> 'b \<Rightarrow> ('a, 'b, 'v) dmap \<Rightarrow> ('a, 'b, 'v) dmap" where
  "dm_remove a b m = m(a := AList.delete b (m a))"

definition dm_iter :: "('a, 'b, 'v) dmap \<Rightarrow> 'a \<Rightarrow> 'b list" where
  "dm_iter m a = map fst (m a)"

definition dm_clear :: "'a \<Rightarrow> ('a, 'b, 'v) dmap \<Rightarrow> ('a, 'b, 'v) dmap" where
  "dm_clear a m = m(a := [])"

definition dm_distinct :: "('a, 'b, 'v) dmap \<Rightarrow> bool" where
  "dm_distinct m = (\<forall>a. distinct (dm_iter m a))"

lemma dm_get_insert [dm_simps]:
  "dm_get (dm_insert a b v m) a' b' = (if a' = a \<and> b' = b then Some v else dm_get m a' b')"
  by (simp add: dm_get_def dm_insert_def update_conv)

lemma dm_get_remove [dm_simps]:
  "dm_get (dm_remove a b m) a' b' = (if a' = a \<and> b' = b then None else dm_get m a' b')"
  by (simp add: dm_get_def dm_remove_def delete_conv)

lemma dm_get_clear [dm_simps]:
  "dm_get (dm_clear a m) a' b' = (if a' = a then None else dm_get m a' b')"
  by (simp add: dm_get_def dm_clear_def)

lemma set_dm_iter: "set (dm_iter m a) = {b. dm_contains m a b}"
  by (simp add: dm_iter_def dm_contains_def dm_get_def map_of_eq_None_iff)

lemma dm_contains_iff: "dm_contains m a b \<longleftrightarrow> b \<in> set (dm_iter m a)"
  by (simp add: set_dm_iter)

lemma dm_iter_empty_iff: "dm_iter m a = [] \<longleftrightarrow> (\<forall>b. \<not> dm_contains m a b)"
  by (auto simp: dm_contains_iff)

lemma dm_contains_simps [dm_simps]:
  "dm_contains (dm_insert a b v m) a' b' \<longleftrightarrow> a' = a \<and> b' = b \<or> dm_contains m a' b'"
  "dm_contains (dm_remove a b m) a' b' \<longleftrightarrow> \<not> (a' = a \<and> b' = b) \<and> dm_contains m a' b'"
  "dm_contains (dm_clear a m) a' b' \<longleftrightarrow> a' \<noteq> a \<and> dm_contains m a' b'"
  by (auto simp: dm_contains_def dm_simps)

lemma dm_iter_other [dm_simps]:
  "a' \<noteq> a \<Longrightarrow> dm_iter (dm_insert a b v m) a' = dm_iter m a'"
  "a' \<noteq> a \<Longrightarrow> dm_iter (dm_remove a b m) a' = dm_iter m a'"
  "a' \<noteq> a \<Longrightarrow> dm_iter (dm_clear a m) a' = dm_iter m a'"
  by (simp_all add: dm_iter_def dm_insert_def dm_remove_def dm_clear_def)

lemma dm_iter_clear [simp]: "dm_iter (dm_clear a m) a = []"
  by (simp add: dm_iter_def dm_clear_def)

lemma dm_distinct_preserved [simp, intro]:
  "dm_distinct m \<Longrightarrow> dm_distinct (dm_insert a b v m)"
  "dm_distinct m \<Longrightarrow> dm_distinct (dm_remove a b m)"
  "dm_distinct m \<Longrightarrow> dm_distinct (dm_clear a m)"
  by (auto simp: dm_distinct_def dm_iter_def dm_insert_def dm_remove_def dm_clear_def
      distinct_update distinct_delete)

lemma dm_distinct_empty [simp]: "dm_distinct (\<lambda>_. [])"
  by (simp add: dm_distinct_def dm_iter_def)

lemma length_dm_iter_card:
  assumes "dm_distinct m"
  shows "length (dm_iter m a) = card {b. dm_contains m a b}"
  using assms by (metis distinct_card dm_distinct_def set_dm_iter)

lemma length_dm_insert:
  assumes "dm_distinct m" and "\<not> dm_contains m a b"
  shows "length (dm_iter (dm_insert a b v m) a) = Suc (length (dm_iter m a))"
proof -
  have "{x. dm_contains (dm_insert a b v m) a x} = insert b {x. dm_contains m a x}"
    by (auto simp: dm_simps)
  moreover have "finite {x. dm_contains m a x}"
    by (metis finite_set set_dm_iter)
  ultimately show ?thesis
    using assms by (simp add: length_dm_iter_card)
qed

lemma length_dm_remove:
  assumes "dm_distinct m" and "dm_contains m a b"
  shows "Suc (length (dm_iter (dm_remove a b m) a)) = length (dm_iter m a)"
proof -
  have "{x. dm_contains m a x} = insert b {x. dm_contains (dm_remove a b m) a x}"
    using assms(2) by (auto simp: dm_simps)
  moreover have "finite {x. dm_contains (dm_remove a b m) a x}"
    by (metis finite_set set_dm_iter)
  moreover have "b \<notin> {x. dm_contains (dm_remove a b m) a x}"
    by (simp add: dm_simps)
  ultimately show ?thesis
    using assms(1) by (simp add: length_dm_iter_card)
qed

lemma length_dm_clear_le: "length (dm_iter (dm_clear a m) b) \<le> length (dm_iter m b)"
  by (cases "b = a") (simp_all add: dm_iter_other)

lemma length_dm_remove_le: "length (dm_iter (dm_remove a b m) x) \<le> length (dm_iter m x)"
  by (cases "x = a") (simp_all add: dm_iter_def dm_remove_def length_delete_le)

section \<open>Iterable one-key storage maps\<close>

type_synonym ('k, 'v) imap = "('k \<times> 'v) list"

definition im_get :: "('k, 'v) imap \<Rightarrow> 'k \<Rightarrow> 'v option" where
  "im_get m k = map_of m k"

definition im_insert :: "'k \<Rightarrow> 'v \<Rightarrow> ('k, 'v) imap \<Rightarrow> ('k, 'v) imap" where
  "im_insert k v m = AList.update k v m"

definition im_remove :: "'k \<Rightarrow> ('k, 'v) imap \<Rightarrow> ('k, 'v) imap" where
  "im_remove k m = AList.delete k m"

lemma im_get_insert [simp]:
  "im_get (im_insert k v m) k' = (if k' = k then Some v else im_get m k')"
  by (simp add: im_get_def im_insert_def update_conv)

lemma im_get_remove [simp]:
  "im_get (im_remove k m) k' = (if k' = k then None else im_get m k')"
  by (simp add: im_get_def im_remove_def delete_conv)

lemma im_get_empty [simp]: "im_get [] k = None"
  by (simp add: im_get_def)

end
