(* ===== verification/Pns_Types.thy ===== *)
theory Pns_Types
  imports Prelude
begin

text \<open>
  The shared types of pns-types (src/pallets/pns-types/src/lib.rs) and the label helpers
  of src/pallets/pns-registrar/src/traits.rs.

  A \<open>DomainHash\<close> is an H256, a 256-bit word; its SCALE encoding is its 32 bytes, most
  significant first.  \<open>keccak_256\<close> is a host function that is not part of the
  repository: it is the first argument of every definition that hashes.  Strings of the
  source are byte lists; \<open>from_utf8\<close> is the validity check of the standard library.
\<close>

section \<open>Hashes and their encoding\<close>

type_synonym domain_hash = h256
type_synonym account_id = h256
type_synonym keccak = "u8 list \<Rightarrow> h256"

definition h256_encode :: "h256 \<Rightarrow> u8 list" where
  "h256_encode w = map (\<lambda>i. ucast (drop_bit (8 * (31 - i)) w)) [0..<32]"

definition h256_of_bytes :: "u8 list \<Rightarrow> h256" where
  "h256_of_bytes bs = foldl (\<lambda>acc b. push_bit 8 acc + ucast b) 0 bs"

definition DOT_BASENODE :: domain_hash where
  "DOT_BASENODE = h256_of_bytes
     [63, 206, 125, 19, 100, 168, 147, 226, 19, 188, 66, 18, 121, 43, 81, 127, 252, 136, 245, 177,
      59, 134, 200, 239, 156, 141, 57, 12, 58, 19, 112, 206]"

definition KSM_BASENODE :: domain_hash where
  "KSM_BASENODE = h256_of_bytes
     [40, 176, 66, 80, 226, 106, 137, 121, 141, 170, 194, 128, 195, 181, 31, 184, 186, 190, 216, 60,
      185, 180, 141, 134, 171, 252, 4, 74, 2, 250, 3, 144]"

text \<open>The build's \<^verbatim>\<open>kusama\<close> feature selects the native top-level node.\<close>

definition NATIVE_BASENODE :: "bool \<Rightarrow> domain_hash" where
  "NATIVE_BASENODE kusama = (if kusama then KSM_BASENODE else DOT_BASENODE)"

section \<open>Records\<close>

record registrar_info =
  ri_expire :: u64
  ri_capacity :: u32
  ri_register_fee :: u128
  ri_label_len :: u32
  ri_last_block :: u32

record name_record =
  nr_owner :: account_id
  nr_expire :: u64
  nr_capacity :: u32
  nr_register_fee :: u128
  nr_for_sale :: bool
  nr_last_block :: u32
  nr_read_block_number :: u32
  nr_read_block_hash :: domain_hash

record listing_info =
  li_seller :: account_id
  li_price :: u128
  li_expires_at :: u64
  li_read_block_number :: u32
  li_read_block_hash :: domain_hash

datatype domain_tracing = RuntimeOrigin domain_hash | Root

text \<open>\<open>Record\<close>, the token data of a name.\<close>

record token_data =
  td_children :: u32

definition default_token_data :: token_data where
  "default_token_data = \<lparr>td_children = 0\<rparr>"

datatype subname_state = Offered | Active | Rejected

record subname_record =
  sr_parent :: domain_hash
  sr_label :: "u8 list"
  sr_target :: account_id
  sr_state :: subname_state

record offered_name_record =
  on_buyer :: account_id
  on_recipient :: account_id

record account_dashboard =
  ad_primary_name :: "domain_hash option"
  ad_subnames :: "domain_hash list"
  ad_pending_subname_offers :: "domain_hash list"
  ad_pending_name_offers :: "domain_hash list"

section \<open>Strings\<close>

definition is_continuation :: "u8 \<Rightarrow> bool" where
  "is_continuation b = (0x80 \<le> b \<and> b \<le> 0xBF)"

text \<open>
  UTF-8 as \<open>core::str::from_utf8\<close> accepts it: \<open>utf8_next\<close> reads one well-formed
  sequence of the Unicode standard, \<open>utf8_decode\<close> the whole slice into code points.
\<close>

definition utf8_next :: "u8 \<Rightarrow> u8 list \<Rightarrow> (nat \<times> u8 list) option" where
  "utf8_next b bs =
     (if b < 0x80 then Some (unat b, bs)
      else if 0xC2 \<le> b \<and> b \<le> 0xDF then
        (case bs of
           c # r \<Rightarrow>
             if is_continuation c
             then Some ((unat b - 0xC0) * 64 + (unat c - 0x80), r)
             else None
         | [] \<Rightarrow> None)
      else if 0xE0 \<le> b \<and> b \<le> 0xEF then
        (case bs of
           c # d # r \<Rightarrow>
             if is_continuation c \<and> is_continuation d
                \<and> (b = 0xE0 \<longrightarrow> 0xA0 \<le> c) \<and> (b = 0xED \<longrightarrow> c \<le> 0x9F)
             then Some ((unat b - 0xE0) * 4096 + (unat c - 0x80) * 64 + (unat d - 0x80), r)
             else None
         | _ \<Rightarrow> None)
      else if 0xF0 \<le> b \<and> b \<le> 0xF4 then
        (case bs of
           c # d # e # r \<Rightarrow>
             if is_continuation c \<and> is_continuation d \<and> is_continuation e
                \<and> (b = 0xF0 \<longrightarrow> 0x90 \<le> c) \<and> (b = 0xF4 \<longrightarrow> c \<le> 0x8F)
             then Some ((unat b - 0xF0) * 262144 + (unat c - 0x80) * 4096
                        + (unat d - 0x80) * 64 + (unat e - 0x80), r)
             else None
         | _ \<Rightarrow> None)
      else None)"

lemma utf8_next_shorter: "utf8_next b bs = Some (c, r) \<Longrightarrow> length r \<le> length bs"
  by (auto simp: utf8_next_def split: if_splits list.splits)

function utf8_decode :: "u8 list \<Rightarrow> nat list option" where
  "utf8_decode [] = Some []"
| "utf8_decode (b # bs) =
     (case utf8_next b bs of
        None \<Rightarrow> None
      | Some (c, r) \<Rightarrow> map_option (Cons c) (utf8_decode r))"
  by pat_completeness auto
termination
  by (relation "measure length") (auto dest: utf8_next_shorter)

definition from_utf8 :: "u8 list \<Rightarrow> u8 list option" where
  "from_utf8 bs = (if utf8_decode bs = None then None else Some bs)"

definition chars :: "u8 list \<Rightarrow> nat list" where
  "chars str = (case utf8_decode str of None \<Rightarrow> [] | Some cs \<Rightarrow> cs)"

definition ascii_lower :: "u8 \<Rightarrow> u8" where
  "ascii_lower b = (if 65 \<le> b \<and> b \<le> 90 then b + 32 else b)"

definition to_ascii_lowercase :: "u8 list \<Rightarrow> u8 list" where
  "to_ascii_lowercase str = map ascii_lower str"

definition is_ascii_alphanumeric :: "nat \<Rightarrow> bool" where
  "is_ascii_alphanumeric c = (48 \<le> c \<and> c \<le> 57 \<or> 65 \<le> c \<and> c \<le> 90 \<or> 97 \<le> c \<and> c \<le> 122)"

section \<open>Labels\<close>

text \<open>traits.rs: \<open>LABEL_MAX_LEN\<close>, \<open>LABEL_MIN_LEN\<close>, \<open>MIN_REGISTRABLE_LEN\<close>.\<close>

definition LABEL_MAX_LEN :: nat where "LABEL_MAX_LEN = 63"
definition LABEL_MIN_LEN :: nat where "LABEL_MIN_LEN = 1"
definition MIN_REGISTRABLE_LEN :: nat where "MIN_REGISTRABLE_LEN = 1"

definition check_label :: "u8 list \<Rightarrow> unit option" where
  "check_label bytes =
     (case map_option to_ascii_lowercase (from_utf8 bytes) of
        None \<Rightarrow> None
      | Some str \<Rightarrow>
          if \<not> (LABEL_MIN_LEN \<le> length str \<and> length str \<le> LABEL_MAX_LEN) then None
          else if \<not> list_all is_ascii_alphanumeric (chars str) then None
          else Some ())"

definition validate_label :: "u8 list \<Rightarrow> unit option" where
  "validate_label bytes =
     (case map_option to_ascii_lowercase (from_utf8 bytes) of
        None \<Rightarrow> None
      | Some str \<Rightarrow>
          if \<not> (1 \<le> length str \<and> length str \<le> 63) then None
          else if \<not> list_all is_ascii_alphanumeric (chars str) then None
          else Some ())"

definition is_anctionable :: "nat \<Rightarrow> bool" where
  "is_anctionable len = (1 \<le> len \<and> len < MIN_REGISTRABLE_LEN)"

definition is_registrable :: "nat \<Rightarrow> bool" where
  "is_registrable len = (MIN_REGISTRABLE_LEN \<le> len)"

record label =
  lbl_node :: domain_hash

definition label_new :: "keccak \<Rightarrow> u8 list \<Rightarrow> label option" where
  "label_new keccak bytes =
     (case check_label bytes of
        None \<Rightarrow> None
      | Some _ \<Rightarrow>
          (case from_utf8 bytes of
             None \<Rightarrow> None
           | Some str \<Rightarrow> Some \<lparr>lbl_node = keccak (to_ascii_lowercase str)\<rparr>))"

definition label_new_with_len :: "keccak \<Rightarrow> u8 list \<Rightarrow> (label \<times> nat) option" where
  "label_new_with_len keccak bytes =
     (case check_label bytes of
        None \<Rightarrow> None
      | Some _ \<Rightarrow>
          (case from_utf8 bytes of
             None \<Rightarrow> None
           | Some str \<Rightarrow>
               let normalized = to_ascii_lowercase str
               in Some (\<lparr>lbl_node = keccak normalized\<rparr>, length normalized)))"

definition basenode_of :: "keccak \<Rightarrow> domain_hash \<Rightarrow> domain_hash" where
  "basenode_of keccak baselabel = keccak (h256_encode 0 @ h256_encode baselabel)"

definition label_new_basenode :: "keccak \<Rightarrow> u8 list \<Rightarrow> label option" where
  "label_new_basenode keccak bytes =
     (case check_label bytes of
        None \<Rightarrow> None
      | Some _ \<Rightarrow>
          (case from_utf8 bytes of
             None \<Rightarrow> None
           | Some str \<Rightarrow>
               let node = keccak (to_ascii_lowercase str)
               in Some \<lparr>lbl_node = keccak (h256_encode 0 @ h256_encode node)\<rparr>))"

definition encode_with_node :: "keccak \<Rightarrow> label \<Rightarrow> domain_hash \<Rightarrow> domain_hash" where
  "encode_with_node keccak self node = keccak (h256_encode node @ h256_encode (lbl_node self))"

definition encode_with_baselabel :: "keccak \<Rightarrow> label \<Rightarrow> domain_hash \<Rightarrow> domain_hash" where
  "encode_with_baselabel keccak self baselabel =
     keccak (h256_encode (basenode_of keccak baselabel) @ h256_encode (lbl_node self))"

definition to_basenode :: "keccak \<Rightarrow> label \<Rightarrow> domain_hash" where
  "to_basenode keccak self = basenode_of keccak (lbl_node self)"

definition encode_with_name :: "keccak \<Rightarrow> label \<Rightarrow> u8 list \<Rightarrow> label option" where
  "encode_with_name keccak self bytes =
     map_option (\<lambda>n. \<lparr>lbl_node = encode_with_node keccak self (lbl_node n)\<rparr>) (label_new keccak bytes)"

definition encode_with_basename :: "keccak \<Rightarrow> label \<Rightarrow> u8 list \<Rightarrow> label option" where
  "encode_with_basename keccak self bytes =
     map_option (\<lambda>n. \<lparr>lbl_node = encode_with_baselabel keccak self (lbl_node n)\<rparr>)
       (label_new keccak bytes)"

section \<open>Dotted names\<close>

text \<open>The two local functions of \<open>parse_name_to_node\<close>.\<close>

definition hash_label :: "keccak \<Rightarrow> u8 list \<Rightarrow> domain_hash option" where
  "hash_label keccak bytes =
     (case validate_label bytes of
        None \<Rightarrow> None
      | Some _ \<Rightarrow> map_option (\<lambda>str. keccak (to_ascii_lowercase str)) (from_utf8 bytes))"

definition encode_child :: "keccak \<Rightarrow> domain_hash \<Rightarrow> domain_hash \<Rightarrow> domain_hash" where
  "encode_child keccak parent label_hash = keccak (h256_encode parent @ h256_encode label_hash)"

text \<open>\<open>iter().position(..)\<close>: the index of the first byte equal to \<open>b\<close>.\<close>

fun position :: "u8 \<Rightarrow> u8 list \<Rightarrow> nat option" where
  "position b [] = None"
| "position b (x # xs) = (if x = b then Some 0 else map_option Suc (position b xs))"

definition dot_byte :: u8 where "dot_byte = 46"

definition parse_name_to_node :: "keccak \<Rightarrow> u8 list \<Rightarrow> domain_hash \<Rightarrow> domain_hash option" where
  "parse_name_to_node keccak name base_node =
     (case position dot_byte name of
        Some dot \<Rightarrow>
          (let sub_label = take dot name;
               domain_label = drop (dot + 1) name
           in case hash_label keccak domain_label of
                None \<Rightarrow> None
              | Some dh \<Rightarrow>
                  (let domain_node = encode_child keccak base_node dh
                   in map_option (encode_child keccak domain_node) (hash_label keccak sub_label)))
      | None \<Rightarrow> map_option (encode_child keccak base_node) (hash_label keccak name))"

section \<open>Facts about strings\<close>

lemma utf8_next_ascii: "b < 0x80 \<Longrightarrow> utf8_next b bs = Some (unat b, bs)"
  by (simp add: utf8_next_def)

lemma utf8_next_high:
  assumes "utf8_next b bs = Some (c, r)" and "\<not> b < 0x80"
  shows "128 \<le> c"
  using assms
  by (auto simp: utf8_next_def is_continuation_def word_le_nat_alt word_less_nat_alt
      word_unat_eq_iff split: if_splits list.splits)

lemma utf8_decode_ascii:
  "list_all (\<lambda>b. b < 0x80) bs \<Longrightarrow> utf8_decode bs = Some (map unat bs)"
  by (induction bs) (auto simp: utf8_next_ascii)

lemma utf8_decode_ascii_only:
  "utf8_decode bs = Some cs \<Longrightarrow> list_all (\<lambda>c. c < 128) cs \<Longrightarrow> list_all (\<lambda>b. b < 0x80) bs"
proof (induction bs arbitrary: cs rule: utf8_decode.induct)
  case 1
  then show ?case by simp
next
  case (2 b bs)
  from 2(2) obtain c r cs' where next': "utf8_next b bs = Some (c, r)"
    and dec: "utf8_decode r = Some cs'" and cs: "cs = c # cs'"
    by (auto split: option.splits)
  with 2(3) have "c < 128" by simp
  with utf8_next_high [OF next'] have b: "b < 0x80" by force
  with next' have "r = bs" by (simp add: utf8_next_ascii)
  with 2 next' dec cs b show ?case by auto
qed

definition char_lower :: "nat \<Rightarrow> nat" where
  "char_lower c = (if 65 \<le> c \<and> c \<le> 90 then c + 32 else c)"

lemma unat_ascii_lower: "unat (ascii_lower b) = char_lower (unat b)"
  by (auto simp: ascii_lower_def char_lower_def word_le_nat_alt unat_word_ariths)

lemma char_lower_alnum [simp]: "is_ascii_alphanumeric (char_lower c) = is_ascii_alphanumeric c"
  by (auto simp: char_lower_def is_ascii_alphanumeric_def)

lemma ascii_lower_high: "\<not> b < 0x80 \<Longrightarrow> ascii_lower b = b"
  by (auto simp: ascii_lower_def word_le_nat_alt word_less_nat_alt)

lemma ascii_lower_low [simp]: "ascii_lower b < 0x80 \<longleftrightarrow> b < 0x80"
  by (auto simp: word_less_nat_alt unat_ascii_lower char_lower_def)

lemma ascii_lower_idem [simp]: "ascii_lower (ascii_lower b) = ascii_lower b"
  by (simp add: word_unat_eq_iff unat_ascii_lower char_lower_def)

lemma is_continuation_lower [simp]: "is_continuation (ascii_lower c) = is_continuation c"
  by (auto simp: is_continuation_def word_le_nat_alt unat_ascii_lower char_lower_def)

lemma is_continuation_lower_id: "is_continuation c \<Longrightarrow> ascii_lower c = c"
  by (rule ascii_lower_high) (auto simp: is_continuation_def word_le_nat_alt word_less_nat_alt)

lemma utf8_next_lower:
  assumes "utf8_next b bs = Some (c, r)"
  shows "utf8_next (ascii_lower b) (to_ascii_lowercase bs) = Some (char_lower c, to_ascii_lowercase r)"
proof (cases "b < 0x80")
  case True
  with assms show ?thesis by (auto simp: utf8_next_ascii unat_ascii_lower)
next
  case False
  with assms have "128 \<le> c" by (rule utf8_next_high)
  then have c: "char_lower c = c" by (simp add: char_lower_def)
  show ?thesis
    using assms False
    by (auto simp: utf8_next_def c to_ascii_lowercase_def ascii_lower_high is_continuation_lower_id
        split: if_splits list.splits)
qed

lemma utf8_decode_lower:
  "utf8_decode bs = Some cs \<Longrightarrow> utf8_decode (to_ascii_lowercase bs) = Some (map char_lower cs)"
proof (induction bs arbitrary: cs rule: utf8_decode.induct)
  case 1
  then show ?case by (simp add: to_ascii_lowercase_def)
next
  case (2 b bs)
  from 2(2) obtain c r cs' where next': "utf8_next b bs = Some (c, r)"
    and dec: "utf8_decode r = Some cs'" and cs: "cs = c # cs'"
    by (auto split: option.splits)
  have "to_ascii_lowercase (b # bs) = ascii_lower b # to_ascii_lowercase bs"
    by (simp add: to_ascii_lowercase_def)
  with 2 dec cs next' utf8_next_lower [OF next'] show ?case by simp
qed

lemma from_utf8_Some_iff: "from_utf8 bs = Some x \<longleftrightarrow> x = bs \<and> utf8_decode bs \<noteq> None"
  by (auto simp: from_utf8_def)

lemma length_to_ascii_lowercase [simp]: "length (to_ascii_lowercase bs) = length bs"
  by (simp add: to_ascii_lowercase_def)

lemma to_ascii_lowercase_idem [simp]:
  "to_ascii_lowercase (to_ascii_lowercase bs) = to_ascii_lowercase bs"
  by (simp add: to_ascii_lowercase_def)

section \<open>Facts about labels\<close>

definition label_bytes :: "u8 list \<Rightarrow> bool" where
  "label_bytes bs = (1 \<le> length bs \<and> length bs \<le> 63
     \<and> list_all (\<lambda>b. is_ascii_alphanumeric (unat b)) bs)"

lemma alnum_bytes_ascii:
  fixes bs :: "u8 list"
  shows "list_all (\<lambda>b. is_ascii_alphanumeric (unat b)) bs \<Longrightarrow> list_all (\<lambda>b. b < 0x80) bs"
  by (auto simp: list_all_iff is_ascii_alphanumeric_def word_less_nat_alt)

lemma label_bytes_decode: "label_bytes bs \<Longrightarrow> utf8_decode bs = Some (map unat bs)"
  by (simp add: label_bytes_def alnum_bytes_ascii utf8_decode_ascii)

lemma chars_lower_alnum:
  assumes "utf8_decode bs = Some cs"
  shows "list_all is_ascii_alphanumeric (chars (to_ascii_lowercase bs))
         \<longleftrightarrow> list_all (\<lambda>b. is_ascii_alphanumeric (unat b)) bs"
proof -
  have "chars (to_ascii_lowercase bs) = map char_lower cs"
    by (simp add: chars_def utf8_decode_lower [OF assms])
  then have "list_all is_ascii_alphanumeric (chars (to_ascii_lowercase bs))
      \<longleftrightarrow> list_all is_ascii_alphanumeric cs"
    by (simp add: list_all_iff)
  also have "\<dots> \<longleftrightarrow> list_all (\<lambda>b. is_ascii_alphanumeric (unat b)) bs"
  proof
    assume alnum: "list_all is_ascii_alphanumeric cs"
    then have "list_all (\<lambda>c. c < 128) cs"
      by (auto simp: list_all_iff is_ascii_alphanumeric_def)
    with assms have "list_all (\<lambda>b. b < 0x80) bs" by (rule utf8_decode_ascii_only)
    with assms have "cs = map unat bs" by (simp add: utf8_decode_ascii)
    with alnum show "list_all (\<lambda>b. is_ascii_alphanumeric (unat b)) bs"
      by (simp add: list_all_iff)
  next
    assume alnum: "list_all (\<lambda>b. is_ascii_alphanumeric (unat b)) bs"
    with assms have "cs = map unat bs" by (simp add: alnum_bytes_ascii utf8_decode_ascii)
    with alnum show "list_all is_ascii_alphanumeric cs" by (simp add: list_all_iff)
  qed
  finally show ?thesis .
qed

lemma validate_label_iff: "validate_label bs = Some u \<longleftrightarrow> label_bytes bs"
proof (cases "utf8_decode bs")
  case None
  then show ?thesis
    using label_bytes_decode [of bs] by (auto simp: validate_label_def from_utf8_def)
next
  case (Some cs)
  then show ?thesis
    by (auto simp: validate_label_def from_utf8_def label_bytes_def chars_lower_alnum)
qed

lemma check_label_eq: "check_label bs = validate_label bs"
  unfolding check_label_def validate_label_def LABEL_MIN_LEN_def LABEL_MAX_LEN_def ..

lemma validate_label_cases:
  "validate_label bs = (if label_bytes bs then Some () else None)"
  using validate_label_iff [of bs "()"] by (cases "validate_label bs") auto

lemma label_new_eq:
  "label_new k bs =
     (if label_bytes bs then Some \<lparr>lbl_node = k (to_ascii_lowercase bs)\<rparr> else None)"
  by (auto simp: label_new_def check_label_eq validate_label_cases from_utf8_def
      label_bytes_decode)

lemma label_new_with_len_eq:
  "label_new_with_len k bs =
     (if label_bytes bs
      then Some (\<lparr>lbl_node = k (to_ascii_lowercase bs)\<rparr>, length bs) else None)"
  by (auto simp: label_new_with_len_def check_label_eq validate_label_cases from_utf8_def
      label_bytes_decode)

lemma hash_label_eq:
  "hash_label k bs = (if label_bytes bs then Some (k (to_ascii_lowercase bs)) else None)"
  by (auto simp: hash_label_def validate_label_cases from_utf8_def label_bytes_decode)

lemma label_bytes_lower [simp]: "label_bytes (to_ascii_lowercase bs) = label_bytes bs"
  by (simp add: label_bytes_def to_ascii_lowercase_def list_all_iff unat_ascii_lower)

section \<open>Facts about dotted names\<close>

lemma position_None_iff: "position b xs = None \<longleftrightarrow> b \<notin> set xs"
  by (induction xs) auto

lemma position_append: "b \<notin> set xs \<Longrightarrow> position b (xs @ b # ys) = Some (length xs)"
  by (induction xs) auto

lemma ascii_lower_dot [simp]: "ascii_lower b = dot_byte \<longleftrightarrow> b = dot_byte"
  by (auto simp: dot_byte_def word_unat_eq_iff unat_ascii_lower char_lower_def split: if_splits)

lemma position_dot_lower [simp]:
  "position dot_byte (to_ascii_lowercase xs) = position dot_byte xs"
  by (induction xs) (simp_all add: to_ascii_lowercase_def)

lemma hash_label_lower [simp]: "hash_label k (to_ascii_lowercase bs) = hash_label k bs"
  by (simp add: hash_label_eq)

lemma take_to_ascii_lowercase: "take n (to_ascii_lowercase bs) = to_ascii_lowercase (take n bs)"
  by (simp add: to_ascii_lowercase_def take_map)

lemma drop_to_ascii_lowercase: "drop n (to_ascii_lowercase bs) = to_ascii_lowercase (drop n bs)"
  by (simp add: to_ascii_lowercase_def drop_map)

lemma label_bytes_no_dot: "label_bytes bs \<Longrightarrow> dot_byte \<notin> set bs"
  by (auto simp: label_bytes_def list_all_iff is_ascii_alphanumeric_def dot_byte_def)

lemma parse_name_plain:
  assumes "dot_byte \<notin> set bs"
  shows "parse_name_to_node k bs base =
     map_option (\<lambda>l. encode_with_node k l base) (label_new k bs)"
  using assms
  by (simp add: parse_name_to_node_def position_None_iff [THEN iffD2] hash_label_eq label_new_eq
      encode_child_def encode_with_node_def)

lemma parse_name_label:
  assumes "label_bytes bs"
  shows "parse_name_to_node k bs base =
     Some (encode_with_node k \<lparr>lbl_node = k (to_ascii_lowercase bs)\<rparr> base)"
  using assms by (simp add: parse_name_plain label_bytes_no_dot label_new_eq)

lemma h256_of_encoded_prefix:
  assumes "n \<le> 32"
  shows "foldl (\<lambda>acc b. push_bit 8 acc + ucast b) 0
           (map (\<lambda>i. ucast (drop_bit (8 * (31 - i)) w) :: u8) [0..<n])
         = drop_bit (8 * (32 - n)) (w :: h256)"
  using assms
proof (induction n)
  case 0
  have "drop_bit 256 w = 0"
    by (rule bit_eqI) (simp add: bit_simps bit_imp_le_length)
  then show ?case by simp
next
  case (Suc n)
  let ?x = "drop_bit (8 * (31 - n)) w"
  have eight: "8 * (32 - n) = 8 + 8 * (31 - n)" using Suc.prems by simp
  have "drop_bit (8 * (32 - n)) w = drop_bit 8 ?x"
    by (simp add: eight drop_bit_drop_bit)
  moreover have "(ucast (ucast ?x :: u8) :: h256) = take_bit 8 ?x"
    by (simp add: unsigned_ucast_eq)
  moreover have "8 * (32 - Suc n) = 8 * (31 - n)" by simp
  ultimately show ?case
    using Suc bits_ident [of 8 ?x] by simp
qed

lemma h256_encode_roundtrip: "h256_of_bytes (h256_encode w) = w"
  using h256_of_encoded_prefix [of 32 w] by (simp add: h256_of_bytes_def h256_encode_def)

lemma length_h256_encode [simp]: "length (h256_encode w) = 32"
  by (simp add: h256_encode_def)

lemma h256_encode_nonempty [simp]: "h256_encode w \<noteq> []" "[] \<noteq> h256_encode w"
  using length_h256_encode [of w] by (metis list.size(3) zero_neq_numeral)+

lemma h256_encode_inject [simp]: "h256_encode a = h256_encode b \<longleftrightarrow> a = b"
  by (metis h256_encode_roundtrip)

text \<open>The preimages of two children agree only for the same parent and label hash.\<close>

lemma child_preimage_inject:
  "h256_encode p @ h256_encode l = h256_encode p' @ h256_encode l' \<longleftrightarrow> p = p' \<and> l = l'"
  by simp

section \<open>Names up to hash collisions\<close>

text \<open>
  Any two preimages with one digest; the collision-resistance assumption on \<open>keccak_256\<close>
  is that nobody can exhibit such a pair.
\<close>

definition hash_collision :: "keccak \<Rightarrow> bool" where
  "hash_collision k = (\<exists>x y. x \<noteq> y \<and> k x = k y)"

definition label_of :: "keccak \<Rightarrow> u8 list \<Rightarrow> label" where
  "label_of k bs = \<lparr>lbl_node = k (to_ascii_lowercase bs)\<rparr>"

lemma position_Some_split:
  "position b xs = Some i \<Longrightarrow> xs = take i xs @ b # drop (Suc i) xs \<and> b \<notin> set (take i xs)"
  by (induction xs arbitrary: i) (auto split: if_splits)

lemma parse_name_dotted:
  assumes "dot_byte \<notin> set sub"
  shows "parse_name_to_node k (sub @ dot_byte # domain) base =
     (if label_bytes sub \<and> label_bytes domain
      then Some (encode_with_node k (label_of k sub) (encode_with_node k (label_of k domain) base))
      else None)"
  using assms
  by (simp add: parse_name_to_node_def position_append hash_label_eq encode_child_def
      encode_with_node_def label_of_def)

lemma parse_name_cases:
  assumes "parse_name_to_node k name base = Some n"
  obtains (plain) "label_bytes name" "n = encode_with_node k (label_of k name) base"
  | (dotted) sub domain where "name = sub @ dot_byte # domain" "label_bytes sub" "label_bytes domain"
      "n = encode_with_node k (label_of k sub) (encode_with_node k (label_of k domain) base)"
proof (cases "position dot_byte name")
  case None
  with assms plain show ?thesis
    by (auto simp: parse_name_plain position_None_iff label_new_eq label_of_def split: if_splits)
next
  case (Some i)
  from position_Some_split [OF this] assms dotted show ?thesis
    by (metis option.distinct(1) option.inject parse_name_dotted)
qed

text \<open>
  The two label validators, and the label constructor, accept a byte string exactly
  when it has 1 to 63 bytes, all ASCII letters or digits; the label's node is the hash of
  the lower-case form.
\<close>
theorem label_rule:
  "(validate_label bs = Some () \<longleftrightarrow>
      1 \<le> length bs \<and> length bs \<le> 63 \<and> list_all (\<lambda>b. is_ascii_alphanumeric (unat b)) bs)
   \<and> check_label bs = validate_label bs
   \<and> label_new k bs =
       map_option (\<lambda>_. \<lparr>lbl_node = k (to_ascii_lowercase bs)\<rparr>) (check_label bs)
   \<and> label_new_with_len k bs = map_option (\<lambda>l. (l, length bs)) (label_new k bs)"
  by (simp add: check_label_eq validate_label_cases label_new_eq label_new_with_len_eq)
     (simp add: label_bytes_def)

text \<open>
  C33: \<open>parse_name_to_node\<close> resolves a plain label to its child of the base node and
  \<open>sub.domain\<close> to the child of that child, and nothing else: two or more dots, an empty
  part or an illegal byte give \<open>None\<close>.
\<close>
theorem parse_name_iff:
  "parse_name_to_node k name base = Some n \<longleftrightarrow>
     label_bytes name \<and> n = encode_with_node k (label_of k name) base
     \<or> (\<exists>sub domain. name = sub @ dot_byte # domain \<and> label_bytes sub \<and> label_bytes domain
          \<and> n = encode_with_node k (label_of k sub) (encode_with_node k (label_of k domain) base))"
proof
  assume "parse_name_to_node k name base = Some n"
  then show "label_bytes name \<and> n = encode_with_node k (label_of k name) base
     \<or> (\<exists>sub domain. name = sub @ dot_byte # domain \<and> label_bytes sub \<and> label_bytes domain
          \<and> n = encode_with_node k (label_of k sub) (encode_with_node k (label_of k domain) base))"
    by (rule parse_name_cases) auto
qed (auto simp: parse_name_label label_of_def parse_name_dotted label_bytes_no_dot)

lemma encode_with_node_eq:
  assumes "\<not> hash_collision k"
  shows "encode_with_node k l p = encode_with_node k l' p' \<longleftrightarrow> l = l' \<and> p = p'"
  using assms unfolding hash_collision_def encode_with_node_def
  by (metis child_preimage_inject label.equality unit.exhaust)

lemma label_of_eq:
  assumes "\<not> hash_collision k"
  shows "label_of k a = label_of k b \<longleftrightarrow> to_ascii_lowercase a = to_ascii_lowercase b"
  using assms unfolding hash_collision_def label_of_def by (metis label.ext_inject)

lemma base_not_child:
  assumes "\<not> hash_collision k" and "base = to_basenode k tld" and "base \<noteq> 0"
  shows "encode_with_node k l base \<noteq> base"
proof
  assume "encode_with_node k l base = base"
  also have "base = encode_with_node k \<lparr>lbl_node = lbl_node tld\<rparr> 0"
    by (simp add: assms(2) to_basenode_def basenode_of_def encode_with_node_def)
  finally show False using encode_with_node_eq [OF assms(1)] assms(3) by metis
qed


section \<open>A hash to compute with\<close>

text \<open>The worked examples instantiate the hash parameter by the sum of the bytes.\<close>

definition sum_hash :: keccak where
  "sum_hash bs = foldl (\<lambda>acc b. acc + ucast b) 1 bs"

lemma drop_bit_small:
  assumes "w < (256 :: h256)" and "8 \<le> n"
  shows "drop_bit n w = 0"
proof -
  have "unat w < 2 ^ 8" using assms(1) by (simp add: word_less_nat_alt)
  also have "\<dots> \<le> 2 ^ n" using assms(2) by (rule power_increasing) simp
  finally have "unat (drop_bit n w) = 0"
    by (simp add: unat_drop_bit_eq drop_bit_eq_div [of n "unat w"])
  then show ?thesis by (simp only: unat_eq_0)
qed

lemma h256_encode_small: "w < 256 \<Longrightarrow> h256_encode w = replicate 31 0 @ [ucast w]"
proof -
  assume w: "w < 256"
  have "h256_encode w = map (\<lambda>i. ucast (drop_bit (8 * (31 - i)) w)) [0..<31] @ [ucast w]"
    using upt_Suc_append [of 0 31] by (simp add: h256_encode_def)
  also have "map (\<lambda>i. ucast (drop_bit (8 * (31 - i)) w) :: u8) [0..<31] = replicate 31 0"
    by (rule nth_equalityI) (simp_all add: drop_bit_small [OF w])
  finally show ?thesis .
qed

lemma sum_hash_zeros: "foldl (\<lambda>acc b. acc + ucast b) a (replicate n (0 :: u8)) = (a :: h256)"
  by (induction n) simp_all

lemma sum_hash_child:
  assumes "p < 256" "l < 256"
  shows "sum_hash (h256_encode p @ h256_encode l) = 1 + p + l"
proof -
  have "ucast (ucast w :: u8) = w" if "w < (256 :: h256)" for w
  proof -
    have "unat (take_bit 8 w) = unat w"
      using that by (simp add: unsigned_take_bit_eq take_bit_nat_eq_self_iff word_less_nat_alt)
    then show ?thesis by (simp add: unsigned_ucast_eq word_unat_eq_iff)
  qed
  then show ?thesis using assms by (simp add: sum_hash_def h256_encode_small sum_hash_zeros)
qed

lemma encode_with_node_sum:
  assumes "p < 256" and "lbl_node l < 256"
  shows "encode_with_node sum_hash l p = 1 + p + lbl_node l"
  using assms by (simp add: encode_with_node_def sum_hash_child)


end
