(* ===== verification/Record_Types.thy ===== *)
theory Record_Types
  imports Prelude
begin

text \<open>
  The DNS record types of src/pallets/pns-types/src/ddns.rs: \<open>codec_type::RecordType\<close>,
  which is stored on chain, and its two conversions to and from the record types of the DNS
  library.  Of that library's enum only the variants the conversions name are known here;
  \<open>H_Other\<close> stands for a variant they do not name (the wildcard arm of the second
  conversion).  The panic of that arm is the value \<open>None\<close>.
\<close>

section \<open>The enums\<close>

datatype record_type =
    RT_SS58 | RT_RPC | RT_VALIDATOR | RT_PARA | RT_PROXY | RT_PUBKEY1 | RT_AVATAR
  | RT_CONTRACT | RT_PUBKEY2 | RT_PUBKEY3 | RT_ORIGIN | RT_IPFS | RT_CONTENT | RT_A
  | RT_AAAA | RT_ANAME | RT_ANY | RT_AXFR | RT_CAA | RT_CDS | RT_CDNSKEY | RT_CNAME
  | RT_CSYNC | RT_DNSKEY | RT_DS | RT_HINFO | RT_HTTPS | RT_IXFR | RT_KEY | RT_MX
  | RT_NAPTR | RT_NS | RT_NSEC | RT_NSEC3 | RT_NSEC3PARAM | RT_NULL | RT_OPENPGPKEY
  | RT_OPT | RT_PTR | RT_RRSIG | RT_SIG | RT_SOA | RT_SRV | RT_SSHFP | RT_SVCB | RT_TLSA
  | RT_TSIG | RT_TXT | RT_Unknown u16 | RT_ZERO

datatype hickory_type =
    H_A | H_AAAA | H_ANAME | H_ANY | H_AXFR | H_CAA | H_CDS | H_CDNSKEY | H_CNAME | H_CSYNC
  | H_DNSKEY | H_DS | H_HINFO | H_HTTPS | H_IXFR | H_KEY | H_MX | H_NAPTR | H_NS | H_NSEC
  | H_NSEC3 | H_NSEC3PARAM | H_NULL | H_OPENPGPKEY | H_OPT | H_PTR | H_RRSIG | H_SIG
  | H_SOA | H_SRV | H_SSHFP | H_SVCB | H_TLSA | H_TSIG | H_TXT | H_Unknown u16 | H_ZERO
  | H_Other nat

datatype contract_address = Wasm "u8 list" | Evm "u8 list"

section \<open>Conversions\<close>

fun to_hickory :: "record_type \<Rightarrow> hickory_type" where
  "to_hickory RT_A = H_A"
| "to_hickory RT_AAAA = H_AAAA"
| "to_hickory RT_ANAME = H_ANAME"
| "to_hickory RT_ANY = H_ANY"
| "to_hickory RT_AXFR = H_AXFR"
| "to_hickory RT_CAA = H_CAA"
| "to_hickory RT_CDS = H_CDS"
| "to_hickory RT_CDNSKEY = H_CDNSKEY"
| "to_hickory RT_CNAME = H_CNAME"
| "to_hickory RT_CSYNC = H_CSYNC"
| "to_hickory RT_DNSKEY = H_DNSKEY"
| "to_hickory RT_DS = H_DS"
| "to_hickory RT_HINFO = H_HINFO"
| "to_hickory RT_HTTPS = H_HTTPS"
| "to_hickory RT_IXFR = H_IXFR"
| "to_hickory RT_KEY = H_KEY"
| "to_hickory RT_MX = H_MX"
| "to_hickory RT_NAPTR = H_NAPTR"
| "to_hickory RT_NS = H_NS"
| "to_hickory RT_NSEC = H_NSEC"
| "to_hickory RT_NSEC3 = H_NSEC3"
| "to_hickory RT_NSEC3PARAM = H_NSEC3PARAM"
| "to_hickory RT_NULL = H_NULL"
| "to_hickory RT_OPENPGPKEY = H_OPENPGPKEY"
| "to_hickory RT_OPT = H_OPT"
| "to_hickory RT_PTR = H_PTR"
| "to_hickory RT_RRSIG = H_RRSIG"
| "to_hickory RT_SIG = H_SIG"
| "to_hickory RT_SOA = H_SOA"
| "to_hickory RT_SRV = H_SRV"
| "to_hickory RT_SSHFP = H_SSHFP"
| "to_hickory RT_SVCB = H_SVCB"
| "to_hickory RT_TLSA = H_TLSA"
| "to_hickory RT_TSIG = H_TSIG"
| "to_hickory RT_TXT = H_TXT"
| "to_hickory RT_SS58 = H_Unknown 65280"
| "to_hickory RT_RPC = H_Unknown 65281"
| "to_hickory RT_VALIDATOR = H_Unknown 65282"
| "to_hickory RT_PARA = H_Unknown 65283"
| "to_hickory RT_PROXY = H_Unknown 65284"
| "to_hickory RT_PUBKEY1 = H_Unknown 65285"
| "to_hickory RT_AVATAR = H_Unknown 65286"
| "to_hickory RT_CONTRACT = H_Unknown 65287"
| "to_hickory RT_PUBKEY2 = H_Unknown 65288"
| "to_hickory RT_PUBKEY3 = H_Unknown 65289"
| "to_hickory RT_ORIGIN = H_Unknown 65290"
| "to_hickory RT_IPFS = H_Unknown 65291"
| "to_hickory RT_CONTENT = H_Unknown 65292"
| "to_hickory (RT_Unknown unknow) = H_Unknown unknow"
| "to_hickory RT_ZERO = H_ZERO"

text \<open>The \<open>Unknown\<close> arms of the second conversion, in the order of the source.\<close>

definition from_unknown :: "u16 \<Rightarrow> record_type" where
  "from_unknown unknow =
     (if unknow = 65280 then RT_SS58
      else if unknow = 65281 then RT_RPC
      else if unknow = 65282 then RT_VALIDATOR
      else if unknow = 65283 then RT_PARA
      else if unknow = 65284 then RT_PROXY
      else if unknow = 65285 then RT_PUBKEY1
      else if unknow = 65286 then RT_AVATAR
      else if unknow = 65287 then RT_CONTRACT
      else if unknow = 65288 then RT_PUBKEY2
      else if unknow = 65289 then RT_PUBKEY3
      else if unknow = 65290 then RT_ORIGIN
      else if unknow = 65291 then RT_IPFS
      else if unknow = 65292 then RT_CONTENT
      else RT_Unknown unknow)"

fun from_hickory :: "hickory_type \<Rightarrow> record_type option" where
  "from_hickory H_A = Some RT_A"
| "from_hickory H_AAAA = Some RT_AAAA"
| "from_hickory H_ANAME = Some RT_ANAME"
| "from_hickory H_ANY = Some RT_ANY"
| "from_hickory H_AXFR = Some RT_AXFR"
| "from_hickory H_CAA = Some RT_CAA"
| "from_hickory H_CDS = Some RT_CDS"
| "from_hickory H_CDNSKEY = Some RT_CDNSKEY"
| "from_hickory H_CNAME = Some RT_CNAME"
| "from_hickory H_CSYNC = Some RT_CSYNC"
| "from_hickory H_DNSKEY = Some RT_DNSKEY"
| "from_hickory H_DS = Some RT_DS"
| "from_hickory H_HINFO = Some RT_HINFO"
| "from_hickory H_HTTPS = Some RT_HTTPS"
| "from_hickory H_IXFR = Some RT_IXFR"
| "from_hickory H_KEY = Some RT_KEY"
| "from_hickory H_MX = Some RT_MX"
| "from_hickory H_NAPTR = Some RT_NAPTR"
| "from_hickory H_NS = Some RT_NS"
| "from_hickory H_NSEC = Some RT_NSEC"
| "from_hickory H_NSEC3 = Some RT_NSEC3"
| "from_hickory H_NSEC3PARAM = Some RT_NSEC3PARAM"
| "from_hickory H_NULL = Some RT_NULL"
| "from_hickory H_OPENPGPKEY = Some RT_OPENPGPKEY"
| "from_hickory H_OPT = Some RT_OPT"
| "from_hickory H_PTR = Some RT_PTR"
| "from_hickory H_RRSIG = Some RT_RRSIG"
| "from_hickory H_SIG = Some RT_SIG"
| "from_hickory H_SOA = Some RT_SOA"
| "from_hickory H_SRV = Some RT_SRV"
| "from_hickory H_SSHFP = Some RT_SSHFP"
| "from_hickory H_SVCB = Some RT_SVCB"
| "from_hickory H_TLSA = Some RT_TLSA"
| "from_hickory H_TSIG = Some RT_TSIG"
| "from_hickory H_TXT = Some RT_TXT"
| "from_hickory (H_Unknown unknow) = Some (from_unknown unknow)"
| "from_hickory H_ZERO = Some RT_ZERO"
| "from_hickory (H_Other n) = None"

definition all_record_types :: "record_type list" where
  "all_record_types =
     [RT_A, RT_AAAA, RT_ANAME, RT_ANY, RT_AXFR, RT_CAA, RT_CDS, RT_CDNSKEY, RT_CNAME,
      RT_CSYNC, RT_DNSKEY, RT_DS, RT_HINFO, RT_HTTPS, RT_IXFR, RT_KEY, RT_MX, RT_NAPTR,
      RT_NS, RT_NSEC, RT_NSEC3, RT_NSEC3PARAM, RT_NULL, RT_OPENPGPKEY, RT_OPT, RT_PTR,
      RT_RRSIG, RT_SIG, RT_SOA, RT_SRV, RT_SSHFP, RT_SVCB, RT_TLSA, RT_TSIG, RT_TXT,
      RT_ZERO, RT_SS58, RT_RPC, RT_VALIDATOR, RT_PARA, RT_PROXY, RT_PUBKEY1, RT_AVATAR,
      RT_CONTRACT, RT_PUBKEY2, RT_PUBKEY3, RT_ORIGIN, RT_IPFS, RT_CONTENT]"

section \<open>Facts\<close>

text \<open>The private-use codes 65280 to 65292, taken by the Polkadot-specific types.\<close>

definition reserved_code :: "u16 \<Rightarrow> bool" where
  "reserved_code n = (65280 \<le> n \<and> n \<le> 65292)"

lemma from_unknown_other: "\<not> reserved_code n \<Longrightarrow> from_unknown n = RT_Unknown n"
  by (auto simp: from_unknown_def reserved_code_def)

lemma to_hickory_from_unknown: "to_hickory (from_unknown n) = H_Unknown n"
  by (simp add: from_unknown_def)

lemma reserved_code_not_unknown:
  assumes "reserved_code n"
  shows "from_unknown n \<noteq> RT_Unknown n"
proof -
  have "65280 \<le> unat n" "unat n \<le> 65292"
    using assms by (simp_all add: reserved_code_def word_le_nat_alt)
  then have "unat n = 65280 \<or> unat n = 65281 \<or> unat n = 65282 \<or> unat n = 65283
      \<or> unat n = 65284 \<or> unat n = 65285 \<or> unat n = 65286 \<or> unat n = 65287 \<or> unat n = 65288
      \<or> unat n = 65289 \<or> unat n = 65290 \<or> unat n = 65291 \<or> unat n = 65292"
    by presburger
  then show ?thesis
    by (auto simp: from_unknown_def word_unat_eq_iff)
qed

lemma from_unknown_id_iff: "from_unknown n = RT_Unknown n \<longleftrightarrow> \<not> reserved_code n"
  using from_unknown_other reserved_code_not_unknown by blast

text \<open>
  C40: The two conversions between the stored record types and those of the DNS library
  are inverse to each other, except that an \<open>Unknown\<close> carrying one of the codes 65280 to
  65292 comes back as the Polkadot-specific type of that code; the conversion from the
  library is undefined (it panics) exactly on the variants it does not name.
\<close>
theorem record_type_roundtrip:
  "(from_hickory (to_hickory t) = Some t \<longleftrightarrow> \<not> (\<exists>n. t = RT_Unknown n \<and> reserved_code n))
   \<and> (case from_hickory h of None \<Rightarrow> (\<exists>n. h = H_Other n) | Some t' \<Rightarrow> to_hickory t' = h)"
proof
  show "from_hickory (to_hickory t) = Some t \<longleftrightarrow> \<not> (\<exists>n. t = RT_Unknown n \<and> reserved_code n)"
    by (cases t) (simp_all add: from_unknown_id_iff, simp_all add: from_unknown_def)
  show "case from_hickory h of None \<Rightarrow> (\<exists>n. h = H_Other n) | Some t' \<Rightarrow> to_hickory t' = h"
    by (cases h) (auto simp: to_hickory_from_unknown)
qed

text \<open>
  The list that an ANY query iterates over has every record type except the
  \<open>Unknown\<close> ones, each once.
\<close>

lemma all_record_types_complete:
  "distinct all_record_types \<and> set all_record_types = {t. \<nexists>n. t = RT_Unknown n}"
proof
  show "distinct all_record_types" by (simp add: all_record_types_def)
  have "t \<in> set all_record_types \<longleftrightarrow> (\<nexists>n. t = RT_Unknown n)" for t
    by (cases t) (simp_all add: all_record_types_def)
  then show "set all_record_types = {t. \<nexists>n. t = RT_Unknown n}" by blast
qed

end
