(* ===== verification/Runtime_State.thy ===== *)
theory Runtime_State
  imports Pns_Types Record_Types
begin

text \<open>
  The state of the chain as the pallets see it, and the interface they are configured with.

  Every pallet's storage is a record of its own; \<open>runtime\<close> joins them with the balances
  (a type parameter: the currency pallet is not part of the repository), the clock, the
  block number and parent hash of frame-system, and the events deposited so far.

  \<open>config\<close> gathers the constants and associated types of the pallets' \<open>Config\<close> traits
  together with the host functions they call: the hash, the currency, the address lookup
  and the origin checks.  The traits by which the PNS pallets call each other
  (\<open>Registrar\<close>, \<open>Registry\<close>, \<open>NameRegistry\<close>, \<open>Ss58Updater\<close>, \<open>RecordCleaner\<close>,
  \<open>OriginRecorder\<close>) are wired as src/runtime/src/configs/mod.rs wires them.

  An extrinsic that returns an error is rolled back by the storage layer around it, so a
  result is an error alone or the new state.
\<close>

section \<open>Origins\<close>

datatype origin = Origin_Root | Origin_Signed account_id | Origin_None

section \<open>Errors\<close>

datatype nft_error =
    Nft_NoAvailableClassId | Nft_TokenNotFound | Nft_ClassNotFound | Nft_NoPermission
  | Nft_CannotDestroyClass | Nft_MaxMetadataExceeded

datatype registry_error =
    Registry_NoPermission | Registry_NotExist | Registry_CapacityNotEnough
  | Registry_SubnodeNotClear | Registry_BanBurnBaseNode | Registry_OfficialNotInitiated
  | Registry_InvalidName | Registry_CannotOwnSubnameUnderOwnDomain
  | Registry_SubnameAlreadyExists | Registry_SubnameNotFound | Registry_SubnameNotOffered
  | Registry_SubnameNotActive | Registry_NotSubnameTarget | Registry_NotSubnameOfferer
  | Registry_SubnameDepthExceeded | Registry_TargetAlreadyOwnsName

datatype registrar_error =
    Registrar_NotOwned | Registrar_Occupied | Registrar_NotExistOrOccupied | Registrar_Frozen
  | Registrar_ParseLabelFailed | Registrar_LabelInvalid | Registrar_NotUseable
  | Registrar_NotRenewable | Registrar_RegistryDurationInvalid | Registrar_RegistrarClosed
  | Registrar_AlreadyHasCanonicalName | Registrar_AlreadyHoldsSubdomain
  | Registrar_NoCanonicalName | Registrar_LabelTooLong | Registrar_NameAlreadyOffered
  | Registrar_OfferedNameNotFound | Registrar_NotOfferedNameRecipient

datatype resolvers_error =
    Resolvers_InvalidPermission | Resolvers_Ss58RecordProtected | Resolvers_InvalidName

datatype market_error =
    Market_NoCanonicalName | Market_AlreadyListed | Market_NotListed | Market_ListingExpired
  | Market_SellerNoLongerOwns | Market_ExpiryNotInFuture | Market_InvalidName
  | Market_BuyerIsSeller | Market_BuyerIsRecipient | Market_SellerIsRecipient

datatype redeem_error =
    Redeem_RangeInvaild | Redeem_ParseLabelFailed | Redeem_InvalidSignature
  | Redeem_RedeemsHasBeenUsed | Redeem_LabelLenInvalid

text \<open>
  \<open>BadOrigin\<close>, \<open>LookupFailed\<close> and \<open>ArithmeticOverflow\<close> are the frame errors the pallets
  return; \<open>CurrencyError\<close> carries whatever the currency reports.
\<close>

datatype dispatch_error =
    NftError nft_error | RegistryError registry_error | RegistrarError registrar_error
  | ResolversError resolvers_error | MarketError market_error | RedeemError redeem_error
  | BadOrigin | LookupFailed | ArithmeticOverflow | CurrencyError nat

type_synonym 'a result = "dispatch_error + 'a"

section \<open>Events\<close>

datatype text_kind =
    Email | Url | Avatar | Description | Notice | Keywords | Twitter | Github | Ipfs

datatype event =
    Registry_Transferred account_id account_id u32 domain_hash
  | Registry_TokenMinted u32 domain_hash domain_hash account_id
  | Registry_TokenBurned u32 domain_hash domain_hash account_id account_id
  | Registrar_NameRegistered "u8 list" domain_hash account_id u64 u128
  | Registrar_NameRenewed domain_hash account_id u64 u128
  | Registrar_SubnameOffered domain_hash domain_hash "u8 list" account_id
  | Registrar_SubnameAccepted domain_hash account_id
  | Registrar_SubnameRejected domain_hash account_id
  | Registrar_SubnameRevoked domain_hash domain_hash
  | Registrar_SubnameReleased domain_hash domain_hash
  | Registrar_NameReserved domain_hash
  | Registrar_NameUnReserved domain_hash
  | Registrar_NameBoughtForRecipient domain_hash account_id account_id
  | Registrar_OfferedNameAccepted domain_hash account_id
  | Registrar_OfferedNameRejected domain_hash account_id
  | Resolvers_TextsChanged domain_hash text_kind "u8 list"
  | Resolvers_RecordsChanged domain_hash record_type "u8 list"
  | Market_Listed domain_hash account_id u128 u64
  | Market_Delisted domain_hash account_id
  | Market_Sold domain_hash account_id account_id u128 u128
  | Market_NameBoughtForRecipient domain_hash account_id account_id account_id u128 u128
  | Oracle_BasePriceChanged "u128 list"
  | Oracle_RentPriceChanged "u128 list"
  | Oracle_ExchangeRateChanged account_id u128
  | Origin_AddedOrigin account_id
  | Origin_RemovedOrigin account_id
  | Redeem_RedeemCodeUsed "u8 list" domain_hash account_id

section \<open>Storage of the pallets\<close>

record class_info =
  ci_metadata :: "u8 list"
  ci_total_issuance :: u128
  ci_owner :: account_id

record token_info =
  ti_metadata :: "u8 list"
  ti_owner :: account_id
  ti_data :: token_data

type_synonym token_key = "u32 \<times> domain_hash"

record nft_storage =
  next_class_id :: u32
  classes :: "u32 \<rightharpoonup> class_info"
  tokens :: "token_key \<rightharpoonup> token_info"
  tokens_by_owner :: "(account_id, token_key, unit) dmap"

record registry_storage =
  runtime_origin :: "domain_hash \<rightharpoonup> domain_tracing"
  sub_names :: "(domain_hash, domain_hash, unit) dmap"
  account_to_subnames :: "(account_id, domain_hash, unit) dmap"
  subname_records :: "domain_hash \<rightharpoonup> subname_record"
  offered_to_account :: "(account_id, domain_hash, unit) dmap"
  official :: "account_id option"

record registrar_storage =
  registrar_infos :: "(domain_hash, registrar_info) imap"
  reserved_list :: "domain_hash \<rightharpoonup> unit"
  owner_to_primary_name :: "account_id \<rightharpoonup> domain_hash"
  offered_names :: "(domain_hash, offered_name_record) imap"

record resolvers_storage =
  texts :: "(domain_hash, text_kind, u8 list) dmap"
  records :: "(domain_hash, record_type, u8 list) dmap"

record listing =
  ls_seller :: account_id
  ls_price :: u128
  ls_expires_at :: u64

record market_storage =
  listings :: "domain_hash \<rightharpoonup> listing"

text \<open>The price tables are arrays of eleven balances.\<close>

record oracle_storage =
  base_price :: "u128 list"
  rent_price :: "u128 list"
  exchange_rate :: u128

record origin_storage =
  origins :: "account_id \<rightharpoonup> unit"
  is_registrar_open :: bool

record redeem_storage =
  redeems :: "u32 \<rightharpoonup> unit"

record 'b runtime =
  rt_nft :: nft_storage
  rt_registry :: registry_storage
  rt_registrar :: registrar_storage
  rt_resolvers :: resolvers_storage
  rt_market :: market_storage
  rt_oracle :: oracle_storage
  rt_origin :: origin_storage
  rt_redeem :: redeem_storage
  rt_balances :: 'b
  rt_now :: u64
  rt_block_number :: u32
  rt_parent_hash :: h256
  rt_events :: "event list"

section \<open>Configuration\<close>

record ('b, 'src) config =
  cfg_keccak :: keccak
  cfg_base_node :: domain_hash
  cfg_grace_period :: u64
  cfg_default_capacity :: u32
  cfg_min_registration_duration :: u64
  cfg_max_registration_duration :: u64
  cfg_max_class_metadata :: nat
  cfg_max_token_metadata :: nat
  cfg_max_content_len :: nat
  cfg_protocol_fee_bps :: u32
  cfg_is_open :: "'b runtime \<Rightarrow> bool"
  cfg_manager_origin :: "'b runtime \<Rightarrow> origin \<Rightarrow> account_id result"
  cfg_lookup :: "'src \<Rightarrow> account_id result"
  cfg_withdraw :: "account_id \<Rightarrow> u128 \<Rightarrow> 'b \<Rightarrow> 'b result"
  cfg_transfer :: "account_id \<Rightarrow> account_id \<Rightarrow> u128 \<Rightarrow> 'b \<Rightarrow> 'b result"

text \<open>
  What the pallets rely on of the currency (the documented behaviour of
  \<open>Currency::withdraw\<close>, whose negative imbalance is dropped at once and so burned, and of
  \<open>Currency::transfer\<close>): \<open>free\<close> reads an account's free balance and \<open>issuance\<close> the total.
\<close>

definition withdraw_burns ::
  "('b, 'src) config \<Rightarrow> ('b \<Rightarrow> account_id \<Rightarrow> nat) \<Rightarrow> ('b \<Rightarrow> nat) \<Rightarrow> bool" where
  "withdraw_burns c free issuance \<longleftrightarrow>
     (\<forall>who amount b b'. cfg_withdraw c who amount b = Inr b' \<longrightarrow>
        free b who = free b' who + unat amount
        \<and> (\<forall>other. other \<noteq> who \<longrightarrow> free b' other = free b other)
        \<and> issuance b = issuance b' + unat amount)"

definition transfer_moves ::
  "('b, 'src) config \<Rightarrow> ('b \<Rightarrow> account_id \<Rightarrow> nat) \<Rightarrow> ('b \<Rightarrow> nat) \<Rightarrow> bool" where
  "transfer_moves c free issuance \<longleftrightarrow>
     (\<forall>source dest amount b b'. cfg_transfer c source dest amount b = Inr b' \<longrightarrow>
        source \<noteq> dest \<longrightarrow>
        free b source = free b' source + unat amount
        \<and> free b' dest = free b dest + unat amount
        \<and> (\<forall>other. other \<noteq> source \<and> other \<noteq> dest \<longrightarrow> free b' other = free b other)
        \<and> issuance b' = issuance b)"

section \<open>Frame helpers\<close>

definition ensure_signed :: "origin \<Rightarrow> account_id result" where
  "ensure_signed org = (case org of Origin_Signed who \<Rightarrow> Inr who | _ \<Rightarrow> Inl BadOrigin)"

definition ensure_root :: "origin \<Rightarrow> unit result" where
  "ensure_root org = (case org of Origin_Root \<Rightarrow> Inr () | _ \<Rightarrow> Inl BadOrigin)"

definition deposit_event :: "event \<Rightarrow> 'b runtime \<Rightarrow> 'b runtime" where
  "deposit_event e s = s\<lparr>rt_events := rt_events s @ [e]\<rparr>"

lemma ensure_signed_iff [result_simps]:
  "ensure_signed org = Inr who \<longleftrightarrow> org = Origin_Signed who"
  by (auto simp: ensure_signed_def split: origin.splits)

lemma ensure_root_iff [result_simps]:
  "ensure_root org = Inr u \<longleftrightarrow> org = Origin_Root"
  by (auto simp: ensure_root_def split: origin.splits)

lemma deposit_event_sel [simp]:
  "rt_nft (deposit_event e s) = rt_nft s"
  "rt_registry (deposit_event e s) = rt_registry s"
  "rt_registrar (deposit_event e s) = rt_registrar s"
  "rt_resolvers (deposit_event e s) = rt_resolvers s"
  "rt_market (deposit_event e s) = rt_market s"
  "rt_oracle (deposit_event e s) = rt_oracle s"
  "rt_origin (deposit_event e s) = rt_origin s"
  "rt_redeem (deposit_event e s) = rt_redeem s"
  "rt_balances (deposit_event e s) = rt_balances s"
  "rt_now (deposit_event e s) = rt_now s"
  "rt_block_number (deposit_event e s) = rt_block_number s"
  "rt_parent_hash (deposit_event e s) = rt_parent_hash s"
  "rt_events (deposit_event e s) = rt_events s @ [e]"
  by (simp_all add: deposit_event_def)

section \<open>Updating one pallet's storage\<close>

definition upd_nft :: "(nft_storage \<Rightarrow> nft_storage) \<Rightarrow> 'b runtime \<Rightarrow> 'b runtime" where
  "upd_nft f s = s\<lparr>rt_nft := f (rt_nft s)\<rparr>"

definition upd_registry :: "(registry_storage \<Rightarrow> registry_storage) \<Rightarrow> 'b runtime \<Rightarrow> 'b runtime" where
  "upd_registry f s = s\<lparr>rt_registry := f (rt_registry s)\<rparr>"

definition upd_registrar :: "(registrar_storage \<Rightarrow> registrar_storage) \<Rightarrow> 'b runtime \<Rightarrow> 'b runtime" where
  "upd_registrar f s = s\<lparr>rt_registrar := f (rt_registrar s)\<rparr>"

lemma upd_nft_sel [simp]:
  "rt_nft (upd_nft f s) = f (rt_nft s)"
  "rt_registry (upd_nft f s) = rt_registry s"
  "rt_registrar (upd_nft f s) = rt_registrar s"
  "rt_resolvers (upd_nft f s) = rt_resolvers s"
  "rt_market (upd_nft f s) = rt_market s"
  "rt_oracle (upd_nft f s) = rt_oracle s"
  "rt_origin (upd_nft f s) = rt_origin s"
  "rt_redeem (upd_nft f s) = rt_redeem s"
  "rt_balances (upd_nft f s) = rt_balances s"
  "rt_now (upd_nft f s) = rt_now s"
  "rt_block_number (upd_nft f s) = rt_block_number s"
  "rt_parent_hash (upd_nft f s) = rt_parent_hash s"
  "rt_events (upd_nft f s) = rt_events s"
  by (simp_all add: upd_nft_def)

lemma upd_registry_sel [simp]:
  "rt_nft (upd_registry f s) = rt_nft s"
  "rt_registry (upd_registry f s) = f (rt_registry s)"
  "rt_registrar (upd_registry f s) = rt_registrar s"
  "rt_resolvers (upd_registry f s) = rt_resolvers s"
  "rt_market (upd_registry f s) = rt_market s"
  "rt_oracle (upd_registry f s) = rt_oracle s"
  "rt_origin (upd_registry f s) = rt_origin s"
  "rt_redeem (upd_registry f s) = rt_redeem s"
  "rt_balances (upd_registry f s) = rt_balances s"
  "rt_now (upd_registry f s) = rt_now s"
  "rt_block_number (upd_registry f s) = rt_block_number s"
  "rt_parent_hash (upd_registry f s) = rt_parent_hash s"
  "rt_events (upd_registry f s) = rt_events s"
  by (simp_all add: upd_registry_def)

lemma upd_registrar_sel [simp]:
  "rt_nft (upd_registrar f s) = rt_nft s"
  "rt_registry (upd_registrar f s) = rt_registry s"
  "rt_registrar (upd_registrar f s) = f (rt_registrar s)"
  "rt_resolvers (upd_registrar f s) = rt_resolvers s"
  "rt_market (upd_registrar f s) = rt_market s"
  "rt_oracle (upd_registrar f s) = rt_oracle s"
  "rt_origin (upd_registrar f s) = rt_origin s"
  "rt_redeem (upd_registrar f s) = rt_redeem s"
  "rt_balances (upd_registrar f s) = rt_balances s"
  "rt_now (upd_registrar f s) = rt_now s"
  "rt_block_number (upd_registrar f s) = rt_block_number s"
  "rt_parent_hash (upd_registrar f s) = rt_parent_hash s"
  "rt_events (upd_registrar f s) = rt_events s"
  by (simp_all add: upd_registrar_def)

end
