(* ===== verification/Nft.thy ===== *)
theory Nft
  imports Runtime_State
begin

text \<open>
  The token pallet, src/pallets/pns-registrar/src/nft.rs: classes of tokens whose ids are
  chosen by the caller, one owner per token, a per-class issuance counter and an index of
  the tokens by owner.

  The index and the counter are redundant with the token map; \<open>nft_wf\<close> says how they
  agree, every operation of the pallet keeps it (a mint only of a fresh id), and the
  locale \<open>token_store\<close> states the contract the registry relies on.
\<close>

section \<open>Operations\<close>

definition nft_create_class ::
  "nat \<Rightarrow> account_id \<Rightarrow> u8 list \<Rightarrow> nft_storage \<Rightarrow> (u32 \<times> nft_storage) result" where
  "nft_create_class max_metadata owner metadata st =
     and_then (ensure (length metadata \<le> max_metadata) (NftError Nft_MaxMetadataExceeded)) (\<lambda>_.
     and_then (ok_or (checked_add (next_class_id st) 1) (NftError Nft_NoAvailableClassId)) (\<lambda>next.
       let class_id = next_class_id st;
           info = \<lparr>ci_metadata = metadata, ci_total_issuance = 0, ci_owner = owner\<rparr>
       in Inr (class_id, st\<lparr>next_class_id := next, classes := (classes st)(class_id \<mapsto> info)\<rparr>)))"

definition nft_transfer ::
  "account_id \<Rightarrow> account_id \<Rightarrow> token_key \<Rightarrow> nft_storage \<Rightarrow> nft_storage result" where
  "nft_transfer sender receiver token st =
     and_then (ok_or (tokens st token) (NftError Nft_TokenNotFound)) (\<lambda>info.
     and_then (ensure (ti_owner info = sender) (NftError Nft_NoPermission)) (\<lambda>_.
       if sender = receiver then Inr st
       else Inr (st\<lparr>tokens := (tokens st)(token \<mapsto> info\<lparr>ti_owner := receiver\<rparr>),
                    tokens_by_owner :=
                      dm_insert receiver token () (dm_remove sender token (tokens_by_owner st))\<rparr>)))"

definition nft_mint ::
  "nat \<Rightarrow> account_id \<Rightarrow> token_key \<Rightarrow> u8 list \<Rightarrow> token_data \<Rightarrow> nft_storage \<Rightarrow> nft_storage result" where
  "nft_mint max_metadata owner token metadata data st =
     and_then (ensure (length metadata \<le> max_metadata) (NftError Nft_MaxMetadataExceeded)) (\<lambda>_.
     and_then (ok_or (classes st (fst token)) (NftError Nft_ClassNotFound)) (\<lambda>info.
     and_then (ok_or (checked_add (ci_total_issuance info) 1) ArithmeticOverflow) (\<lambda>total.
       Inr (st\<lparr>classes := (classes st)(fst token \<mapsto> info\<lparr>ci_total_issuance := total\<rparr>),
               tokens := (tokens st)
                 (token \<mapsto> \<lparr>ti_metadata = metadata, ti_owner = owner, ti_data = data\<rparr>),
               tokens_by_owner := dm_insert owner token () (tokens_by_owner st)\<rparr>))))"

definition nft_burn :: "account_id \<Rightarrow> token_key \<Rightarrow> nft_storage \<Rightarrow> nft_storage result" where
  "nft_burn owner token st =
     and_then (ok_or (tokens st token) (NftError Nft_TokenNotFound)) (\<lambda>t.
     and_then (ensure (ti_owner t = owner) (NftError Nft_NoPermission)) (\<lambda>_.
     and_then (ok_or (classes st (fst token)) (NftError Nft_ClassNotFound)) (\<lambda>info.
     and_then (ok_or (checked_sub (ci_total_issuance info) 1) ArithmeticOverflow) (\<lambda>total.
       Inr (st\<lparr>tokens := (tokens st)(token := None),
               classes := (classes st)(fst token \<mapsto> info\<lparr>ci_total_issuance := total\<rparr>),
               tokens_by_owner := dm_remove owner token (tokens_by_owner st)\<rparr>)))))"

definition nft_is_owner :: "account_id \<Rightarrow> token_key \<Rightarrow> nft_storage \<Rightarrow> bool" where
  "nft_is_owner account token st = dm_contains (tokens_by_owner st) account token"

section \<open>Genesis\<close>

text \<open>A genesis token is (account, metadata, data, id); \<open>None\<close> stands for the panic of \<open>expect\<close>.\<close>

type_synonym genesis_token = "account_id \<times> u8 list \<times> token_data \<times> domain_hash"
type_synonym genesis_class = "account_id \<times> u8 list \<times> genesis_token list"

fun nft_genesis_tokens ::
  "nat \<Rightarrow> u32 \<Rightarrow> genesis_token list \<Rightarrow> nft_storage \<Rightarrow> nft_storage option" where
  "nft_genesis_tokens max_token class_id [] st = Some st"
| "nft_genesis_tokens max_token class_id ((account, metadata, data, token_id) # ts) st =
     (case nft_mint max_token account (class_id, token_id) metadata data st of
        Inl _ \<Rightarrow> None
      | Inr st' \<Rightarrow> nft_genesis_tokens max_token class_id ts st')"

fun nft_genesis_build ::
  "nat \<Rightarrow> nat \<Rightarrow> genesis_class list \<Rightarrow> nft_storage \<Rightarrow> nft_storage option" where
  "nft_genesis_build max_class max_token [] st = Some st"
| "nft_genesis_build max_class max_token ((owner, metadata, ts) # cs) st =
     (case nft_create_class max_class owner metadata st of
        Inl _ \<Rightarrow> None
      | Inr (class_id, st1) \<Rightarrow>
          (case nft_genesis_tokens max_token class_id ts st1 of
             None \<Rightarrow> None
           | Some st2 \<Rightarrow> nft_genesis_build max_class max_token cs st2))"

definition nft_empty :: nft_storage where
  "nft_empty = \<lparr>next_class_id = 0, classes = Map.empty, tokens = Map.empty,
                tokens_by_owner = (\<lambda>_. [])\<rparr>"

section \<open>Well-formedness\<close>

definition nft_owner_of :: "nft_storage \<Rightarrow> token_key \<Rightarrow> account_id option" where
  "nft_owner_of st token = map_option ti_owner (tokens st token)"

definition class_tokens :: "nft_storage \<Rightarrow> u32 \<Rightarrow> domain_hash set" where
  "class_tokens st c = {t. tokens st (c, t) \<noteq> None}"

text \<open>
  The owner index lists exactly the tokens an account owns; every token belongs to a class;
  a class counts its tokens; class ids are handed out in order.
\<close>

definition nft_index_ok :: "nft_storage \<Rightarrow> bool" where
  "nft_index_ok st \<longleftrightarrow>
     (\<forall>account token. nft_is_owner account token st \<longleftrightarrow> nft_owner_of st token = Some account)"

definition class_count_ok :: "nft_storage \<Rightarrow> u32 \<Rightarrow> bool" where
  "class_count_ok st c \<longleftrightarrow> (case classes st c of
            None \<Rightarrow> class_tokens st c = {}
          | Some info \<Rightarrow> finite (class_tokens st c)
                         \<and> card (class_tokens st c) = unat (ci_total_issuance info))"

definition nft_count_ok :: "nft_storage \<Rightarrow> bool" where
  "nft_count_ok st \<longleftrightarrow> (\<forall>c. class_count_ok st c)"

definition nft_wf :: "nft_storage \<Rightarrow> bool" where
  "nft_wf st \<longleftrightarrow> nft_index_ok st \<and> nft_count_ok st
     \<and> (\<forall>c. next_class_id st \<le> c \<longrightarrow> classes st c = None)"

lemmas nft_defs = nft_transfer_def nft_mint_def nft_burn_def nft_create_class_def

section \<open>When the operations succeed\<close>

lemma nft_transfer_iff:
  "nft_transfer sender receiver token st = Inr st' \<longleftrightarrow>
     (\<exists>info. tokens st token = Some info \<and> ti_owner info = sender
        \<and> st' = (if sender = receiver then st
                 else st\<lparr>tokens := (tokens st)(token \<mapsto> info\<lparr>ti_owner := receiver\<rparr>),
                         tokens_by_owner := dm_insert receiver token ()
                           (dm_remove sender token (tokens_by_owner st))\<rparr>))"
  by (auto simp: nft_transfer_def result_simps)

lemma nft_mint_iff:
  "nft_mint max_metadata owner token metadata data st = Inr st' \<longleftrightarrow>
     length metadata \<le> max_metadata
     \<and> (\<exists>info total. classes st (fst token) = Some info
          \<and> checked_add (ci_total_issuance info) 1 = Some total
          \<and> st' = st\<lparr>classes := (classes st)(fst token \<mapsto> info\<lparr>ci_total_issuance := total\<rparr>),
                     tokens := (tokens st)
                       (token \<mapsto> \<lparr>ti_metadata = metadata, ti_owner = owner, ti_data = data\<rparr>),
                     tokens_by_owner := dm_insert owner token () (tokens_by_owner st)\<rparr>)"
  by (auto simp: nft_mint_def result_simps)

lemma nft_burn_iff:
  "nft_burn owner token st = Inr st' \<longleftrightarrow>
     (\<exists>t info total. tokens st token = Some t \<and> ti_owner t = owner
        \<and> classes st (fst token) = Some info
        \<and> checked_sub (ci_total_issuance info) 1 = Some total
        \<and> st' = st\<lparr>tokens := (tokens st)(token := None),
                   classes := (classes st)(fst token \<mapsto> info\<lparr>ci_total_issuance := total\<rparr>),
                   tokens_by_owner := dm_remove owner token (tokens_by_owner st)\<rparr>)"
  by (auto simp: nft_burn_def result_simps)

lemma nft_create_class_iff:
  "nft_create_class max_metadata owner metadata st = Inr (cid, st') \<longleftrightarrow>
     length metadata \<le> max_metadata
     \<and> (\<exists>next. checked_add (next_class_id st) 1 = Some next \<and> cid = next_class_id st
          \<and> st' = st\<lparr>next_class_id := next,
                     classes := (classes st)(next_class_id st \<mapsto>
                       \<lparr>ci_metadata = metadata, ci_total_issuance = 0, ci_owner = owner\<rparr>)\<rparr>)"
  by (auto simp: nft_create_class_def result_simps Let_def)

lemmas nft_iffs = nft_transfer_iff nft_mint_iff nft_burn_iff nft_create_class_iff

section \<open>The well-formedness invariant\<close>

lemma class_tokens_upd:
  "tokens st' = (tokens st)(k \<mapsto> i) \<Longrightarrow> class_tokens st' c =
     (if c = fst k then insert (snd k) (class_tokens st c) else class_tokens st c)"
  "tokens st' = (tokens st)(k := None) \<Longrightarrow> class_tokens st' c =
     (if c = fst k then class_tokens st c - {snd k} else class_tokens st c)"
  by (cases k; auto simp: class_tokens_def split: if_splits)+

lemma in_class_tokens: "tokens st (c, t) = Some i \<Longrightarrow> t \<in> class_tokens st c"
  by (simp add: class_tokens_def)

lemma nft_owner_of_mint:
  "nft_mint max_metadata owner token metadata data st = Inr st'
    \<Longrightarrow> nft_owner_of st' = (nft_owner_of st)(token \<mapsto> owner)"
  by (auto simp: nft_mint_iff nft_owner_of_def)

lemma nft_owner_of_transfer:
  "nft_transfer sender receiver token st = Inr st'
    \<Longrightarrow> nft_owner_of st token = Some sender \<and> nft_owner_of st' = (nft_owner_of st)(token \<mapsto> receiver)"
  by (auto simp: nft_transfer_iff nft_owner_of_def)

lemma nft_owner_of_burn:
  "nft_burn owner token st = Inr st'
    \<Longrightarrow> nft_owner_of st token = Some owner \<and> nft_owner_of st' = (nft_owner_of st)(token := None)"
  by (auto simp: nft_burn_iff nft_owner_of_def)

lemma nft_is_owner_mint:
  "nft_mint max_metadata owner token metadata data st = Inr st'
    \<Longrightarrow> nft_is_owner a k st' \<longleftrightarrow> a = owner \<and> k = token \<or> nft_is_owner a k st"
  by (auto simp: nft_mint_iff nft_is_owner_def dm_contains_simps)

lemma nft_is_owner_burn:
  "nft_burn owner token st = Inr st'
    \<Longrightarrow> nft_is_owner a k st' \<longleftrightarrow> \<not> (a = owner \<and> k = token) \<and> nft_is_owner a k st"
  by (auto simp: nft_burn_iff nft_is_owner_def dm_contains_simps)

lemma nft_is_owner_transfer:
  "nft_transfer sender receiver token st = Inr st' \<Longrightarrow> sender \<noteq> receiver
    \<Longrightarrow> nft_is_owner a k st' \<longleftrightarrow>
      a = receiver \<and> k = token \<or> \<not> (a = sender \<and> k = token) \<and> nft_is_owner a k st"
  by (auto simp: nft_transfer_iff nft_is_owner_def dm_contains_simps)

lemma nft_transfer_self: "nft_transfer sender sender token st = Inr st' \<Longrightarrow> st' = st"
  by (auto simp: nft_transfer_iff)

lemma nft_index_ok_mint:
  assumes "nft_index_ok st" "nft_owner_of st token = None"
    "nft_mint max_metadata owner token metadata data st = Inr st'"
  shows "nft_index_ok st'"
  using assms(1,2) nft_is_owner_mint [OF assms(3)] nft_owner_of_mint [OF assms(3)]
  unfolding nft_index_ok_def by auto

lemma nft_index_ok_transfer:
  assumes "nft_index_ok st" "nft_transfer sender receiver token st = Inr st'"
  shows "nft_index_ok st'"
proof (cases "sender = receiver")
  case True
  with assms show ?thesis using nft_transfer_self by blast
next
  case False
  then show ?thesis
    using assms(1) nft_is_owner_transfer [OF assms(2) False] nft_owner_of_transfer [OF assms(2)]
    unfolding nft_index_ok_def by auto
qed

lemma nft_index_ok_burn:
  assumes "nft_index_ok st" "nft_burn owner token st = Inr st'"
  shows "nft_index_ok st'"
  using assms(1) nft_is_owner_burn [OF assms(2)] nft_owner_of_burn [OF assms(2)]
  unfolding nft_index_ok_def by auto

lemma class_count_ok_cong:
  "class_count_ok st c \<Longrightarrow> classes st' c = classes st c \<Longrightarrow> class_tokens st' c = class_tokens st c
    \<Longrightarrow> class_count_ok st' c"
  by (simp add: class_count_ok_def split: option.splits)

lemma nft_count_ok_mint:
  assumes "nft_count_ok st" "nft_owner_of st token = None"
    "nft_mint max_metadata owner token metadata data st = Inr st'"
  shows "nft_count_ok st'"
  unfolding nft_count_ok_def
proof
  fix c
  obtain info total i where st': "classes st (fst token) = Some info"
    "checked_add (ci_total_issuance info) 1 = Some total"
    "classes st' = (classes st)(fst token \<mapsto> info\<lparr>ci_total_issuance := total\<rparr>)"
    "tokens st' = (tokens st)(token \<mapsto> i)"
    using assms(3) by (auto simp: nft_mint_iff)
  note st' = st'(1-3) class_tokens_upd(1) [OF st'(4), of c]
  have fresh: "snd token \<notin> class_tokens st (fst token)"
    using assms(2) by (simp add: nft_owner_of_def class_tokens_def)
  have ok: "class_count_ok st c"
    using assms(1) by (simp add: nft_count_ok_def)
  show "class_count_ok st' c"
  proof (cases "c = fst token")
    case True
    with ok fresh st' show ?thesis
      by (simp add: class_count_ok_def unat_checked_add)
  next
    case False
    with ok st' show ?thesis
      by (simp add: class_count_ok_def split: option.splits)
  qed
qed

lemma nft_count_ok_burn:
  assumes "nft_count_ok st" "nft_burn owner token st = Inr st'"
  shows "nft_count_ok st'"
  unfolding nft_count_ok_def
proof
  fix c
  obtain t info total where st': "tokens st token = Some t" "classes st (fst token) = Some info"
    "checked_sub (ci_total_issuance info) 1 = Some total"
    "classes st' = (classes st)(fst token \<mapsto> info\<lparr>ci_total_issuance := total\<rparr>)"
    "tokens st' = (tokens st)(token := None)"
    using assms(2) by (auto simp: nft_burn_iff)
  note st' = st'(1-4) class_tokens_upd(2) [OF st'(5), of c]
  have mem: "snd token \<in> class_tokens st (fst token)"
    using st'(1) by (simp add: class_tokens_def)
  have ok: "class_count_ok st c"
    using assms(1) by (simp add: nft_count_ok_def)
  show "class_count_ok st' c"
  proof (cases "c = fst token")
    case True
    with ok mem st' show ?thesis
      by (simp add: class_count_ok_def unat_checked_sub)
  next
    case False
    with ok st' show ?thesis
      by (simp add: class_count_ok_def split: option.splits)
  qed
qed

lemma nft_count_ok_transfer:
  assumes "nft_count_ok st" "nft_transfer sender receiver token st = Inr st'"
  shows "nft_count_ok st'"
proof -
  have "classes st' = classes st"
    using assms(2) by (auto simp: nft_transfer_iff)
  moreover have "tokens st' k = None \<longleftrightarrow> tokens st k = None" for k
    using assms(2) by (auto simp: nft_transfer_iff split: if_splits)
  then have "class_tokens st' = class_tokens st"
    by (auto simp: class_tokens_def)
  ultimately show ?thesis
    using assms(1) class_count_ok_cong [of st _ st'] by (simp add: nft_count_ok_def)
qed

text \<open>Class ids: none is in use from \<open>next_class_id\<close> on.\<close>

lemma nft_classes_frame:
  "nft_mint max_metadata owner token metadata data st = Inr st' \<Longrightarrow>
    next_class_id st' = next_class_id st \<and> (classes st' c = None \<longleftrightarrow> classes st c = None)"
  "nft_transfer sender receiver token st = Inr st' \<Longrightarrow>
    next_class_id st' = next_class_id st \<and> (classes st' c = None \<longleftrightarrow> classes st c = None)"
  "nft_burn owner token st = Inr st' \<Longrightarrow>
    next_class_id st' = next_class_id st \<and> (classes st' c = None \<longleftrightarrow> classes st c = None)"
  by (auto simp: nft_iffs split: if_splits)

lemma nft_wf_mint:
  "nft_wf st \<Longrightarrow> nft_owner_of st token = None
    \<Longrightarrow> nft_mint max_metadata owner token metadata data st = Inr st' \<Longrightarrow> nft_wf st'"
  unfolding nft_wf_def using nft_index_ok_mint nft_count_ok_mint nft_classes_frame(1) by metis

lemma nft_wf_transfer:
  "nft_wf st \<Longrightarrow> nft_transfer sender receiver token st = Inr st' \<Longrightarrow> nft_wf st'"
  unfolding nft_wf_def using nft_index_ok_transfer nft_count_ok_transfer nft_classes_frame(2) by metis

lemma nft_wf_burn:
  "nft_wf st \<Longrightarrow> nft_burn owner token st = Inr st' \<Longrightarrow> nft_wf st'"
  unfolding nft_wf_def using nft_index_ok_burn nft_count_ok_burn nft_classes_frame(3) by metis

lemma nft_wf_create_class:
  assumes "nft_wf st" "nft_create_class max_metadata owner metadata st = Inr (cid, st')"
  shows "nft_wf st'"
proof -
  let ?n = "next_class_id st"
  obtain info where st': "classes st' = (classes st)(?n \<mapsto> info)" "ci_total_issuance info = 0"
    "tokens st' = tokens st" "tokens_by_owner st' = tokens_by_owner st"
    "unat (next_class_id st') = unat ?n + 1"
    using assms(2) by (auto simp: nft_create_class_iff unat_checked_add)
  have eq: "class_tokens st' c = class_tokens st c" "nft_owner_of st' = nft_owner_of st"
    "nft_is_owner a k st' = nft_is_owner a k st" for c a k
    using st' by (auto simp: class_tokens_def nft_owner_of_def nft_is_owner_def)
  have none: "classes st ?n = None"
    using assms(1) by (simp add: nft_wf_def)
  have "class_count_ok st c" for c
    using assms(1) by (simp add: nft_wf_def nft_count_ok_def)
  from this [of ?n] none have "class_tokens st ?n = {}"
    by (simp add: class_count_ok_def)
  with st' have "class_count_ok st' ?n"
    by (simp add: class_count_ok_def eq)
  moreover have "class_count_ok st' c" if "c \<noteq> ?n" for c
    using class_count_ok_cong [OF \<open>class_count_ok st c\<close>] that st' by (simp add: eq)
  ultimately have "class_count_ok st' c" for c
    by (cases "c = ?n") auto
  then have "nft_count_ok st'"
    by (simp add: nft_count_ok_def)
  moreover have "nft_index_ok st'"
    using assms(1) by (simp add: nft_wf_def nft_index_ok_def eq)
  moreover have "classes st' c = None" if "next_class_id st' \<le> c" for c
    using that assms(1) st'(1,5) by (auto simp: nft_wf_def word_le_nat_alt)
  ultimately show ?thesis
    by (simp add: nft_wf_def)
qed

lemma nft_wf_empty: "nft_wf nft_empty"
  by (simp add: nft_wf_def nft_empty_def nft_index_ok_def nft_count_ok_def class_count_ok_def nft_is_owner_def
      nft_owner_of_def class_tokens_def dm_contains_iff dm_iter_def)

section \<open>The contract of a token store\<close>

text \<open>
  What the registry relies on: an ownership map that mint, transfer and burn update at one
  key, and a membership test that agrees with it as long as ids are minted fresh.
\<close>

locale token_store =
  fixes inv :: "'s \<Rightarrow> bool"
    and owner_of :: "'s \<Rightarrow> 'k \<Rightarrow> 'a option"
    and holds :: "'a \<Rightarrow> 'k \<Rightarrow> 's \<Rightarrow> bool"
    and mint :: "'a \<Rightarrow> 'k \<Rightarrow> 'm \<Rightarrow> 's \<Rightarrow> 'e + 's"
    and move :: "'a \<Rightarrow> 'a \<Rightarrow> 'k \<Rightarrow> 's \<Rightarrow> 'e + 's"
    and burn :: "'a \<Rightarrow> 'k \<Rightarrow> 's \<Rightarrow> 'e + 's"
  assumes holds_iff: "inv s \<Longrightarrow> holds a k s \<longleftrightarrow> owner_of s k = Some a"
    and mint_inv: "inv s \<Longrightarrow> owner_of s k = None \<Longrightarrow> mint a k m s = Inr s' \<Longrightarrow> inv s'"
    and mint_owner: "mint a k m s = Inr s' \<Longrightarrow> owner_of s' = (owner_of s)(k \<mapsto> a)"
    and move_inv: "inv s \<Longrightarrow> move a b k s = Inr s' \<Longrightarrow> inv s'"
    and move_owner: "move a b k s = Inr s' \<Longrightarrow>
      owner_of s k = Some a \<and> owner_of s' = (owner_of s)(k \<mapsto> b)"
    and move_ok: "owner_of s k = Some a \<Longrightarrow> \<exists>s'. move a b k s = Inr s'"
    and burn_inv: "inv s \<Longrightarrow> burn a k s = Inr s' \<Longrightarrow> inv s'"
    and burn_owner: "burn a k s = Inr s' \<Longrightarrow>
      owner_of s k = Some a \<and> owner_of s' = (owner_of s)(k := None)"
    and burn_ok: "inv s \<Longrightarrow> owner_of s k = Some a \<Longrightarrow> \<exists>s'. burn a k s = Inr s'"
begin

lemma one_holder: "inv s \<Longrightarrow> holds a k s \<Longrightarrow> holds b k s \<Longrightarrow> a = b"
  by (simp add: holds_iff)

lemma holds_after_move:
  assumes "inv s" "move a b k s = Inr s'"
  shows "holds c k' s' \<longleftrightarrow> (if k' = k then c = b else holds c k' s)"
  using assms move_inv [OF assms] move_owner [OF assms(2)] by (auto simp: holds_iff)

lemma holds_after_burn:
  assumes "inv s" "burn a k s = Inr s'"
  shows "holds c k' s' \<longleftrightarrow> k' \<noteq> k \<and> holds c k' s"
  using assms burn_inv [OF assms] burn_owner [OF assms(2)] by (auto simp: holds_iff)

lemma holds_after_mint:
  assumes "inv s" "owner_of s k = None" "mint a k m s = Inr s'"
  shows "holds c k' s' \<longleftrightarrow> (if k' = k then c = a else holds c k' s)"
  using assms mint_inv [OF assms] mint_owner [OF assms(3)] by (auto simp: holds_iff)

lemma only_owner_moves:
  "inv s \<Longrightarrow> (\<exists>s'. move a b k s = Inr s') \<longleftrightarrow> holds a k s"
  using move_owner move_ok by (auto simp: holds_iff)

lemma only_owner_burns:
  "inv s \<Longrightarrow> (\<exists>s'. burn a k s = Inr s') \<longleftrightarrow> holds a k s"
  using burn_owner burn_ok by (auto simp: holds_iff)

lemma move_there_and_back:
  assumes "move a b k s = Inr s1"
  shows "\<exists>s2. move b a k s1 = Inr s2 \<and> owner_of s2 = owner_of s"
proof -
  have 1: "owner_of s k = Some a" "owner_of s1 = (owner_of s)(k \<mapsto> b)"
    using move_owner [OF assms] by auto
  then obtain s2 where 2: "move b a k s1 = Inr s2"
    using move_ok by fastforce
  with 1 show ?thesis
    using move_owner [OF 2] by auto
qed

end

lemma nft_burn_succeeds:
  assumes "nft_wf st" "nft_owner_of st token = Some owner"
  shows "\<exists>st'. nft_burn owner token st = Inr st'"
proof -
  obtain c t where [simp]: "token = (c, t)" by force
  from assms(2) obtain i where i: "tokens st (c, t) = Some i" "ti_owner i = owner"
    by (auto simp: nft_owner_of_def)
  have t: "t \<in> class_tokens st c"
    using i by (simp add: in_class_tokens)
  from assms(1) have "class_count_ok st c"
    by (simp add: nft_wf_def nft_count_ok_def)
  with t obtain info where info: "classes st c = Some info"
    "finite (class_tokens st c)" "card (class_tokens st c) = unat (ci_total_issuance info)"
    by (cases "classes st c") (auto simp: class_count_ok_def)
  with t have "0 < unat (ci_total_issuance info)"
    using card_gt_0_iff by fastforce
  then have "\<exists>x. checked_sub (ci_total_issuance info) 1 = Some x"
    by (auto simp: checked_sub_def word_le_nat_alt)
  with i info show ?thesis
    by (auto simp: nft_burn_iff)
qed

interpretation nft_store: token_store nft_wf nft_owner_of nft_is_owner
  "\<lambda>owner token md. nft_mint max_metadata owner token (fst md) (snd md)" nft_transfer nft_burn
proof unfold_locales
  show "nft_wf s \<Longrightarrow> nft_is_owner a k s \<longleftrightarrow> nft_owner_of s k = Some a" for s a k
    unfolding nft_wf_def nft_index_ok_def by blast
  show "nft_wf s \<Longrightarrow> nft_owner_of s k = None
      \<Longrightarrow> nft_mint max_metadata a k (fst m) (snd m) s = Inr s' \<Longrightarrow> nft_wf s'" for s s' a k m
    by (rule nft_wf_mint)
  show "nft_mint max_metadata a k (fst m) (snd m) s = Inr s'
      \<Longrightarrow> nft_owner_of s' = (nft_owner_of s)(k \<mapsto> a)" for s s' a k m
    by (rule nft_owner_of_mint)
  show "nft_wf s \<Longrightarrow> nft_transfer a b k s = Inr s' \<Longrightarrow> nft_wf s'" for s s' a b k
    by (rule nft_wf_transfer)
  show "nft_transfer a b k s = Inr s' \<Longrightarrow>
      nft_owner_of s k = Some a \<and> nft_owner_of s' = (nft_owner_of s)(k \<mapsto> b)" for s s' a b k
    by (rule nft_owner_of_transfer)
  show "nft_owner_of s k = Some a \<Longrightarrow> \<exists>s'. nft_transfer a b k s = Inr s'" for s a b k
    by (auto simp: nft_transfer_iff nft_owner_of_def)
  show "nft_wf s \<Longrightarrow> nft_burn a k s = Inr s' \<Longrightarrow> nft_wf s'" for s s' a k
    by (rule nft_wf_burn)
  show "nft_burn a k s = Inr s' \<Longrightarrow>
      nft_owner_of s k = Some a \<and> nft_owner_of s' = (nft_owner_of s)(k := None)" for s s' a k
    by (rule nft_owner_of_burn)
  show "nft_wf s \<Longrightarrow> nft_owner_of s k = Some a \<Longrightarrow> \<exists>s'. nft_burn a k s = Inr s'" for s a k
    by (rule nft_burn_succeeds)
qed

section \<open>Histories\<close>

text \<open>The storages that the pallet's operations can produce when ids are minted fresh.\<close>

inductive nft_reachable :: "nat \<Rightarrow> nat \<Rightarrow> nft_storage \<Rightarrow> bool" for max_class max_token where
  nft_start: "nft_reachable max_class max_token nft_empty"
| nft_create: "nft_reachable max_class max_token st
    \<Longrightarrow> nft_create_class max_class owner metadata st = Inr (cid, st')
    \<Longrightarrow> nft_reachable max_class max_token st'"
| nft_minted: "nft_reachable max_class max_token st \<Longrightarrow> tokens st token = None
    \<Longrightarrow> nft_mint max_token owner token metadata data st = Inr st'
    \<Longrightarrow> nft_reachable max_class max_token st'"
| nft_moved: "nft_reachable max_class max_token st
    \<Longrightarrow> nft_transfer sender receiver token st = Inr st'
    \<Longrightarrow> nft_reachable max_class max_token st'"
| nft_burned: "nft_reachable max_class max_token st
    \<Longrightarrow> nft_burn owner token st = Inr st'
    \<Longrightarrow> nft_reachable max_class max_token st'"

lemma nft_reachable_imp_wf: "nft_reachable max_class max_token st \<Longrightarrow> nft_wf st"
  by (induction rule: nft_reachable.induct)
    (auto intro: nft_wf_empty nft_wf_create_class nft_wf_mint nft_wf_transfer nft_wf_burn
      simp: nft_owner_of_def)

section \<open>Genesis\<close>

definition genesis_id :: "genesis_token \<Rightarrow> domain_hash" where
  "genesis_id t = snd (snd (snd t))"

lemma nft_genesis_tokens_wf:
  assumes "nft_genesis_tokens max_token cid ts st = Some st'" "nft_wf st"
    "distinct (map genesis_id ts)" "\<forall>t\<in>set ts. nft_owner_of st (cid, genesis_id t) = None"
  shows "nft_wf st'"
  using assms
proof (induction max_token cid ts st rule: nft_genesis_tokens.induct)
  case (2 max_token cid account metadata data token_id ts st)
  then obtain st1 where st1: "nft_mint max_token account (cid, token_id) metadata data st = Inr st1"
    "nft_genesis_tokens max_token cid ts st1 = Some st'"
    by (auto split: sum.splits)
  have "nft_wf st1"
    using nft_wf_mint [OF 2(3) _ st1(1)] 2(5) by (simp add: genesis_id_def)
  moreover have "\<forall>t\<in>set ts. nft_owner_of st1 (cid, genesis_id t) = None"
    using 2(4,5) nft_owner_of_mint [OF st1(1)] by (auto simp: genesis_id_def image_iff)
  ultimately show ?case
    using 2(1,4) st1 by auto
qed simp

lemma nft_fresh_class:
  assumes "nft_wf st" "nft_create_class max_class owner metadata st = Inr (cid, st')"
  shows "nft_owner_of st' (cid, t) = None"
proof -
  have "cid = next_class_id st" "tokens st' = tokens st"
    using assms(2) by (auto simp: nft_create_class_iff)
  moreover have "class_count_ok st (next_class_id st)" "classes st (next_class_id st) = None"
    using assms(1) by (auto simp: nft_wf_def nft_count_ok_def)
  ultimately show ?thesis
    by (auto simp: nft_owner_of_def class_count_ok_def class_tokens_def)
qed

lemma nft_genesis_build_wf:
  assumes "nft_genesis_build max_class max_token cs st = Some st'" "nft_wf st"
    "\<forall>c\<in>set cs. distinct (map genesis_id (snd (snd c)))"
  shows "nft_wf st'"
  using assms
proof (induction max_class max_token cs st rule: nft_genesis_build.induct)
  case (2 max_class max_token owner metadata ts cs st)
  then obtain cid st1 st2 where st: "nft_create_class max_class owner metadata st = Inr (cid, st1)"
    "nft_genesis_tokens max_token cid ts st1 = Some st2"
    "nft_genesis_build max_class max_token cs st2 = Some st'"
    by (auto split: sum.splits option.splits prod.splits)
  have "nft_wf st2"
    using nft_genesis_tokens_wf [OF st(2) nft_wf_create_class [OF 2(3) st(1)]]
      nft_fresh_class [OF 2(3) st(1)] 2(4) by simp
  with 2(1,4) st show ?case by auto
qed simp

end
