(* ===== verification/Resolvers.thy ===== *)
theory Resolvers
  imports Runtime_State
begin

text \<open>
  The resolver pallet, src/pallets/pns-resolvers/src/resolvers.rs: text and DNS records by
  domain hash.  SS58 and ORIGIN are written by the chain only (\<open>set_ss58_record\<close>,
  \<open>set_origin_record\<close>); every other kind by \<open>set_record\<close>.  Both storage maps are
  \<open>ValueQuery\<close>, so a missing entry reads as the empty content.

  The \<open>RegistryChecker\<close> trait is the argument \<open>useable\<close> of the two calls; the theory
  Registrar holds the checker of the runtime.  The last section is the interface by which
  the registry, the registrar and the marketplace write records (\<open>PnsSs58Updater\<close>,
  \<open>PnsOriginRecorder\<close>, \<open>PnsRecordCleaner\<close> of src/runtime/src/configs/mod.rs) and its
  contract, the locale \<open>record_keeper\<close>.
\<close>

section \<open>Storage operations\<close>

definition get_record :: "resolvers_storage \<Rightarrow> domain_hash \<Rightarrow> record_type \<Rightarrow> u8 list" where
  "get_record st node rt = (case dm_get (records st) node rt of None \<Rightarrow> [] | Some v \<Rightarrow> v)"

definition get_text :: "resolvers_storage \<Rightarrow> domain_hash \<Rightarrow> text_kind \<Rightarrow> u8 list" where
  "get_text st node k = (case dm_get (texts st) node k of None \<Rightarrow> [] | Some v \<Rightarrow> v)"

definition set_ss58_record ::
  "nat \<Rightarrow> domain_hash \<Rightarrow> account_id \<Rightarrow> resolvers_storage \<Rightarrow> resolvers_storage result" where
  "set_ss58_record max_content node owner st =
     (let bytes = h256_encode owner in
      and_then (ensure (length bytes \<le> max_content) (ResolversError Resolvers_InvalidPermission)) (\<lambda>_.
        Inr (st\<lparr>records := dm_insert node RT_SS58 bytes (records st)\<rparr>)))"

definition set_origin_record ::
  "nat \<Rightarrow> domain_hash \<Rightarrow> h256 \<Rightarrow> resolvers_storage \<Rightarrow> resolvers_storage result" where
  "set_origin_record max_content node block_hash st =
     (let bytes = h256_encode block_hash in
      and_then (ensure (length bytes \<le> max_content) (ResolversError Resolvers_InvalidPermission)) (\<lambda>_.
        Inr (st\<lparr>records := dm_insert node RT_ORIGIN bytes (records st)\<rparr>)))"

definition clear_records_except_ss58 :: "domain_hash \<Rightarrow> resolvers_storage \<Rightarrow> resolvers_storage" where
  "clear_records_except_ss58 node st =
     (let to_remove = filter (\<lambda>rt. rt \<noteq> RT_SS58) (dm_iter (records st) node)
      in foldl (\<lambda>st rt. st\<lparr>records := dm_remove node rt (records st)\<rparr>) st to_remove)"

definition clear_all_records :: "domain_hash \<Rightarrow> resolvers_storage \<Rightarrow> resolvers_storage" where
  "clear_all_records node st =
     st\<lparr>records := dm_clear node (records st), texts := dm_clear node (texts st)\<rparr>"

section \<open>Lookup\<close>

definition lookup_blocked :: "record_type list" where
  "lookup_blocked =
     [RT_SS58, RT_ORIGIN, RT_ANY, RT_AXFR, RT_IXFR, RT_OPT, RT_TSIG, RT_SIG, RT_RRSIG,
      RT_NSEC, RT_NSEC3, RT_NSEC3PARAM, RT_DNSKEY, RT_CDNSKEY, RT_CDS, RT_DS]"

fun lookup_loop ::
  "resolvers_storage \<Rightarrow> domain_hash \<Rightarrow> record_type list \<Rightarrow> (record_type \<times> u8 list) list
    \<Rightarrow> (record_type \<times> u8 list) list" where
  "lookup_loop st node [] results = results"
| "lookup_loop st node (rt # rts) results =
     (if rt \<in> set lookup_blocked then lookup_loop st node rts results
      else let content = get_record st node rt in
        if content \<noteq> [] then lookup_loop st node rts (results @ [(rt, content)])
        else lookup_loop st node rts results)"

definition lookup ::
  "resolvers_storage \<Rightarrow> domain_hash \<Rightarrow> record_type list \<Rightarrow> (record_type \<times> u8 list) list" where
  "lookup st node record_types =
     (let ss58 = get_record st node RT_SS58;
          results = (if ss58 \<noteq> [] then [(RT_SS58, ss58)] else []);
          org = get_record st node RT_ORIGIN;
          results = (if org \<noteq> [] then results @ [(RT_ORIGIN, org)] else results)
      in lookup_loop st node record_types results)"

section \<open>Calls\<close>

definition resolvers_name_to_node ::
  "('b, 'src) config \<Rightarrow> u8 list \<Rightarrow> domain_hash result" where
  "resolvers_name_to_node c name =
     ok_or (parse_name_to_node (cfg_keccak c) name (cfg_base_node c))
       (ResolversError Resolvers_InvalidName)"

definition set_record ::
  "('b, 'src) config \<Rightarrow> (domain_hash \<Rightarrow> account_id \<Rightarrow> 'b runtime \<Rightarrow> bool) \<Rightarrow> origin \<Rightarrow> u8 list
    \<Rightarrow> record_type \<Rightarrow> u8 list \<Rightarrow> 'b runtime \<Rightarrow> 'b runtime result" where
  "set_record c useable org name rt content s =
     and_then (ensure_signed org) (\<lambda>who.
     and_then (ensure (rt \<noteq> RT_SS58 \<and> rt \<noteq> RT_ORIGIN)
       (ResolversError Resolvers_Ss58RecordProtected)) (\<lambda>_.
     and_then (resolvers_name_to_node c name) (\<lambda>node.
     and_then (ensure (useable node who s) (ResolversError Resolvers_InvalidPermission)) (\<lambda>_.
       let st = rt_resolvers s in
       Inr (deposit_event (Resolvers_RecordsChanged node rt content)
              (s\<lparr>rt_resolvers := st\<lparr>records := dm_insert node rt content (records st)\<rparr>\<rparr>))))))"

definition set_text ::
  "('b, 'src) config \<Rightarrow> (domain_hash \<Rightarrow> account_id \<Rightarrow> 'b runtime \<Rightarrow> bool) \<Rightarrow> origin \<Rightarrow> u8 list
    \<Rightarrow> text_kind \<Rightarrow> u8 list \<Rightarrow> 'b runtime \<Rightarrow> 'b runtime result" where
  "set_text c useable org name kind content s =
     and_then (ensure_signed org) (\<lambda>who.
     and_then (resolvers_name_to_node c name) (\<lambda>node.
     and_then (ensure (useable node who s) (ResolversError Resolvers_InvalidPermission)) (\<lambda>_.
       let st = rt_resolvers s in
       Inr (deposit_event (Resolvers_TextsChanged node kind content)
              (s\<lparr>rt_resolvers := st\<lparr>texts := dm_insert node kind content (texts st)\<rparr>\<rparr>)))))"

definition resolvers_genesis_build ::
  "(domain_hash \<times> text_kind \<times> u8 list) list \<Rightarrow> resolvers_storage" where
  "resolvers_genesis_build entries =
     foldl (\<lambda>st (node, kind, content). st\<lparr>texts := dm_insert node kind content (texts st)\<rparr>)
       \<lparr>texts = (\<lambda>_. []), records = (\<lambda>_. [])\<rparr> entries"

section \<open>The runtime's record interface\<close>

definition update_ss58 ::
  "('b, 'src) config \<Rightarrow> domain_hash \<Rightarrow> account_id \<Rightarrow> 'b runtime \<Rightarrow> 'b runtime result" where
  "update_ss58 c node owner s =
     and_then (set_ss58_record (cfg_max_content_len c) node owner (rt_resolvers s)) (\<lambda>st.
       Inr (s\<lparr>rt_resolvers := st\<rparr>))"

definition record_origin ::
  "('b, 'src) config \<Rightarrow> domain_hash \<Rightarrow> h256 \<Rightarrow> 'b runtime \<Rightarrow> 'b runtime result" where
  "record_origin c node block_hash s =
     and_then (set_origin_record (cfg_max_content_len c) node block_hash (rt_resolvers s)) (\<lambda>st.
       Inr (s\<lparr>rt_resolvers := st\<rparr>))"

definition cleaner_except_ss58 :: "domain_hash \<Rightarrow> 'b runtime \<Rightarrow> 'b runtime" where
  "cleaner_except_ss58 node s =
     s\<lparr>rt_resolvers := clear_records_except_ss58 node (rt_resolvers s)\<rparr>"

definition cleaner_all :: "domain_hash \<Rightarrow> 'b runtime \<Rightarrow> 'b runtime" where
  "cleaner_all node s = s\<lparr>rt_resolvers := clear_all_records node (rt_resolvers s)\<rparr>"

section \<open>What the operations write\<close>

lemma get_record_simps [simp]:
  "get_record (st\<lparr>records := dm_insert n rt v (records st)\<rparr>) n' rt' =
     (if n' = n \<and> rt' = rt then v else get_record st n' rt')"
  "get_record (st\<lparr>records := dm_remove n rt (records st)\<rparr>) n' rt' =
     (if n' = n \<and> rt' = rt then [] else get_record st n' rt')"
  "get_record (st\<lparr>texts := t\<rparr>) n' rt' = get_record st n' rt'"
  by (auto simp: get_record_def dm_simps)

lemma get_text_simps [simp]:
  "get_text (st\<lparr>texts := dm_insert n k v (texts st)\<rparr>) n' k' =
     (if n' = n \<and> k' = k then v else get_text st n' k')"
  "get_text (st\<lparr>records := r\<rparr>) n' k' = get_text st n' k'"
  by (auto simp: get_text_def dm_simps)

lemma get_record_foldl_remove:
  "get_record (foldl (\<lambda>st rt. st\<lparr>records := dm_remove node rt (records st)\<rparr>) st rts) n rt =
     (if n = node \<and> rt \<in> set rts then [] else get_record st n rt)"
  by (induction rts arbitrary: st) auto

lemma get_text_foldl_remove:
  "get_text (foldl (\<lambda>st rt. st\<lparr>records := dm_remove node rt (records st)\<rparr>) st rts) n k =
     get_text st n k"
  by (induction rts arbitrary: st) auto

lemma get_record_not_iter:
  "rt \<notin> set (dm_iter (records st) node) \<Longrightarrow> get_record st node rt = []"
  by (auto simp: get_record_def set_dm_iter dm_contains_def split: option.splits)

lemma get_record_clear_except:
  "get_record (clear_records_except_ss58 node st) n rt =
     (if n = node \<and> rt \<noteq> RT_SS58 then [] else get_record st n rt)"
  using get_record_not_iter [of rt st node]
  by (auto simp: clear_records_except_ss58_def get_record_foldl_remove Let_def)

lemma get_text_clear_except [simp]:
  "get_text (clear_records_except_ss58 node st) n k = get_text st n k"
  by (simp add: clear_records_except_ss58_def get_text_foldl_remove Let_def)

lemma get_record_clear_all:
  "get_record (clear_all_records node st) n rt = (if n = node then [] else get_record st n rt)"
  by (simp add: clear_all_records_def get_record_def dm_simps)

lemma get_text_clear_all:
  "get_text (clear_all_records node st) n k = (if n = node then [] else get_text st n k)"
  by (simp add: clear_all_records_def get_text_def dm_simps)

lemma set_ss58_record_iff:
  "set_ss58_record m node owner st = Inr st' \<longleftrightarrow>
     32 \<le> m \<and> st' = st\<lparr>records := dm_insert node RT_SS58 (h256_encode owner) (records st)\<rparr>"
  by (auto simp: set_ss58_record_def result_simps Let_def length_h256_encode)

lemma set_origin_record_iff:
  "set_origin_record m node h st = Inr st' \<longleftrightarrow>
     32 \<le> m \<and> st' = st\<lparr>records := dm_insert node RT_ORIGIN (h256_encode h) (records st)\<rparr>"
  by (auto simp: set_origin_record_def result_simps Let_def length_h256_encode)

lemma update_ss58_iff:
  "update_ss58 c node owner s = Inr s' \<longleftrightarrow> 32 \<le> cfg_max_content_len c
     \<and> s' = s\<lparr>rt_resolvers := (rt_resolvers s)\<lparr>records :=
           dm_insert node RT_SS58 (h256_encode owner) (records (rt_resolvers s))\<rparr>\<rparr>"
  by (auto simp: update_ss58_def result_simps set_ss58_record_iff)

lemma record_origin_iff:
  "record_origin c node h s = Inr s' \<longleftrightarrow> 32 \<le> cfg_max_content_len c
     \<and> s' = s\<lparr>rt_resolvers := (rt_resolvers s)\<lparr>records :=
           dm_insert node RT_ORIGIN (h256_encode h) (records (rt_resolvers s))\<rparr>\<rparr>"
  by (auto simp: record_origin_def result_simps set_origin_record_iff)

section \<open>Lookup returns the stored records it may return\<close>

lemma lookup_loop_eq:
  "lookup_loop st node rts results =
     results @ map (\<lambda>rt. (rt, get_record st node rt))
       (filter (\<lambda>rt. rt \<notin> set lookup_blocked \<and> get_record st node rt \<noteq> []) rts)"
  by (induction st node rts results rule: lookup_loop.induct) (simp_all add: Let_def)

lemma lookup_eq:
  "lookup st node rts =
     map (\<lambda>rt. (rt, get_record st node rt))
       (filter (\<lambda>rt. get_record st node rt \<noteq> [])
         (RT_SS58 # RT_ORIGIN # filter (\<lambda>rt. rt \<notin> set lookup_blocked) rts))"
  by (simp add: lookup_def lookup_loop_eq Let_def conj_commute)

text \<open>
  A lookup returns exactly the stored, non-empty records of the node among the two trust
  anchors, which it always returns, and the requested kinds that are not blocked.
\<close>

lemma in_lookup:
  "(rt, v) \<in> set (lookup st node rts) \<longleftrightarrow>
     v = get_record st node rt \<and> v \<noteq> []
     \<and> (rt = RT_SS58 \<or> rt = RT_ORIGIN \<or> rt \<in> set rts \<and> rt \<notin> set lookup_blocked)"
  by (auto simp: lookup_eq)

section \<open>The contract of the record keeper\<close>

text \<open>
  \<open>rd\<close> reads a record and \<open>tx\<close> a text; the writers touch one entry of one node, the
  cleaners one node.
\<close>

locale record_keeper =
  fixes rd :: "'s \<Rightarrow> domain_hash \<Rightarrow> record_type \<Rightarrow> u8 list"
    and tx :: "'s \<Rightarrow> domain_hash \<Rightarrow> text_kind \<Rightarrow> u8 list"
    and put_owner :: "domain_hash \<Rightarrow> account_id \<Rightarrow> 's \<Rightarrow> dispatch_error + 's"
    and put_origin :: "domain_hash \<Rightarrow> h256 \<Rightarrow> 's \<Rightarrow> dispatch_error + 's"
    and clean_except :: "domain_hash \<Rightarrow> 's \<Rightarrow> 's"
    and clean_all :: "domain_hash \<Rightarrow> 's \<Rightarrow> 's"
  assumes put_owner: "put_owner n a s = Inr s' \<Longrightarrow>
      rd s' m rt = (if m = n \<and> rt = RT_SS58 then h256_encode a else rd s m rt) \<and> tx s' = tx s"
    and put_origin: "put_origin n h s = Inr s' \<Longrightarrow>
      rd s' m rt = (if m = n \<and> rt = RT_ORIGIN then h256_encode h else rd s m rt) \<and> tx s' = tx s"
    and clean_except: "rd (clean_except n s) m rt =
        (if m = n \<and> rt \<noteq> RT_SS58 then [] else rd s m rt)"
    and clean_except_tx: "tx (clean_except n s) = tx s"
    and clean_all: "rd (clean_all n s) m rt = (if m = n then [] else rd s m rt)"
    and clean_all_tx: "tx (clean_all n s) m k = (if m = n then [] else tx s m k)"
begin

text \<open>
  A hand-over: clear, write the new owner, write the origin.  Exactly the two trust anchors
  remain at the node, and nothing of another node moves.
\<close>

lemma handover:
  assumes "put_owner n a (clean_except n s) = Inr s1" "put_origin n h s1 = Inr s2"
  shows "rd s2 m rt = (if m \<noteq> n then rd s m rt else if rt = RT_SS58 then h256_encode a
      else if rt = RT_ORIGIN then h256_encode h else [])"
    and "tx s2 = tx s"
  using put_owner [OF assms(1)] put_origin [OF assms(2)]
  by (auto simp: clean_except clean_except_tx)

lemma wiped_then_owned:
  assumes "put_owner n a (clean_all n s) = Inr s1" "put_origin n h s1 = Inr s2"
  shows "rd s2 m rt = (if m \<noteq> n then rd s m rt else if rt = RT_SS58 then h256_encode a
      else if rt = RT_ORIGIN then h256_encode h else [])"
    and "tx s2 m k = (if m = n then [] else tx s m k)"
  using put_owner [OF assms(1)] put_origin [OF assms(2)]
  by (auto simp: clean_all clean_all_tx)

end

interpretation keeper: record_keeper
  "\<lambda>s. get_record (rt_resolvers s)" "\<lambda>s. get_text (rt_resolvers s)"
  "update_ss58 c" "record_origin c" cleaner_except_ss58 cleaner_all for c :: "('b, 'src) config"
  by unfold_locales
    (auto simp: update_ss58_iff record_origin_iff cleaner_except_ss58_def cleaner_all_def
      get_record_clear_except get_record_clear_all get_text_clear_all fun_eq_iff)

end
