(* ===== verification/Expiry.thy ===== *)
theory Expiry
  imports Runtime_State
begin

text \<open>
  The registrar as the registry sees it: the part of the \<open>Registrar\<close> trait
  (src/pallets/pns-registrar/src/traits.rs) implemented in
  src/pallets/pns-registrar/src/registrar.rs, lines 847 to 1000, that the registry calls.
  A name is useable until it expires, renewable through the grace period after that, and
  registrable by anyone afterwards.  The moment is a 64-bit number of milliseconds and
  \<open>expire + grace\<close> is a plain addition, so it wraps.
\<close>

section \<open>Operations\<close>

definition get_info :: "domain_hash \<Rightarrow> 'b runtime \<Rightarrow> registrar_info option" where
  "get_info node s = im_get (registrar_infos (rt_registrar s)) node"

definition check_expires_registrable ::
  "('b, 'src) config \<Rightarrow> domain_hash \<Rightarrow> 'b runtime \<Rightarrow> unit result" where
  "check_expires_registrable c node s =
     and_then (ok_or (get_info node s) (RegistrarError Registrar_NotExistOrOccupied)) (\<lambda>info.
       ensure (rt_now s > ri_expire info + cfg_grace_period c) (RegistrarError Registrar_Occupied))"

definition check_expires_renewable ::
  "('b, 'src) config \<Rightarrow> domain_hash \<Rightarrow> 'b runtime \<Rightarrow> unit result" where
  "check_expires_renewable c node s =
     and_then (ok_or (get_info node s) (RegistrarError Registrar_NotExistOrOccupied)) (\<lambda>info.
       ensure (rt_now s < ri_expire info + cfg_grace_period c) (RegistrarError Registrar_NotRenewable))"

definition check_expires_useable :: "domain_hash \<Rightarrow> 'b runtime \<Rightarrow> unit result" where
  "check_expires_useable node s =
     and_then (ok_or (get_info node s) (RegistrarError Registrar_NotExistOrOccupied)) (\<lambda>info.
       ensure (rt_now s < ri_expire info) (RegistrarError Registrar_NotUseable))"

definition clear_registrar_info :: "domain_hash \<Rightarrow> 'b runtime \<Rightarrow> 'b runtime" where
  "clear_registrar_info node s =
     upd_registrar (\<lambda>r. r\<lparr>registrar_infos := im_remove node (registrar_infos r)\<rparr>) s"

text \<open>The test \<open>still_valid\<close> that the registrar repeats before it gives an account a name.\<close>

definition still_valid :: "('b, 'src) config \<Rightarrow> domain_hash \<Rightarrow> 'b runtime \<Rightarrow> bool" where
  "still_valid c node s = (case get_info node s of
     None \<Rightarrow> False
   | Some info \<Rightarrow> rt_now s \<le> ri_expire info + cfg_grace_period c)"

definition has_valid_canonical_name ::
  "('b, 'src) config \<Rightarrow> account_id \<Rightarrow> 'b runtime \<Rightarrow> bool" where
  "has_valid_canonical_name c account s =
     (case owner_to_primary_name (rt_registrar s) account of
        None \<Rightarrow> False
      | Some node \<Rightarrow> still_valid c node s)"

section \<open>Facts\<close>

lemma check_expires_registrable_iff [result_simps]:
  "check_expires_registrable c node s = Inr u \<longleftrightarrow>
     (\<exists>info. get_info node s = Some info \<and> ri_expire info + cfg_grace_period c < rt_now s)"
  by (auto simp: check_expires_registrable_def result_simps)

lemma check_expires_renewable_iff [result_simps]:
  "check_expires_renewable c node s = Inr u \<longleftrightarrow>
     (\<exists>info. get_info node s = Some info \<and> rt_now s < ri_expire info + cfg_grace_period c)"
  by (auto simp: check_expires_renewable_def result_simps)

lemma check_expires_useable_iff [result_simps]:
  "check_expires_useable node s = Inr u \<longleftrightarrow>
     (\<exists>info. get_info node s = Some info \<and> rt_now s < ri_expire info)"
  by (auto simp: check_expires_useable_def result_simps)

lemma still_valid_iff:
  "still_valid c node s \<longleftrightarrow>
     (\<exists>info. get_info node s = Some info \<and> rt_now s \<le> ri_expire info + cfg_grace_period c)"
  by (auto simp: still_valid_def split: option.splits)

lemma get_info_cong:
  "registrar_infos (rt_registrar s') = registrar_infos (rt_registrar s) \<Longrightarrow> get_info node s' = get_info node s"
  by (simp add: get_info_def)

lemma get_info_clear [simp]:
  "get_info node (clear_registrar_info n s) = (if node = n then None else get_info node s)"
  by (simp add: get_info_def clear_registrar_info_def)

text \<open>
  A registered name is in exactly one of three phases, except at the one instant
  \<open>now = expire + grace\<close>, which is neither registrable nor (for this check) renewable.
\<close>

lemma expiry_phases:
  assumes "get_info node s = Some info"
  shows "is_ok (check_expires_registrable c node s) \<longleftrightarrow> ri_expire info + cfg_grace_period c < rt_now s"
    and "is_ok (check_expires_renewable c node s) \<longleftrightarrow> rt_now s < ri_expire info + cfg_grace_period c"
    and "is_ok (check_expires_useable node s) \<longleftrightarrow> rt_now s < ri_expire info"
  using assms by (auto simp: is_ok_iff result_simps)

end
