(* ===== verification/Registry.thy ===== *)
theory Registry
  imports Nft Resolvers Expiry
begin

text \<open>
  The registry pallet, src/pallets/pns-registrar/src/registry.rs: the tree of names over the
  token pallet.  Class 0 holds one token per registered name; \<open>runtime_origin\<close> says whether
  a node is a top-level name or a subname of one; \<open>sub_names\<close> lists a name's subnames;
  \<open>subname_records\<close> is the state of each delegation; the token's \<open>children\<close> counts
  them.

  The closure \<open>do_payments\<close> of \<open>mint_subname\<close> is a state transformer argument.  The loop
  of \<open>clear_subnames\<close> is a fold over the children in storage order.
\<close>

section \<open>Permissions\<close>

definition registry_name_to_node :: "('b, 'src) config \<Rightarrow> u8 list \<Rightarrow> domain_hash result" where
  "registry_name_to_node c name =
     ok_or (parse_name_to_node (cfg_keccak c) name (cfg_base_node c))
       (RegistryError Registry_InvalidName)"

definition verify_with_owner :: "account_id \<Rightarrow> account_id \<Rightarrow> unit result" where
  "verify_with_owner caller owner = ensure (caller = owner) (RegistryError Registry_NoPermission)"

definition name_token :: "domain_hash \<Rightarrow> 'b runtime \<Rightarrow> token_info option" where
  "name_token node s = tokens (rt_nft s) (0, node)"

definition verify :: "account_id \<Rightarrow> domain_hash \<Rightarrow> 'b runtime \<Rightarrow> unit result" where
  "verify caller node s =
     and_then (ok_or (name_token node s) (RegistryError Registry_NotExist)) (\<lambda>info.
       verify_with_owner caller (ti_owner info))"

section \<open>The children counter\<close>

definition put_children :: "domain_hash \<Rightarrow> token_info \<Rightarrow> u32 \<Rightarrow> 'b runtime \<Rightarrow> 'b runtime" where
  "put_children node info n s =
     upd_nft (\<lambda>st. st\<lparr>tokens := (tokens st)
       ((0, node) \<mapsto> info\<lparr>ti_data := (ti_data info)\<lparr>td_children := n\<rparr>\<rparr>)\<rparr>) s"

definition add_children :: "domain_hash \<Rightarrow> 'b runtime \<Rightarrow> 'b runtime result" where
  "add_children node s =
     and_then (ok_or (name_token node s) (RegistryError Registry_NotExist)) (\<lambda>info.
       Inr (put_children node info (td_children (ti_data info) + 1) s))"

definition add_children_with_check ::
  "domain_hash \<Rightarrow> u32 \<Rightarrow> 'b runtime \<Rightarrow> 'b runtime result" where
  "add_children_with_check node capacity s =
     and_then (ok_or (name_token node s) (RegistryError Registry_NotExist)) (\<lambda>info.
     and_then (ensure (td_children (ti_data info) < capacity)
       (RegistryError Registry_CapacityNotEnough)) (\<lambda>_.
       Inr (put_children node info (td_children (ti_data info) + 1) s)))"

definition sub_children :: "domain_hash \<Rightarrow> 'b runtime \<Rightarrow> 'b runtime result" where
  "sub_children node s =
     and_then (ok_or (name_token node s) (RegistryError Registry_NotExist)) (\<lambda>info.
     and_then (ok_or (checked_sub (td_children (ti_data info)) 1) ArithmeticOverflow) (\<lambda>n.
       Inr (put_children node info n s)))"

section \<open>Single writes of the registry's maps\<close>

definition origin_insert :: "domain_hash \<Rightarrow> domain_tracing \<Rightarrow> 'b runtime \<Rightarrow> 'b runtime" where
  "origin_insert node tr = upd_registry (\<lambda>r. r\<lparr>runtime_origin := (runtime_origin r)(node \<mapsto> tr)\<rparr>)"

definition origin_remove :: "domain_hash \<Rightarrow> 'b runtime \<Rightarrow> 'b runtime" where
  "origin_remove node = upd_registry (\<lambda>r. r\<lparr>runtime_origin := (runtime_origin r)(node := None)\<rparr>)"

definition sub_names_insert :: "domain_hash \<Rightarrow> domain_hash \<Rightarrow> 'b runtime \<Rightarrow> 'b runtime" where
  "sub_names_insert node child =
     upd_registry (\<lambda>r. r\<lparr>sub_names := dm_insert node child () (sub_names r)\<rparr>)"

definition sub_names_remove :: "domain_hash \<Rightarrow> domain_hash \<Rightarrow> 'b runtime \<Rightarrow> 'b runtime" where
  "sub_names_remove node child =
     upd_registry (\<lambda>r. r\<lparr>sub_names := dm_remove node child (sub_names r)\<rparr>)"

definition sub_names_clear :: "domain_hash \<Rightarrow> 'b runtime \<Rightarrow> 'b runtime" where
  "sub_names_clear node = upd_registry (\<lambda>r. r\<lparr>sub_names := dm_clear node (sub_names r)\<rparr>)"

definition held_insert :: "account_id \<Rightarrow> domain_hash \<Rightarrow> 'b runtime \<Rightarrow> 'b runtime" where
  "held_insert who node =
     upd_registry (\<lambda>r. r\<lparr>account_to_subnames := dm_insert who node () (account_to_subnames r)\<rparr>)"

definition held_remove :: "account_id \<Rightarrow> domain_hash \<Rightarrow> 'b runtime \<Rightarrow> 'b runtime" where
  "held_remove who node =
     upd_registry (\<lambda>r. r\<lparr>account_to_subnames := dm_remove who node (account_to_subnames r)\<rparr>)"

definition offer_insert :: "account_id \<Rightarrow> domain_hash \<Rightarrow> 'b runtime \<Rightarrow> 'b runtime" where
  "offer_insert who node =
     upd_registry (\<lambda>r. r\<lparr>offered_to_account := dm_insert who node () (offered_to_account r)\<rparr>)"

definition offer_remove :: "account_id \<Rightarrow> domain_hash \<Rightarrow> 'b runtime \<Rightarrow> 'b runtime" where
  "offer_remove who node =
     upd_registry (\<lambda>r. r\<lparr>offered_to_account := dm_remove who node (offered_to_account r)\<rparr>)"

definition record_insert :: "domain_hash \<Rightarrow> subname_record \<Rightarrow> 'b runtime \<Rightarrow> 'b runtime" where
  "record_insert node rec =
     upd_registry (\<lambda>r. r\<lparr>subname_records := (subname_records r)(node \<mapsto> rec)\<rparr>)"

definition record_remove :: "domain_hash \<Rightarrow> 'b runtime \<Rightarrow> 'b runtime" where
  "record_remove node =
     upd_registry (\<lambda>r. r\<lparr>subname_records := (subname_records r)(node := None)\<rparr>)"

lemmas registry_writes = origin_insert_def origin_remove_def sub_names_insert_def
  sub_names_remove_def sub_names_clear_def held_insert_def held_remove_def offer_insert_def
  offer_remove_def record_insert_def record_remove_def

section \<open>Clearing a name's subnames\<close>

definition clear_delegation :: "domain_hash \<Rightarrow> 'b runtime \<Rightarrow> 'b runtime" where
  "clear_delegation child s =
     (case subname_records (rt_registry s) child of
        None \<Rightarrow> s
      | Some rec \<Rightarrow>
          let s = record_remove child s in
          (case sr_state rec of
             Active \<Rightarrow> held_remove (sr_target rec) child s
           | _ \<Rightarrow> offer_remove (sr_target rec) child s))"

definition clear_legacy_token :: "domain_hash \<Rightarrow> 'b runtime \<Rightarrow> 'b runtime" where
  "clear_legacy_token child s =
     (case name_token child s of
        None \<Rightarrow> s
      | Some info \<Rightarrow>
          let s = held_remove (ti_owner info) child s in
          (case nft_burn (ti_owner info) (0, child) (rt_nft s) of
             Inl _ \<Rightarrow> s
           | Inr st \<Rightarrow> upd_nft (\<lambda>_. st) s))"

definition clear_child :: "domain_hash \<Rightarrow> 'b runtime \<Rightarrow> 'b runtime" where
  "clear_child child s =
     clear_legacy_token child (clear_delegation child (origin_remove child (cleaner_all child s)))"

definition reset_children :: "domain_hash \<Rightarrow> 'b runtime \<Rightarrow> 'b runtime" where
  "reset_children node s =
     (case name_token node s of None \<Rightarrow> s | Some info \<Rightarrow> put_children node info 0 s)"

definition clear_subnames :: "domain_hash \<Rightarrow> 'b runtime \<Rightarrow> 'b runtime" where
  "clear_subnames root_node s =
     (let children = dm_iter (sub_names (rt_registry s)) root_node;
          s = foldl (\<lambda>s child. clear_child child s) s children
      in reset_children root_node (sub_names_clear root_node s))"

section \<open>Burning and transferring a node\<close>

definition lift_nft :: "(nft_storage \<Rightarrow> nft_storage result) \<Rightarrow> 'b runtime \<Rightarrow> 'b runtime result" where
  "lift_nft f s = and_then (f (rt_nft s)) (\<lambda>st. Inr (upd_nft (\<lambda>_. st) s))"

definition do_burn :: "account_id \<Rightarrow> domain_hash \<Rightarrow> 'b runtime \<Rightarrow> 'b runtime result" where
  "do_burn caller token s =
     and_then (ok_or (name_token token s) (RegistryError Registry_NotExist)) (\<lambda>token_info.
     let token_owner = ti_owner token_info in
     and_then (verify_with_owner caller token_owner) (\<lambda>_.
     and_then (ok_or (runtime_origin (rt_registry s) token)
       (RegistryError Registry_BanBurnBaseNode)) (\<lambda>tr.
     and_then (case tr of
         RuntimeOrigin root \<Rightarrow>
           and_then (ensure (td_children (ti_data token_info) = 0)
             (RegistryError Registry_SubnodeNotClear)) (\<lambda>_.
           and_then (sub_children root s) (\<lambda>s.
             Inr (held_remove token_owner token (sub_names_remove root token s))))
       | Root \<Rightarrow>
           Inr (held_remove token_owner token (clear_registrar_info token (clear_subnames token s))))
       (\<lambda>s.
     and_then (lift_nft (nft_burn token_owner (0, token)) (cleaner_all token (origin_remove token s)))
       (\<lambda>s.
       Inr (deposit_event (Registry_TokenBurned 0 token token token_owner caller) s))))))"

definition do_transfer ::
  "('b, 'src) config \<Rightarrow> account_id \<Rightarrow> account_id \<Rightarrow> domain_hash \<Rightarrow> 'b runtime \<Rightarrow> 'b runtime result"
  where
  "do_transfer c sender receiver token s =
     and_then (ok_or (name_token token s) (RegistryError Registry_NotExist)) (\<lambda>token_info.
     let owner = ti_owner token_info in
     and_then (verify_with_owner sender owner) (\<lambda>_.
     and_then (ok_or (runtime_origin (rt_registry s) token) (RegistryError Registry_NotExist)) (\<lambda>tr.
     and_then (case tr of
         RuntimeOrigin root \<Rightarrow>
           and_then (check_expires_renewable c root s) (\<lambda>_.
           and_then (case name_token root s of
               None \<Rightarrow> Inr ()
             | Some root_info \<Rightarrow> ensure (receiver \<noteq> ti_owner root_info)
                 (RegistryError Registry_CannotOwnSubnameUnderOwnDomain)) (\<lambda>_.
             Inr (held_insert receiver token (held_remove owner token s))))
       | Root \<Rightarrow>
           and_then (check_expires_renewable c token s) (\<lambda>_. Inr (clear_subnames token s))) (\<lambda>s.
     and_then (lift_nft (nft_transfer owner receiver (0, token)) s) (\<lambda>s.
     and_then (update_ss58 c token receiver (cleaner_except_ss58 token s)) (\<lambda>s.
     and_then (record_origin c token (rt_parent_hash s) s) (\<lambda>s.
       Inr (deposit_event (Registry_Transferred owner receiver 0 token) s))))))))"

section \<open>Minting\<close>

definition attach_child ::
  "domain_hash \<Rightarrow> domain_hash \<Rightarrow> u32 \<Rightarrow> 'b runtime \<Rightarrow> 'b runtime result" where
  "attach_child node label_node capacity s =
     (case runtime_origin (rt_registry s) node of
        Some (RuntimeOrigin root) \<Rightarrow>
          and_then (check_expires_useable root s) (\<lambda>_.
          and_then (add_children_with_check root capacity s) (\<lambda>s.
          and_then (add_children node s) (\<lambda>s.
            Inr (sub_names_insert root label_node
                   (origin_insert label_node (RuntimeOrigin root) s)))))
      | Some Root \<Rightarrow>
          and_then (add_children_with_check node capacity s) (\<lambda>s.
            Inr (sub_names_insert node label_node
                   (origin_insert label_node (RuntimeOrigin node) s)))
      | None \<Rightarrow>
          and_then (add_children node s) (\<lambda>s. Inr (origin_insert label_node Root s)))"

definition mint_subname ::
  "('b, 'src) config \<Rightarrow> account_id \<Rightarrow> u8 list \<Rightarrow> domain_hash \<Rightarrow> domain_hash \<Rightarrow> account_id \<Rightarrow> u32
    \<Rightarrow> (account_id option \<Rightarrow> 'b runtime \<Rightarrow> 'b runtime result) \<Rightarrow> 'b runtime \<Rightarrow> 'b runtime result"
  where
  "mint_subname c owner metadata node label_node receiver capacity do_payments s =
     and_then (ok_or (name_token node s) (RegistryError Registry_NotExist)) (\<lambda>node_info.
     and_then (verify_with_owner owner (ti_owner node_info)) (\<lambda>_.
     let root_node = (case runtime_origin (rt_registry s) node of
           Some (RuntimeOrigin root) \<Rightarrow> root
         | _ \<Rightarrow> node) in
     and_then (case name_token root_node s of
         None \<Rightarrow> Inr ()
       | Some root_info \<Rightarrow> ensure (receiver \<noteq> ti_owner root_info)
           (RegistryError Registry_CannotOwnSubnameUnderOwnDomain)) (\<lambda>_.
     and_then (case name_token label_node s of
         Some info \<Rightarrow>
           and_then (check_expires_registrable c label_node s) (\<lambda>_.
           and_then (do_payments (Some (ti_owner info)) s) (\<lambda>s.
           let s = held_remove (ti_owner info) label_node
                     (cleaner_all label_node (clear_subnames label_node s)) in
           and_then (lift_nft (nft_transfer (ti_owner info) receiver (0, label_node)) s) (\<lambda>s.
             Inr (held_insert receiver label_node s))))
       | None \<Rightarrow>
           and_then (do_payments None s) (\<lambda>s.
           and_then (lift_nft (nft_mint (cfg_max_token_metadata c) receiver (0, label_node) metadata
             default_token_data) s) (\<lambda>s.
             attach_child node label_node capacity (held_insert receiver label_node s)))) (\<lambda>s.
       Inr (deposit_event (Registry_TokenMinted 0 label_node node receiver) s)))))"

section \<open>Subname delegation\<close>

definition has_active_subname :: "account_id \<Rightarrow> 'b runtime \<Rightarrow> bool" where
  "has_active_subname account s = (dm_iter (account_to_subnames (rt_registry s)) account \<noteq> [])"

definition offer_subname ::
  "domain_hash \<Rightarrow> domain_hash \<Rightarrow> u8 list \<Rightarrow> account_id \<Rightarrow> u32 \<Rightarrow> 'b runtime \<Rightarrow> 'b runtime result"
  where
  "offer_subname parent label_node lbl_bytes target capacity s =
     and_then (ensure (runtime_origin (rt_registry s) parent = Some Root)
       (RegistryError Registry_SubnameDepthExceeded)) (\<lambda>_.
     and_then (case name_token parent s of
         None \<Rightarrow> Inr ()
       | Some parent_token \<Rightarrow> ensure (target \<noteq> ti_owner parent_token)
           (RegistryError Registry_CannotOwnSubnameUnderOwnDomain)) (\<lambda>_.
     and_then (ensure (subname_records (rt_registry s) label_node = None)
       (RegistryError Registry_SubnameAlreadyExists)) (\<lambda>_.
     and_then (add_children_with_check parent capacity s) (\<lambda>s.
       Inr (sub_names_insert parent label_node
              (offer_insert target label_node
                (record_insert label_node
                  \<lparr>sr_parent = parent, sr_label = lbl_bytes, sr_target = target, sr_state = Offered\<rparr>
                  s)))))))"

definition accept_subname_offer ::
  "('b, 'src) config \<Rightarrow> domain_hash \<Rightarrow> account_id \<Rightarrow> 'b runtime \<Rightarrow> (domain_hash \<times> 'b runtime) result"
  where
  "accept_subname_offer c label_node acceptor s =
     and_then (ensure (\<not> has_valid_canonical_name c acceptor s)
       (RegistryError Registry_TargetAlreadyOwnsName)) (\<lambda>_.
     and_then (ensure (dm_iter (account_to_subnames (rt_registry s)) acceptor = [])
       (RegistryError Registry_TargetAlreadyOwnsName)) (\<lambda>_.
     and_then (ok_or (subname_records (rt_registry s) label_node)
       (RegistryError Registry_SubnameNotFound)) (\<lambda>rec.
     and_then (ensure (sr_state rec = Offered) (RegistryError Registry_SubnameNotOffered)) (\<lambda>_.
     and_then (ensure (sr_target rec = acceptor) (RegistryError Registry_NotSubnameTarget)) (\<lambda>_.
       Inr (sr_parent rec,
            held_insert acceptor label_node
              (offer_remove acceptor label_node
                (record_insert label_node (rec\<lparr>sr_state := Active\<rparr>) s))))))))"

definition reject_subname_offer ::
  "domain_hash \<Rightarrow> account_id \<Rightarrow> 'b runtime \<Rightarrow> 'b runtime result" where
  "reject_subname_offer label_node caller s =
     and_then (ok_or (subname_records (rt_registry s) label_node)
       (RegistryError Registry_SubnameNotFound)) (\<lambda>rec.
     and_then (ensure (sr_state rec = Offered) (RegistryError Registry_SubnameNotOffered)) (\<lambda>_.
     and_then (ensure (sr_target rec = caller) (RegistryError Registry_NotSubnameTarget)) (\<lambda>_.
       Inr (offer_remove caller label_node
              (record_insert label_node (rec\<lparr>sr_state := Rejected\<rparr>) s)))))"

definition revoke_subname :: "domain_hash \<Rightarrow> domain_hash \<Rightarrow> 'b runtime \<Rightarrow> 'b runtime result" where
  "revoke_subname parent label_node s =
     and_then (ok_or (subname_records (rt_registry s) label_node)
       (RegistryError Registry_SubnameNotFound)) (\<lambda>rec.
     and_then (ensure (sr_parent rec = parent) (RegistryError Registry_NotSubnameOfferer)) (\<lambda>_.
     let s = record_remove label_node s;
         s = (case sr_state rec of
                Active \<Rightarrow> cleaner_all label_node (held_remove (sr_target rec) label_node s)
              | _ \<Rightarrow> offer_remove (sr_target rec) label_node s)
     in sub_children parent (sub_names_remove parent label_node s)))"

definition release_subname ::
  "domain_hash \<Rightarrow> account_id \<Rightarrow> 'b runtime \<Rightarrow> (domain_hash \<times> 'b runtime) result" where
  "release_subname label_node caller s =
     and_then (ok_or (subname_records (rt_registry s) label_node)
       (RegistryError Registry_SubnameNotFound)) (\<lambda>rec.
     and_then (ensure (sr_state rec = Active) (RegistryError Registry_SubnameNotActive)) (\<lambda>_.
     and_then (ensure (sr_target rec = caller) (RegistryError Registry_NotSubnameTarget)) (\<lambda>_.
     let s = sub_names_remove (sr_parent rec) label_node
               (held_remove caller label_node (record_remove label_node s)) in
     and_then (sub_children (sr_parent rec) s) (\<lambda>s.
       Inr (sr_parent rec, cleaner_all label_node s)))))"

definition revoke_pending_offer_for_target ::
  "domain_hash \<Rightarrow> account_id \<Rightarrow> 'b runtime \<Rightarrow> 'b runtime result" where
  "revoke_pending_offer_for_target label_node target s =
     and_then (ok_or (subname_records (rt_registry s) label_node)
       (RegistryError Registry_SubnameNotFound)) (\<lambda>rec.
     and_then (ensure (sr_state rec = Offered) (RegistryError Registry_SubnameNotOffered)) (\<lambda>_.
     and_then (ensure (sr_target rec = target) (RegistryError Registry_NotSubnameTarget)) (\<lambda>_.
       revoke_subname (sr_parent rec) label_node s)))"

section \<open>Calls and trait views\<close>

definition registry_burn ::
  "('b, 'src) config \<Rightarrow> origin \<Rightarrow> u8 list \<Rightarrow> 'b runtime \<Rightarrow> 'b runtime result" where
  "registry_burn c org name s =
     and_then (ensure_signed org) (\<lambda>caller.
     and_then (registry_name_to_node c name) (\<lambda>node. do_burn caller node s))"

definition set_class_owner :: "account_id \<Rightarrow> nft_storage \<Rightarrow> nft_storage" where
  "set_class_owner who st = (case classes st 0 of
     None \<Rightarrow> st
   | Some info \<Rightarrow> st\<lparr>classes := (classes st)(0 \<mapsto> info\<lparr>ci_owner := who\<rparr>)\<rparr>)"

definition set_official ::
  "('b, 'src) config \<Rightarrow> origin \<Rightarrow> account_id \<Rightarrow> 'b runtime \<Rightarrow> 'b runtime result" where
  "set_official c org new_official s =
     and_then (cfg_manager_origin c s org) (\<lambda>_.
     let old_official = official (rt_registry s);
         s = upd_registry (\<lambda>r. r\<lparr>official := Some new_official\<rparr>) s in
     and_then (case old_official of
         None \<Rightarrow> Inr s
       | Some old \<Rightarrow> lift_nft (nft_transfer old new_official (0, cfg_base_node c)) s) (\<lambda>s.
       Inr (upd_nft (set_class_owner new_official) s)))"

definition get_official_account :: "'b runtime \<Rightarrow> account_id result" where
  "get_official_account s =
     ok_or (official (rt_registry s)) (RegistryError Registry_OfficialNotInitiated)"

definition owner_of :: "domain_hash \<Rightarrow> 'b runtime \<Rightarrow> account_id option" where
  "owner_of node s = map_option ti_owner (name_token node s)"

definition nft_balance :: "account_id \<Rightarrow> 'b runtime \<Rightarrow> u128" where
  "nft_balance who s = of_nat (length (dm_iter (tokens_by_owner (rt_nft s)) who))"

definition registry_nft_transfer ::
  "('b, 'src) config \<Rightarrow> account_id \<Rightarrow> account_id \<Rightarrow> token_key \<Rightarrow> 'b runtime \<Rightarrow> 'b runtime result"
  where
  "registry_nft_transfer c sender receiver token s =
     and_then (ensure (fst token = 0) (RegistryError Registry_NotExist)) (\<lambda>_.
       do_transfer c sender receiver (snd token) s)"

definition registry_genesis_build ::
  "(domain_hash \<times> domain_tracing) list \<Rightarrow> account_id option \<Rightarrow> registry_storage" where
  "registry_genesis_build nodes off =
     \<lparr>runtime_origin = foldl (\<lambda>m (node, tr). m(node \<mapsto> tr)) Map.empty nodes,
      sub_names = (\<lambda>_. []), account_to_subnames = (\<lambda>_. []), subname_records = Map.empty,
      offered_to_account = (\<lambda>_. []), official = off\<rparr>"

section \<open>What each write changes\<close>

lemma name_token_frame [simp]:
  "name_token n (upd_registry f s) = name_token n s"
  "name_token n (upd_registrar g s) = name_token n s"
  "name_token n (deposit_event e s) = name_token n s"
  "name_token n (s\<lparr>rt_resolvers := r\<rparr>) = name_token n s"
  by (simp_all add: name_token_def)

lemma name_token_put_children [simp]:
  "name_token n (put_children p info k s) =
     (if n = p then Some (info\<lparr>ti_data := (ti_data info)\<lparr>td_children := k\<rparr>\<rparr>) else name_token n s)"
  by (simp add: name_token_def put_children_def)

lemma put_children_sel [simp]:
  "rt_registry (put_children p info k s) = rt_registry s"
  "rt_registrar (put_children p info k s) = rt_registrar s"
  "rt_resolvers (put_children p info k s) = rt_resolvers s"
  "rt_market (put_children p info k s) = rt_market s"
  "rt_oracle (put_children p info k s) = rt_oracle s"
  "rt_now (put_children p info k s) = rt_now s"
  "rt_parent_hash (put_children p info k s) = rt_parent_hash s"
  "rt_balances (put_children p info k s) = rt_balances s"
  "rt_block_number (put_children p info k s) = rt_block_number s"
  by (simp_all add: put_children_def)

lemma cleaner_sel [simp]:
  "rt_nft (cleaner_all n s) = rt_nft s" "rt_nft (cleaner_except_ss58 n s) = rt_nft s"
  "rt_registry (cleaner_all n s) = rt_registry s" "rt_registry (cleaner_except_ss58 n s) = rt_registry s"
  "rt_registrar (cleaner_all n s) = rt_registrar s" "rt_registrar (cleaner_except_ss58 n s) = rt_registrar s"
  "rt_resolvers (cleaner_all n s) = clear_all_records n (rt_resolvers s)"
  "rt_resolvers (cleaner_except_ss58 n s) = clear_records_except_ss58 n (rt_resolvers s)"
  "rt_market (cleaner_all n s) = rt_market s" "rt_market (cleaner_except_ss58 n s) = rt_market s"
  "rt_oracle (cleaner_all n s) = rt_oracle s" "rt_oracle (cleaner_except_ss58 n s) = rt_oracle s"
  "rt_now (cleaner_all n s) = rt_now s" "rt_now (cleaner_except_ss58 n s) = rt_now s"
  "rt_parent_hash (cleaner_all n s) = rt_parent_hash s"
  "rt_parent_hash (cleaner_except_ss58 n s) = rt_parent_hash s"
  "rt_block_number (cleaner_all n s) = rt_block_number s"
  "rt_block_number (cleaner_except_ss58 n s) = rt_block_number s"
  "rt_balances (cleaner_all n s) = rt_balances s" "rt_balances (cleaner_except_ss58 n s) = rt_balances s"
  by (simp_all add: cleaner_all_def cleaner_except_ss58_def)

lemma name_token_cleaner [simp]:
  "name_token n (cleaner_all m s) = name_token n s"
  "name_token n (cleaner_except_ss58 m s) = name_token n s"
  by (simp_all add: name_token_def)

text \<open>
  The children counter keeps the owner of every token, the owner index and the class
  counters, hence the invariant of the token pallet.
\<close>

lemma nft_wf_put_children:
  assumes "nft_wf (rt_nft s)" "name_token p s = Some info"
  shows "nft_wf (rt_nft (put_children p info k s))"
proof -
  let ?st = "rt_nft (put_children p info k s)"
  have 1: "nft_owner_of ?st = nft_owner_of (rt_nft s)"
    using assms(2) by (auto simp: nft_owner_of_def put_children_def name_token_def)
  have 2: "class_tokens ?st c = class_tokens (rt_nft s) c" for c
    using assms(2) by (auto simp: class_tokens_def put_children_def name_token_def)
  have 3: "nft_is_owner a t ?st = nft_is_owner a t (rt_nft s)" "classes ?st = classes (rt_nft s)"
    "next_class_id ?st = next_class_id (rt_nft s)" for a t
    by (simp_all add: nft_is_owner_def put_children_def)
  show ?thesis
    using assms(1) unfolding nft_wf_def nft_index_ok_def nft_count_ok_def class_count_ok_def 1 2 3 .
qed

lemma lift_nft_iff:
  "lift_nft f s = Inr s' \<longleftrightarrow> (\<exists>st. f (rt_nft s) = Inr st \<and> s' = upd_nft (\<lambda>_. st) s)"
  by (auto simp: lift_nft_def result_simps)

lemma name_token_upd_nft [simp]: "name_token n (upd_nft f s) = tokens (f (rt_nft s)) (0, n)"
  by (simp add: name_token_def)

section \<open>Delegations and their indexes\<close>

text \<open>
  The records say who delegated which subname to whom and in which state; the three other
  maps are indexes of them.  \<open>account_to_subnames\<close> also holds canonical names, so it agrees
  with the records only at nodes that have one.
\<close>

definition subnames_index_ok :: "registry_storage \<Rightarrow> bool" where
  "subnames_index_ok r \<longleftrightarrow> (\<forall>p n. dm_contains (sub_names r) p n \<longleftrightarrow>
     (\<exists>rec. subname_records r n = Some rec \<and> sr_parent rec = p))"

definition offers_index_ok :: "registry_storage \<Rightarrow> bool" where
  "offers_index_ok r \<longleftrightarrow> (\<forall>a n. dm_contains (offered_to_account r) a n \<longleftrightarrow>
     (\<exists>rec. subname_records r n = Some rec \<and> sr_state rec = Offered \<and> sr_target rec = a))"

definition holders_index_ok :: "registry_storage \<Rightarrow> bool" where
  "holders_index_ok r \<longleftrightarrow> (\<forall>a n rec. subname_records r n = Some rec \<longrightarrow>
     (dm_contains (account_to_subnames r) a n \<longleftrightarrow> sr_state rec = Active \<and> sr_target rec = a))"

definition deleg_ok :: "registry_storage \<Rightarrow> bool" where
  "deleg_ok r \<longleftrightarrow> subnames_index_ok r \<and> offers_index_ok r \<and> holders_index_ok r
     \<and> dm_distinct (sub_names r)"

lemmas deleg_defs = deleg_ok_def subnames_index_ok_def offers_index_ok_def holders_index_ok_def

text \<open>
  The tree: exactly the nodes traced to the root are registered names, they own a token,
  their counter is the number of their subnames, and no subname has a token or subnames.
\<close>

definition counters_ok :: "domain_hash \<Rightarrow> 'b runtime \<Rightarrow> bool" where
  "counters_ok base s \<longleftrightarrow> (\<forall>p info. p \<noteq> base \<longrightarrow> name_token p s = Some info \<longrightarrow>
     unat (td_children (ti_data info)) = length (dm_iter (sub_names (rt_registry s)) p))"

definition roots_ok :: "domain_hash \<Rightarrow> 'b runtime \<Rightarrow> bool" where
  "roots_ok base s \<longleftrightarrow>
     runtime_origin (rt_registry s) base = None
     \<and> name_token base s \<noteq> None
     \<and> (\<forall>p. p \<noteq> base \<longrightarrow> runtime_origin (rt_registry s) p =
          (if name_token p s = None then None else Some Root))
     \<and> (\<forall>p. name_token p s = None \<or> p = base \<longrightarrow> dm_iter (sub_names (rt_registry s)) p = [])
     \<and> (\<forall>n. subname_records (rt_registry s) n \<noteq> None \<longrightarrow> name_token n s = None)"

definition tree_ok :: "domain_hash \<Rightarrow> 'b runtime \<Rightarrow> bool" where
  "tree_ok base s \<longleftrightarrow> nft_wf (rt_nft s) \<and> deleg_ok (rt_registry s) \<and> roots_ok base s
     \<and> counters_ok base s"

section \<open>The delegation operations\<close>

lemma offer_subname_iff:
  "offer_subname parent n lbl target capacity s = Inr s' \<longleftrightarrow>
     runtime_origin (rt_registry s) parent = Some Root
     \<and> subname_records (rt_registry s) n = None
     \<and> (\<exists>info. name_token parent s = Some info \<and> target \<noteq> ti_owner info
          \<and> td_children (ti_data info) < capacity
          \<and> s' = sub_names_insert parent n (offer_insert target n (record_insert n
                  \<lparr>sr_parent = parent, sr_label = lbl, sr_target = target, sr_state = Offered\<rparr>
                  (put_children parent info (td_children (ti_data info) + 1) s))))"
  by (auto simp: offer_subname_def result_simps add_children_with_check_def split: option.splits)

lemma accept_subname_offer_iff:
  "accept_subname_offer c n acceptor s = Inr (parent, s') \<longleftrightarrow>
     \<not> has_valid_canonical_name c acceptor s
     \<and> dm_iter (account_to_subnames (rt_registry s)) acceptor = []
     \<and> (\<exists>rec. subname_records (rt_registry s) n = Some rec \<and> sr_state rec = Offered
          \<and> sr_target rec = acceptor \<and> parent = sr_parent rec
          \<and> s' = held_insert acceptor n (offer_remove acceptor n
                  (record_insert n (rec\<lparr>sr_state := Active\<rparr>) s)))"
  by (auto simp: accept_subname_offer_def result_simps)

lemma reject_subname_offer_iff:
  "reject_subname_offer n caller s = Inr s' \<longleftrightarrow>
     (\<exists>rec. subname_records (rt_registry s) n = Some rec \<and> sr_state rec = Offered
        \<and> sr_target rec = caller
        \<and> s' = offer_remove caller n (record_insert n (rec\<lparr>sr_state := Rejected\<rparr>) s))"
  by (auto simp: reject_subname_offer_def result_simps)

lemma sub_children_iff:
  "sub_children p s = Inr s' \<longleftrightarrow>
     (\<exists>info k. name_token p s = Some info \<and> checked_sub (td_children (ti_data info)) 1 = Some k
        \<and> s' = put_children p info k s)"
  by (auto simp: sub_children_def result_simps)

definition drop_delegation :: "domain_hash \<Rightarrow> subname_record \<Rightarrow> 'b runtime \<Rightarrow> 'b runtime" where
  "drop_delegation n rec s = (case sr_state rec of
     Active \<Rightarrow> cleaner_all n (held_remove (sr_target rec) n (record_remove n s))
   | _ \<Rightarrow> offer_remove (sr_target rec) n (record_remove n s))"

lemma revoke_subname_iff:
  "revoke_subname parent n s = Inr s' \<longleftrightarrow>
     (\<exists>rec. subname_records (rt_registry s) n = Some rec \<and> sr_parent rec = parent
        \<and> sub_children parent (sub_names_remove parent n (drop_delegation n rec s)) = Inr s')"
  by (auto simp: revoke_subname_def result_simps Let_def drop_delegation_def
      cong: subname_state.case_cong split: subname_state.splits)

lemma release_subname_iff:
  "release_subname n caller s = Inr (parent, s') \<longleftrightarrow>
     (\<exists>rec s1. subname_records (rt_registry s) n = Some rec \<and> sr_state rec = Active
        \<and> sr_target rec = caller \<and> parent = sr_parent rec
        \<and> sub_children parent (sub_names_remove parent n (held_remove caller n (record_remove n s)))
            = Inr s1
        \<and> s' = cleaner_all n s1)"
  by (auto simp: release_subname_def result_simps Let_def)

section \<open>The delegation operations keep the indexes\<close>

lemma deleg_ok_offer:
  assumes "deleg_ok r" "subname_records r n = None" "\<And>a. \<not> dm_contains (account_to_subnames r) a n"
    "sr_state rec = Offered"
  shows "deleg_ok (r\<lparr>subname_records := (subname_records r)(n \<mapsto> rec),
     offered_to_account := dm_insert (sr_target rec) n () (offered_to_account r),
     sub_names := dm_insert (sr_parent rec) n () (sub_names r)\<rparr>)"
  using assms unfolding deleg_defs
  by (simp add: dm_contains_simps dm_distinct_preserved) (auto)

lemma deleg_ok_accept:
  assumes "deleg_ok r" "subname_records r n = Some rec" "sr_state rec = Offered"
  shows "deleg_ok (r\<lparr>subname_records := (subname_records r)(n \<mapsto> rec\<lparr>sr_state := Active\<rparr>),
     offered_to_account := dm_remove (sr_target rec) n (offered_to_account r),
     account_to_subnames := dm_insert (sr_target rec) n () (account_to_subnames r)\<rparr>)"
  using assms unfolding deleg_defs
  by (simp add: dm_contains_simps dm_distinct_preserved) (auto)

lemma deleg_ok_reject:
  assumes "deleg_ok r" "subname_records r n = Some rec" "sr_state rec = Offered"
  shows "deleg_ok (r\<lparr>subname_records := (subname_records r)(n \<mapsto> rec\<lparr>sr_state := Rejected\<rparr>),
     offered_to_account := dm_remove (sr_target rec) n (offered_to_account r)\<rparr>)"
  using assms unfolding deleg_defs
  by (simp add: dm_contains_simps dm_distinct_preserved) (auto)

lemma deleg_ok_drop:
  assumes "deleg_ok r" "subname_records r n = Some rec"
  shows "deleg_ok (r\<lparr>subname_records := (subname_records r)(n := None),
     offered_to_account := (if sr_state rec = Active then offered_to_account r
        else dm_remove (sr_target rec) n (offered_to_account r)),
     account_to_subnames := (if sr_state rec = Active
        then dm_remove (sr_target rec) n (account_to_subnames r) else account_to_subnames r),
     sub_names := dm_remove (sr_parent rec) n (sub_names r)\<rparr>)"
  using assms unfolding deleg_defs
  by (simp add: dm_contains_simps dm_distinct_preserved) (auto)

definition fresh_node :: "domain_hash \<Rightarrow> 'b runtime \<Rightarrow> bool" where
  "fresh_node n s \<longleftrightarrow> name_token n s = None
     \<and> (\<forall>a. \<not> dm_contains (account_to_subnames (rt_registry s)) a n)"

lemma tree_ok_offer:
  assumes "tree_ok base s" "offer_subname parent n lbl target capacity s = Inr s'" "fresh_node n s"
  shows "tree_ok base s'"
proof -
  let ?r = "rt_registry s"
  obtain info where i: "runtime_origin ?r parent = Some Root" "subname_records ?r n = None"
    "name_token parent s = Some info" "td_children (ti_data info) < capacity"
    and s': "s' = sub_names_insert parent n (offer_insert target n (record_insert n
                  \<lparr>sr_parent = parent, sr_label = lbl, sr_target = target, sr_state = Offered\<rparr>
                  (put_children parent info (td_children (ti_data info) + 1) s)))"
    using assms(2) by (auto simp: offer_subname_iff)
  let ?rec = "\<lparr>sr_parent = parent, sr_label = lbl, sr_target = target, sr_state = Offered\<rparr>"
  have t: "nft_wf (rt_nft s)" "deleg_ok ?r" "roots_ok base s" "counters_ok base s"
    using assms(1) by (simp_all add: tree_ok_def)
  have r': "rt_registry s' = ?r\<lparr>subname_records := (subname_records ?r)(n \<mapsto> ?rec),
     offered_to_account := dm_insert target n () (offered_to_account ?r),
     sub_names := dm_insert parent n () (sub_names ?r)\<rparr>"
    by (simp add: s' registry_writes)
  have tok: "name_token m s' = (if m = parent then
      Some (info\<lparr>ti_data := (ti_data info)\<lparr>td_children := td_children (ti_data info) + 1\<rparr>\<rparr>)
      else name_token m s)" for m
    by (simp add: s' registry_writes)
  have "parent \<noteq> base"
    using t(3) i(1) by (auto simp: roots_ok_def)
  have nin: "\<not> dm_contains (sub_names ?r) parent n"
    using t(2) i(2) by (simp add: deleg_defs)
  have "nft_wf (rt_nft s')"
    using nft_wf_put_children [OF t(1) i(3)] by (simp add: s' registry_writes)
  moreover have "deleg_ok (rt_registry s')"
    unfolding r' using deleg_ok_offer [OF t(2) i(2), of ?rec] assms(3) by (simp add: fresh_node_def)
  moreover have "roots_ok base s'"
    using t(3) i(3) assms(3) \<open>parent \<noteq> base\<close>
    by (auto simp: roots_ok_def tok r' fresh_node_def dm_iter_other)
  moreover have "counters_ok base s'"
    using t(4) i(3,4) length_dm_insert [OF _ nin, of "()"] t(2) \<open>parent \<noteq> base\<close>
    by (auto simp: counters_ok_def tok r' dm_iter_other deleg_ok_def unat_Suc_below)
  ultimately show ?thesis by (simp add: tree_ok_def)
qed

text \<open>Operations that leave the tokens and the list of subnames alone.\<close>

lemma tree_ok_registry_cong:
  assumes "tree_ok base s" "rt_nft s' = rt_nft s" "deleg_ok (rt_registry s')"
    "sub_names (rt_registry s') = sub_names (rt_registry s)"
    "runtime_origin (rt_registry s') = runtime_origin (rt_registry s)"
    "dom (subname_records (rt_registry s')) \<subseteq> dom (subname_records (rt_registry s))"
  shows "tree_ok base s'"
proof -
  have tok: "name_token n s' = name_token n s" for n
    using assms(2) by (simp add: name_token_def)
  have "subname_records (rt_registry s') n \<noteq> None \<Longrightarrow> subname_records (rt_registry s) n \<noteq> None" for n
    using assms(6) by auto
  then show ?thesis
    using assms(1-5) by (simp add: tree_ok_def roots_ok_def counters_ok_def tok)
qed

lemma tree_ok_accept:
  assumes "tree_ok base s" "accept_subname_offer c n acceptor s = Inr (parent, s')"
  shows "tree_ok base s'"
proof -
  let ?r = "rt_registry s"
  obtain rec where rec: "subname_records ?r n = Some rec" "sr_state rec = Offered"
    "sr_target rec = acceptor"
    and s': "s' = held_insert acceptor n (offer_remove acceptor n
                  (record_insert n (rec\<lparr>sr_state := Active\<rparr>) s))"
    using assms(2) by (auto simp: accept_subname_offer_iff)
  have "deleg_ok (rt_registry s')"
    using deleg_ok_accept [OF _ rec(1,2)] assms(1) rec(3)
    by (simp add: s' registry_writes tree_ok_def)
  then show ?thesis
    by (rule tree_ok_registry_cong [OF assms(1), rotated]) (use rec in \<open>auto simp: s' registry_writes\<close>)
qed

lemma tree_ok_reject:
  assumes "tree_ok base s" "reject_subname_offer n caller s = Inr s'"
  shows "tree_ok base s'"
proof -
  let ?r = "rt_registry s"
  obtain rec where rec: "subname_records ?r n = Some rec" "sr_state rec = Offered"
    "sr_target rec = caller"
    and s': "s' = offer_remove caller n (record_insert n (rec\<lparr>sr_state := Rejected\<rparr>) s)"
    using assms(2) by (auto simp: reject_subname_offer_iff)
  have "deleg_ok (rt_registry s')"
    using deleg_ok_reject [OF _ rec(1,2)] assms(1) rec(3)
    by (simp add: s' registry_writes tree_ok_def)
  then show ?thesis
    by (rule tree_ok_registry_cong [OF assms(1), rotated]) (use rec in \<open>auto simp: s' registry_writes\<close>)
qed

text \<open>Dropping a delegation frees one slot of its parent.\<close>

lemma drop_delegation_sel:
  "rt_nft (drop_delegation n rec s) = rt_nft s"
  "rt_registrar (drop_delegation n rec s) = rt_registrar s"
  "sub_names (rt_registry (drop_delegation n rec s)) = sub_names (rt_registry s)"
  by (cases "sr_state rec"; simp add: drop_delegation_def registry_writes)+

lemma drop_delegation_registry:
  "rt_registry (sub_names_remove p n (drop_delegation n rec s)) = (rt_registry s)
     \<lparr>subname_records := (subname_records (rt_registry s))(n := None),
      offered_to_account := (if sr_state rec = Active then offered_to_account (rt_registry s)
        else dm_remove (sr_target rec) n (offered_to_account (rt_registry s))),
      account_to_subnames := (if sr_state rec = Active
        then dm_remove (sr_target rec) n (account_to_subnames (rt_registry s))
        else account_to_subnames (rt_registry s)),
      sub_names := dm_remove p n (sub_names (rt_registry s))\<rparr>"
  by (cases "sr_state rec") (simp_all add: drop_delegation_def registry_writes)

lemma tree_ok_dropped:
  assumes "tree_ok base s" "subname_records (rt_registry s) n = Some rec" "name_token p s = Some info"
    "sr_parent rec = p" "checked_sub (td_children (ti_data info)) 1 = Some k"
    "rt_nft s' = rt_nft (put_children p info k s)"
    "rt_registry s' = rt_registry (sub_names_remove p n (drop_delegation n rec s))"
  shows "tree_ok base s'"
proof -
  let ?r = "rt_registry s"
  have t: "nft_wf (rt_nft s)" "deleg_ok ?r" "roots_ok base s" "counters_ok base s"
    using assms(1) by (simp_all add: tree_ok_def)
  note r' = assms(7) [unfolded drop_delegation_registry]
  have tok: "name_token m s' = name_token m (put_children p info k s)" for m
    using assms(6) by (simp add: name_token_def)
  have mem: "dm_contains (sub_names ?r) p n"
    using t(2) assms(2,4) by (simp add: deleg_defs)
  have "p \<noteq> base"
    using t(3) mem by (auto simp: roots_ok_def dm_contains_iff)
  have dist: "dm_distinct (sub_names ?r)"
    using t(2) by (simp add: deleg_ok_def)
  have "nft_wf (rt_nft s')"
    using nft_wf_put_children [OF t(1) assms(3)] assms(6) by simp
  moreover have "deleg_ok (rt_registry s')"
    unfolding r' using deleg_ok_drop [OF t(2) assms(2)] assms(4) by simp
  moreover have "roots_ok base s'"
    using t(3) assms(3) \<open>p \<noteq> base\<close> by (auto simp: roots_ok_def tok r' dm_iter_other)
  moreover have "counters_ok base s'"
    using t(4) assms(3) length_dm_remove [OF dist mem] unat_checked_sub [OF assms(5)]
    by (auto simp: counters_ok_def tok r' dm_iter_other)
  ultimately show ?thesis by (simp add: tree_ok_def)
qed

lemma tree_ok_revoke:
  assumes "tree_ok base s" "revoke_subname parent n s = Inr s'"
  shows "tree_ok base s'"
proof -
  obtain rec info k where a: "subname_records (rt_registry s) n = Some rec" "sr_parent rec = parent"
    "name_token parent s = Some info" "checked_sub (td_children (ti_data info)) 1 = Some k"
    "s' = put_children parent info k (sub_names_remove parent n (drop_delegation n rec s))"
    using assms(2)
    by (auto simp: revoke_subname_iff sub_children_iff name_token_def drop_delegation_sel
        sub_names_remove_def)
  show ?thesis
    by (rule tree_ok_dropped [OF assms(1) a(1,3,2,4)])
      (simp_all add: a(5) put_children_def drop_delegation_sel sub_names_remove_def)
qed

lemma tree_ok_release:
  assumes "tree_ok base s" "release_subname n caller s = Inr (parent, s')"
  shows "tree_ok base s'"
proof -
  obtain rec info k where a: "subname_records (rt_registry s) n = Some rec" "sr_parent rec = parent"
    "sr_state rec = Active" "sr_target rec = caller"
    "name_token parent s = Some info" "checked_sub (td_children (ti_data info)) 1 = Some k"
    "s' = cleaner_all n (put_children parent info k
            (sub_names_remove parent n (held_remove caller n (record_remove n s))))"
    using assms(2) by (auto simp: release_subname_iff sub_children_iff name_token_def registry_writes)
  show ?thesis
    by (rule tree_ok_dropped [OF assms(1) a(1,5,2,6)])
      (simp_all add: a drop_delegation_def put_children_def registry_writes)
qed

section \<open>Clearing subnames\<close>

lemma clear_delegation_sel [simp]:
  "rt_nft (clear_delegation ch s) = rt_nft s" "rt_registrar (clear_delegation ch s) = rt_registrar s"
  "rt_resolvers (clear_delegation ch s) = rt_resolvers s" "rt_market (clear_delegation ch s) = rt_market s"
  "rt_oracle (clear_delegation ch s) = rt_oracle s" "rt_balances (clear_delegation ch s) = rt_balances s"
  "rt_now (clear_delegation ch s) = rt_now s" "rt_block_number (clear_delegation ch s) = rt_block_number s"
  "rt_parent_hash (clear_delegation ch s) = rt_parent_hash s"
  "sub_names (rt_registry (clear_delegation ch s)) = sub_names (rt_registry s)"
  "runtime_origin (rt_registry (clear_delegation ch s)) = runtime_origin (rt_registry s)"
  "official (rt_registry (clear_delegation ch s)) = official (rt_registry s)"
  "subname_records (rt_registry (clear_delegation ch s)) = (subname_records (rt_registry s))(ch := None)"
  by (auto simp: clear_delegation_def registry_writes Let_def split: option.splits subname_state.splits)

lemma clear_delegation_indexes:
  "dm_contains (offered_to_account (rt_registry (clear_delegation ch s))) a n \<longleftrightarrow>
     dm_contains (offered_to_account (rt_registry s)) a n
     \<and> \<not> (n = ch \<and> (\<exists>rec. subname_records (rt_registry s) ch = Some rec
            \<and> sr_state rec \<noteq> Active \<and> sr_target rec = a))"
  "dm_contains (account_to_subnames (rt_registry (clear_delegation ch s))) a n \<longleftrightarrow>
     dm_contains (account_to_subnames (rt_registry s)) a n
     \<and> \<not> (n = ch \<and> (\<exists>rec. subname_records (rt_registry s) ch = Some rec
            \<and> sr_state rec = Active \<and> sr_target rec = a))"
  by (auto simp: clear_delegation_def registry_writes Let_def dm_contains_simps
      split: option.splits subname_state.splits)

lemma clear_child_eq:
  "name_token ch s = None \<Longrightarrow>
     clear_child ch s = clear_delegation ch (origin_remove ch (cleaner_all ch s))"
  by (simp add: clear_child_def clear_legacy_token_def name_token_def origin_remove_def)

definition clear_children :: "domain_hash list \<Rightarrow> 'b runtime \<Rightarrow> 'b runtime" where
  "clear_children cs s = foldl (\<lambda>s ch. clear_child ch s) s cs"

lemma clear_children_Cons: "clear_children (ch # cs) s = clear_children cs (clear_child ch s)"
  by (simp add: clear_children_def)

lemma clear_children_frame:
  assumes "\<forall>ch\<in>set cs. name_token ch s = None"
  shows "rt_nft (clear_children cs s) = rt_nft s" "rt_registrar (clear_children cs s) = rt_registrar s"
    "rt_market (clear_children cs s) = rt_market s" "rt_oracle (clear_children cs s) = rt_oracle s"
    "rt_balances (clear_children cs s) = rt_balances s" "rt_now (clear_children cs s) = rt_now s"
    "rt_block_number (clear_children cs s) = rt_block_number s"
    "rt_parent_hash (clear_children cs s) = rt_parent_hash s"
    "sub_names (rt_registry (clear_children cs s)) = sub_names (rt_registry s)"
    "official (rt_registry (clear_children cs s)) = official (rt_registry s)"
  using assms
  by (induction cs arbitrary: s)
    (simp_all add: clear_children_def clear_child_eq name_token_def origin_remove_def cleaner_all_def)

lemma clear_children_maps:
  assumes "\<forall>ch\<in>set cs. name_token ch s = None"
  shows "runtime_origin (rt_registry (clear_children cs s)) n =
      (if n \<in> set cs then None else runtime_origin (rt_registry s) n)"
    and "subname_records (rt_registry (clear_children cs s)) n =
      (if n \<in> set cs then None else subname_records (rt_registry s) n)"
    and "get_record (rt_resolvers (clear_children cs s)) n rt =
      (if n \<in> set cs then [] else get_record (rt_resolvers s) n rt)"
    and "get_text (rt_resolvers (clear_children cs s)) n k =
      (if n \<in> set cs then [] else get_text (rt_resolvers s) n k)"
  using assms
  by (induction cs arbitrary: s)
    (auto simp: clear_children_def clear_child_eq name_token_def origin_remove_def cleaner_all_def
      get_record_clear_all get_text_clear_all)

lemma clear_children_indexes:
  assumes "\<forall>ch\<in>set cs. name_token ch s = None"
  shows "dm_contains (offered_to_account (rt_registry (clear_children cs s))) a n \<longleftrightarrow>
     dm_contains (offered_to_account (rt_registry s)) a n
     \<and> \<not> (n \<in> set cs \<and> (\<exists>rec. subname_records (rt_registry s) n = Some rec
            \<and> sr_state rec \<noteq> Active \<and> sr_target rec = a))"
    and "dm_contains (account_to_subnames (rt_registry (clear_children cs s))) a n \<longleftrightarrow>
     dm_contains (account_to_subnames (rt_registry s)) a n
     \<and> \<not> (n \<in> set cs \<and> (\<exists>rec. subname_records (rt_registry s) n = Some rec
            \<and> sr_state rec = Active \<and> sr_target rec = a))"
  using assms
proof (induction cs arbitrary: s)
  case Nil
  { case 1 show ?case by (simp add: clear_children_def) next
    case 2 show ?case by (simp add: clear_children_def) }
next
  case (Cons ch cs)
  { case 1 then show ?case
      using Cons.IH(1) [of "clear_child ch s"]
      by (auto simp: clear_children_Cons clear_child_eq name_token_def origin_remove_def cleaner_all_def
          clear_delegation_indexes) next
    case 2 then show ?case
      using Cons.IH(2) [of "clear_child ch s"]
      by (auto simp: clear_children_Cons clear_child_eq name_token_def origin_remove_def cleaner_all_def
          clear_delegation_indexes) }
qed

lemma clear_subnames_eq:
  "clear_subnames root s = reset_children root (sub_names_clear root
     (clear_children (dm_iter (sub_names (rt_registry s)) root) s))"
  by (simp add: clear_subnames_def clear_children_def Let_def)

lemma children_have_no_token:
  assumes "tree_ok base s"
  shows "\<forall>ch\<in>set (dm_iter (sub_names (rt_registry s)) root). name_token ch s = None"
  using assms by (auto simp: tree_ok_def roots_ok_def deleg_defs set_dm_iter)

lemma in_children_iff:
  assumes "tree_ok base s"
  shows "n \<in> set (dm_iter (sub_names (rt_registry s)) root) \<longleftrightarrow>
     (\<exists>rec. subname_records (rt_registry s) n = Some rec \<and> sr_parent rec = root)"
  using assms by (simp add: tree_ok_def deleg_defs set_dm_iter)

lemma reset_children_sel [simp]:
  "rt_registry (reset_children root s) = rt_registry s"
  "rt_registrar (reset_children root s) = rt_registrar s"
  "rt_resolvers (reset_children root s) = rt_resolvers s"
  "rt_market (reset_children root s) = rt_market s"
  "rt_oracle (reset_children root s) = rt_oracle s"
  "rt_balances (reset_children root s) = rt_balances s"
  "rt_now (reset_children root s) = rt_now s"
  "rt_block_number (reset_children root s) = rt_block_number s"
  "rt_parent_hash (reset_children root s) = rt_parent_hash s"
  "name_token n (reset_children root s) =
     (if n = root then map_option (\<lambda>info. info\<lparr>ti_data := (ti_data info)\<lparr>td_children := 0\<rparr>\<rparr>)
        (name_token root s) else name_token n s)"
  by (simp_all add: reset_children_def split: option.splits)

text \<open>What clearing leaves behind, in a well-formed tree.\<close>

lemma clear_subnames_frame:
  assumes "tree_ok base s"
  shows "rt_registrar (clear_subnames root s) = rt_registrar s"
    "rt_market (clear_subnames root s) = rt_market s" "rt_oracle (clear_subnames root s) = rt_oracle s"
    "rt_balances (clear_subnames root s) = rt_balances s" "rt_now (clear_subnames root s) = rt_now s"
    "rt_block_number (clear_subnames root s) = rt_block_number s"
    "rt_parent_hash (clear_subnames root s) = rt_parent_hash s"
    "official (rt_registry (clear_subnames root s)) = official (rt_registry s)"
    "sub_names (rt_registry (clear_subnames root s)) = dm_clear root (sub_names (rt_registry s))"
  using clear_children_frame [OF children_have_no_token [OF assms]]
  by (simp_all add: clear_subnames_eq sub_names_clear_def)

lemma clear_subnames_maps:
  assumes "tree_ok base s"
  shows "runtime_origin (rt_registry (clear_subnames root s)) n = runtime_origin (rt_registry s) n"
    and "subname_records (rt_registry (clear_subnames root s)) n =
      (case subname_records (rt_registry s) n of
         None \<Rightarrow> None | Some rec \<Rightarrow> if sr_parent rec = root then None else Some rec)"
    and "get_record (rt_resolvers (clear_subnames root s)) n rt =
      (if \<exists>rec. subname_records (rt_registry s) n = Some rec \<and> sr_parent rec = root then []
       else get_record (rt_resolvers s) n rt)"
    and "get_text (rt_resolvers (clear_subnames root s)) n k =
      (if \<exists>rec. subname_records (rt_registry s) n = Some rec \<and> sr_parent rec = root then []
       else get_text (rt_resolvers s) n k)"
    and "name_token n (clear_subnames root s) =
      (if n = root then map_option (\<lambda>info. info\<lparr>ti_data := (ti_data info)\<lparr>td_children := 0\<rparr>\<rparr>)
         (name_token root s) else name_token n s)"
proof -
  note maps = clear_children_maps [OF children_have_no_token [OF assms, of root]]
    and mem = in_children_iff [OF assms, of _ root]
  have "runtime_origin (rt_registry s) n = None" if "\<exists>rec. subname_records (rt_registry s) n = Some rec"
    using that assms unfolding tree_ok_def roots_ok_def by (metis option.discI)
  then show "runtime_origin (rt_registry (clear_subnames root s)) n = runtime_origin (rt_registry s) n"
    by (auto simp: clear_subnames_eq sub_names_clear_def maps mem)
  show "subname_records (rt_registry (clear_subnames root s)) n =
      (case subname_records (rt_registry s) n of
         None \<Rightarrow> None | Some rec \<Rightarrow> if sr_parent rec = root then None else Some rec)"
    by (auto simp: clear_subnames_eq sub_names_clear_def maps mem split: option.splits)
  show "get_record (rt_resolvers (clear_subnames root s)) n rt =
      (if \<exists>rec. subname_records (rt_registry s) n = Some rec \<and> sr_parent rec = root then []
       else get_record (rt_resolvers s) n rt)"
    by (simp add: clear_subnames_eq sub_names_clear_def maps mem)
  show "get_text (rt_resolvers (clear_subnames root s)) n k =
      (if \<exists>rec. subname_records (rt_registry s) n = Some rec \<and> sr_parent rec = root then []
       else get_text (rt_resolvers s) n k)"
    by (simp add: clear_subnames_eq sub_names_clear_def maps mem)
  show "name_token n (clear_subnames root s) =
      (if n = root then map_option (\<lambda>info. info\<lparr>ti_data := (ti_data info)\<lparr>td_children := 0\<rparr>\<rparr>)
         (name_token root s) else name_token n s)"
    using clear_children_frame(1) [OF children_have_no_token [OF assms, of root]]
    by (simp add: clear_subnames_eq sub_names_clear_def) (simp add: name_token_def)
qed

lemma clear_subnames_indexes:
  assumes "tree_ok base s"
  shows "dm_contains (offered_to_account (rt_registry (clear_subnames root s))) a n \<longleftrightarrow>
     dm_contains (offered_to_account (rt_registry s)) a n
     \<and> \<not> (\<exists>rec. subname_records (rt_registry s) n = Some rec \<and> sr_parent rec = root
            \<and> sr_state rec \<noteq> Active \<and> sr_target rec = a)"
    and "dm_contains (account_to_subnames (rt_registry (clear_subnames root s))) a n \<longleftrightarrow>
     dm_contains (account_to_subnames (rt_registry s)) a n
     \<and> \<not> (\<exists>rec. subname_records (rt_registry s) n = Some rec \<and> sr_parent rec = root
            \<and> sr_state rec = Active \<and> sr_target rec = a)"
  using clear_children_indexes [OF children_have_no_token [OF assms, of root]]
  by (auto simp: clear_subnames_eq sub_names_clear_def in_children_iff [OF assms, of _ root])

lemma deleg_ok_clear_subnames:
  assumes "tree_ok base s"
  shows "deleg_ok (rt_registry (clear_subnames root s))"
proof -
  have d: "deleg_ok (rt_registry s)" using assms by (simp add: tree_ok_def)
  show ?thesis
    unfolding deleg_ok_def
  proof (intro conjI)
    show "subnames_index_ok (rt_registry (clear_subnames root s))"
      using d by (auto simp: deleg_defs clear_subnames_frame [OF assms] clear_subnames_maps [OF assms]
          dm_contains_simps split: option.splits if_splits)
    show "offers_index_ok (rt_registry (clear_subnames root s))"
      using d by (auto simp: deleg_defs clear_subnames_indexes [OF assms] clear_subnames_maps [OF assms]
          split: option.splits if_splits)
    show "holders_index_ok (rt_registry (clear_subnames root s))"
      using d by (auto simp: deleg_defs clear_subnames_indexes [OF assms] clear_subnames_maps [OF assms]
          split: option.splits if_splits)
    show "dm_distinct (sub_names (rt_registry (clear_subnames root s)))"
      using d by (simp add: deleg_ok_def clear_subnames_frame [OF assms] dm_distinct_preserved)
  qed
qed

lemma nft_wf_reset_children: "nft_wf (rt_nft s) \<Longrightarrow> nft_wf (rt_nft (reset_children root s))"
  by (simp add: reset_children_def nft_wf_put_children split: option.splits)

lemma tree_ok_clear_subnames:
  assumes "tree_ok base s" "root \<noteq> base"
  shows "tree_ok base (clear_subnames root s)"
proof -
  have t: "nft_wf (rt_nft s)" "roots_ok base s" "counters_ok base s"
    using assms(1) by (simp_all add: tree_ok_def)
  have "nft_wf (rt_nft (clear_subnames root s))"
    unfolding clear_subnames_eq
    using t(1) clear_children_frame(1) [OF children_have_no_token [OF assms(1), of root]]
    by (intro nft_wf_reset_children) (simp add: sub_names_clear_def)
  moreover have "roots_ok base (clear_subnames root s)"
    using t(2) assms(2)
    by (auto simp: roots_ok_def clear_subnames_maps [OF assms(1)] clear_subnames_frame [OF assms(1)]
        dm_iter_other split: option.splits if_splits)
  moreover have "counters_ok base (clear_subnames root s)"
    using t(3) assms(2)
    by (auto simp: counters_ok_def clear_subnames_maps [OF assms(1)] clear_subnames_frame [OF assms(1)]
        dm_iter_other split: if_splits)
  ultimately show ?thesis
    using deleg_ok_clear_subnames [OF assms(1)] by (simp add: tree_ok_def)
qed

section \<open>Burning\<close>

text \<open>In a well-formed tree every burnable node is a registered name.\<close>

lemma tree_root:
  assumes "tree_ok base s" "runtime_origin (rt_registry s) p = Some tr"
  shows "p \<noteq> base" "tr = Root" "name_token p s \<noteq> None"
proof -
  have base: "runtime_origin (rt_registry s) base = None" and
    rest: "p \<noteq> base \<Longrightarrow> runtime_origin (rt_registry s) p = (if name_token p s = None then None else Some Root)"
    using assms(1) by (simp_all add: tree_ok_def roots_ok_def)
  show "p \<noteq> base" using base assms(2) by auto
  with rest assms(2) show "tr = Root" "name_token p s \<noteq> None"
    by (auto split: if_splits)
qed

lemma do_burn_iff:
  assumes "tree_ok base s"
  shows "do_burn caller token s = Inr s' \<longleftrightarrow>
    (\<exists>info st. name_token token s = Some info \<and> ti_owner info = caller
       \<and> runtime_origin (rt_registry s) token = Some Root
       \<and> nft_burn caller (0, token) (rt_nft (clear_subnames token s)) = Inr st
       \<and> s' = deposit_event (Registry_TokenBurned 0 token token caller caller)
           (upd_nft (\<lambda>_. st) (cleaner_all token (origin_remove token
             (held_remove caller token (clear_registrar_info token (clear_subnames token s)))))))"
proof (cases "runtime_origin (rt_registry s) token")
  case None
  then show ?thesis by (auto simp: do_burn_def result_simps Let_def)
next
  case (Some tr)
  with tree_root(2) [OF assms] have "runtime_origin (rt_registry s) token = Some Root" by simp
  then show ?thesis
    by (auto simp: do_burn_def result_simps Let_def verify_with_owner_def lift_nft_iff
        origin_remove_def held_remove_def clear_registrar_info_def)
qed

lemma do_burn_succeeds:
  assumes "tree_ok base s" "name_token token s = Some info" "token \<noteq> base"
  shows "\<exists>s'. do_burn (ti_owner info) token s = Inr s'"
proof -
  have "runtime_origin (rt_registry s) token = Some Root"
    using assms by (auto simp: tree_ok_def roots_ok_def)
  moreover have "nft_wf (rt_nft (clear_subnames token s))"
    using tree_ok_clear_subnames [OF assms(1,3)] by (simp add: tree_ok_def)
  then have "\<exists>st. nft_burn (ti_owner info) (0, token) (rt_nft (clear_subnames token s)) = Inr st"
    using clear_subnames_maps(5) [OF assms(1), of token token] assms(2)
    by (intro nft_burn_succeeds) (auto simp: nft_owner_of_def name_token_def)
  ultimately show ?thesis
    using assms(2) by (auto simp: do_burn_iff [OF assms(1)])
qed

lemma tree_ok_do_burn:
  assumes "tree_ok base s" "do_burn caller token s = Inr s'"
  shows "tree_ok base s'"
proof -
  let ?s1 = "clear_subnames token s"
  obtain info st where b: "name_token token s = Some info"
    "runtime_origin (rt_registry s) token = Some Root"
    "nft_burn caller (0, token) (rt_nft ?s1) = Inr st"
    and s': "s' = deposit_event (Registry_TokenBurned 0 token token caller caller)
           (upd_nft (\<lambda>_. st) (cleaner_all token (origin_remove token
             (held_remove caller token (clear_registrar_info token ?s1)))))"
    using assms(2) by (auto simp: do_burn_iff [OF assms(1)])
  have nb: "token \<noteq> base" using tree_root [OF assms(1) b(2)] by simp
  have t: "tree_ok base ?s1" by (rule tree_ok_clear_subnames [OF assms(1) nb])
  have toks: "tokens st = (tokens (rt_nft ?s1))((0, token) := None)"
    using b(3) by (auto simp: nft_burn_iff)
  have tok: "name_token n s' = (if n = token then None else name_token n ?s1)" for n
    by (simp add: s' name_token_def toks)
  have r': "rt_registry s' = (rt_registry ?s1)
     \<lparr>account_to_subnames := dm_remove caller token (account_to_subnames (rt_registry ?s1)),
      runtime_origin := (runtime_origin (rt_registry ?s1))(token := None)\<rparr>"
    by (simp add: s' held_remove_def origin_remove_def clear_registrar_info_def)
  have norec: "subname_records (rt_registry ?s1) token = None"
    using t b(1) clear_subnames_maps(5) [OF assms(1), of token token]
    by (auto simp: tree_ok_def roots_ok_def)
  have "nft_wf st"
    using nft_wf_burn [OF _ b(3)] t by (simp add: tree_ok_def)
  then have "nft_wf (rt_nft s')" by (simp add: s')
  moreover have "deleg_ok (rt_registry s')"
    using t norec by (auto simp: tree_ok_def deleg_defs r' dm_contains_simps)
  moreover have "roots_ok base s'"
    using t nb by (auto simp: tree_ok_def roots_ok_def tok r' clear_subnames_frame [OF assms(1)])
  moreover have "counters_ok base s'"
    using t by (auto simp: tree_ok_def counters_ok_def tok r')
  ultimately show ?thesis by (simp add: tree_ok_def)
qed

section \<open>Transferring\<close>

lemma do_transfer_iff:
  assumes "tree_ok base s"
  shows "do_transfer c sender receiver token s = Inr s' \<longleftrightarrow>
    (\<exists>info st s1 s2. name_token token s = Some info \<and> ti_owner info = sender
       \<and> runtime_origin (rt_registry s) token = Some Root
       \<and> is_ok (check_expires_renewable c token s)
       \<and> nft_transfer sender receiver (0, token) (rt_nft (clear_subnames token s)) = Inr st
       \<and> update_ss58 c token receiver
           (cleaner_except_ss58 token (upd_nft (\<lambda>_. st) (clear_subnames token s))) = Inr s1
       \<and> record_origin c token (rt_parent_hash s1) s1 = Inr s2
       \<and> s' = deposit_event (Registry_Transferred sender receiver 0 token) s2)"
proof (cases "runtime_origin (rt_registry s) token")
  case None
  then show ?thesis by (auto simp: do_transfer_def result_simps Let_def)
next
  case (Some tr)
  with tree_root(2) [OF assms] have "runtime_origin (rt_registry s) token = Some Root" by simp
  then show ?thesis
    by (auto simp: do_transfer_def result_simps Let_def verify_with_owner_def lift_nft_iff is_ok_iff)
qed

lemma tree_ok_do_transfer:
  assumes "tree_ok base s" "do_transfer c sender receiver token s = Inr s'"
  shows "tree_ok base s'"
proof -
  let ?s1 = "clear_subnames token s"
  obtain info st s1 where b: "runtime_origin (rt_registry s) token = Some Root"
    "nft_transfer sender receiver (0, token) (rt_nft ?s1) = Inr st"
    "rt_nft s' = st" "rt_registry s' = rt_registry ?s1"
    using assms(2) by (auto simp: do_transfer_iff [OF assms(1)] update_ss58_iff record_origin_iff)
  have nb: "token \<noteq> base" using tree_root [OF assms(1) b(1)] by simp
  have t: "tree_ok base ?s1" by (rule tree_ok_clear_subnames [OF assms(1) nb])
  have tok: "map_option ti_data (name_token n s') = map_option ti_data (name_token n ?s1)" for n
    using b(2,3) by (auto simp: nft_transfer_iff name_token_def)
  have tok': "name_token n s' = None \<longleftrightarrow> name_token n ?s1 = None" for n
    using tok [of n] by (metis option.map_disc_iff)
  have "nft_wf (rt_nft s')"
    using nft_wf_transfer [OF _ b(2)] t by (simp add: tree_ok_def b)
  moreover have "roots_ok base s'"
    using t by (simp add: tree_ok_def roots_ok_def tok' b)
  moreover have "counters_ok base s'"
    unfolding counters_ok_def
  proof (intro allI impI)
    fix p i assume "p \<noteq> base" "name_token p s' = Some i"
    moreover from this(2) obtain j where "name_token p ?s1 = Some j" "ti_data j = ti_data i"
      using tok [of p] by (cases "name_token p ?s1") auto
    ultimately show "unat (td_children (ti_data i)) = length (dm_iter (sub_names (rt_registry s')) p)"
      using t by (auto simp: tree_ok_def counters_ok_def b)
  qed
  ultimately show ?thesis
    using t by (simp add: tree_ok_def b)
qed

section \<open>Minting under the base node\<close>

text \<open>
  What \<open>mint_subname\<close> relies on of its closure: it leaves the tokens, the registry and the
  records alone.
\<close>

definition payments_frame ::
  "(account_id option \<Rightarrow> 'b runtime \<Rightarrow> 'b runtime result) \<Rightarrow> bool" where
  "payments_frame pay \<longleftrightarrow> (\<forall>who s s'. pay who s = Inr s' \<longrightarrow>
     rt_nft s' = rt_nft s \<and> rt_registry s' = rt_registry s \<and> rt_resolvers s' = rt_resolvers s)"

lemma tree_ok_cong:
  assumes "tree_ok base s" "rt_nft s' = rt_nft s" "rt_registry s' = rt_registry s"
  shows "tree_ok base s'"
  using assms by (simp add: tree_ok_def roots_ok_def counters_ok_def name_token_def)

definition minted :: "'b runtime \<Rightarrow> nft_storage \<Rightarrow> domain_hash \<Rightarrow> domain_hash \<Rightarrow> account_id \<Rightarrow> token_info
    \<Rightarrow> 'b runtime" where
  "minted s1 st base n receiver bi =
     deposit_event (Registry_TokenMinted 0 n base receiver) (origin_insert n Root
       (put_children base bi (td_children (ti_data bi) + 1)
         (held_insert receiver n (upd_nft (\<lambda>_. st) s1))))"

definition reminted :: "'b runtime \<Rightarrow> nft_storage \<Rightarrow> domain_hash \<Rightarrow> domain_hash \<Rightarrow> account_id \<Rightarrow> account_id
    \<Rightarrow> 'b runtime" where
  "reminted s1 st base n pre_owner receiver =
     deposit_event (Registry_TokenMinted 0 n base receiver) (held_insert receiver n
       (upd_nft (\<lambda>_. st) (held_remove pre_owner n (cleaner_all n (clear_subnames n s1)))))"

lemma mint_base_cases:
  assumes "mint_subname c owner metadata base n receiver capacity pay s = Inr s'"
    "tree_ok base s" "payments_frame pay"
  obtains (fresh) s1 st bi where "name_token n s = None" "pay None s = Inr s1"
      "nft_mint (cfg_max_token_metadata c) receiver (0, n) metadata default_token_data (rt_nft s) = Inr st"
      "tokens st (0, base) = Some bi" "s' = minted s1 st base n receiver bi"
      "owner_of base s = Some owner" "receiver \<noteq> owner"
  | (expired) info s1 st where "name_token n s = Some info"
      "is_ok (check_expires_registrable c n s)" "pay (Some (ti_owner info)) s = Inr s1"
      "nft_transfer (ti_owner info) receiver (0, n) (rt_nft (clear_subnames n s1)) = Inr st"
      "s' = reminted s1 st base n (ti_owner info) receiver"
      "owner_of base s = Some owner" "receiver \<noteq> owner"
proof -
  obtain binfo where b: "name_token base s = Some binfo" "runtime_origin (rt_registry s) base = None"
    using assms(2) by (auto simp: tree_ok_def roots_ok_def)
  have own: "ti_owner binfo = owner" "receiver \<noteq> owner"
    using assms(1) b by (auto simp: mint_subname_def result_simps Let_def verify_with_owner_def)
  show ?thesis
  proof (cases "name_token n s")
    case None
    with assms(1) b own obtain s1 st s2 where a: "pay None s = Inr s1"
      "nft_mint (cfg_max_token_metadata c) receiver (0, n) metadata default_token_data (rt_nft s1) = Inr st"
      "attach_child base n capacity (held_insert receiver n (upd_nft (\<lambda>_. st) s1)) = Inr s2"
      "s' = deposit_event (Registry_TokenMinted 0 n base receiver) s2"
      by (auto simp: mint_subname_def result_simps Let_def lift_nft_iff)
    have fr: "rt_nft s1 = rt_nft s" "rt_registry s1 = rt_registry s"
      using assms(3) a(1) by (auto simp: payments_frame_def)
    obtain bi where "tokens st (0, base) = Some bi"
      "s2 = origin_insert n Root (put_children base bi (td_children (ti_data bi) + 1)
         (held_insert receiver n (upd_nft (\<lambda>_. st) s1)))"
      using a(3) b(2) fr by (auto simp: attach_child_def result_simps add_children_def held_insert_def)
    then show ?thesis
      using fresh [OF None a(1)] a fr own b(1) by (simp add: minted_def owner_of_def)
  next
    case (Some info)
    with assms(1) b own obtain s1 st where a: "is_ok (check_expires_registrable c n s)"
      "pay (Some (ti_owner info)) s = Inr s1"
      "nft_transfer (ti_owner info) receiver (0, n) (rt_nft (clear_subnames n s1)) = Inr st"
      "s' = reminted s1 st base n (ti_owner info) receiver"
      by (auto simp: mint_subname_def result_simps Let_def lift_nft_iff is_ok_iff reminted_def held_remove_def)
    then show ?thesis
      using expired [OF Some] own b(1) by (simp add: owner_of_def)
  qed
qed

lemma tree_ok_minted:
  assumes "tree_ok base s" "name_token n s = None" "subname_records (rt_registry s) n = None"
    "nft_mint m receiver (0, n) metadata default_token_data (rt_nft s) = Inr st"
    "tokens st (0, base) = Some bi" "rt_nft s1 = rt_nft s" "rt_registry s1 = rt_registry s"
  shows "tree_ok base (minted s1 st base n receiver bi)"
proof -
  let ?s' = "minted s1 st base n receiver bi" and ?r = "rt_registry s"
  have t: "nft_wf (rt_nft s)" "deleg_ok ?r" "roots_ok base s" "counters_ok base s"
    using assms(1) by (simp_all add: tree_ok_def)
  have nb: "n \<noteq> base"
    using t(3) assms(2) by (auto simp: roots_ok_def)
  have toks: "tokens st = (tokens (rt_nft s))((0, n) \<mapsto>
      \<lparr>ti_metadata = metadata, ti_owner = receiver, ti_data = default_token_data\<rparr>)"
    using assms(4) by (auto simp: nft_mint_iff)
  have tok: "name_token p ?s' = (if p = n then
        Some \<lparr>ti_metadata = metadata, ti_owner = receiver, ti_data = default_token_data\<rparr>
      else if p = base then Some (bi\<lparr>ti_data := (ti_data bi)\<lparr>td_children := td_children (ti_data bi) + 1\<rparr>\<rparr>)
      else name_token p s)" for p
    using nb toks assms(5) by (auto simp: minted_def origin_insert_def held_insert_def) (simp add: name_token_def)
  have r': "rt_registry ?s' = ?r
     \<lparr>account_to_subnames := dm_insert receiver n () (account_to_subnames ?r),
      runtime_origin := (runtime_origin ?r)(n \<mapsto> Root)\<rparr>"
    by (simp add: minted_def origin_insert_def held_insert_def assms(7))
  have "nft_wf st"
    using nft_wf_mint [OF t(1) _ assms(4)] assms(2) by (simp add: nft_owner_of_def name_token_def)
  then have "nft_wf (rt_nft ?s')"
    using nft_wf_put_children [of "held_insert receiver n (upd_nft (\<lambda>_. st) s1)" base bi] assms(5)
    by (simp add: minted_def origin_insert_def held_insert_def)
  moreover have "deleg_ok (rt_registry ?s')"
    using t(2) assms(3) by (auto simp: deleg_defs r' dm_contains_simps)
  moreover have "roots_ok base ?s'"
    using t(3) nb assms(2,3) by (auto simp: roots_ok_def tok r')
  moreover have "counters_ok base ?s'"
    using t(3,4) assms(2) by (auto simp: counters_ok_def roots_ok_def tok r' default_token_data_def)
  ultimately show ?thesis by (simp add: tree_ok_def)
qed

lemma tree_ok_reminted:
  assumes "tree_ok base s1" "n \<noteq> base" "name_token n s1 \<noteq> None"
    "nft_transfer pre_owner receiver (0, n) (rt_nft (clear_subnames n s1)) = Inr st"
  shows "tree_ok base (reminted s1 st base n pre_owner receiver)"
proof -
  let ?s2 = "clear_subnames n s1" and ?s' = "reminted s1 st base n pre_owner receiver"
  let ?r = "rt_registry ?s2"
  have t: "tree_ok base ?s2" by (rule tree_ok_clear_subnames [OF assms(1,2)])
  then have t': "nft_wf (rt_nft ?s2)" "deleg_ok ?r" "roots_ok base ?s2" "counters_ok base ?s2"
    by (simp_all add: tree_ok_def)
  have norec: "subname_records ?r n = None"
    using t' assms(3) clear_subnames_maps(5) [OF assms(1), of n n] by (auto simp: roots_ok_def)
  have tok: "map_option ti_data (name_token p ?s') = map_option ti_data (name_token p ?s2)" for p
    using assms(4) by (auto simp: nft_transfer_iff reminted_def name_token_def registry_writes)
  have tok': "name_token p ?s' = None \<longleftrightarrow> name_token p ?s2 = None" for p
    using tok [of p] by (metis option.map_disc_iff)
  have r': "rt_registry ?s' = ?r\<lparr>account_to_subnames :=
      dm_insert receiver n () (dm_remove pre_owner n (account_to_subnames ?r))\<rparr>"
    by (simp add: reminted_def registry_writes)
  have "nft_wf (rt_nft ?s')"
    using nft_wf_transfer [OF t'(1) assms(4)] by (simp add: reminted_def registry_writes)
  moreover have "deleg_ok (rt_registry ?s')"
    using t'(2) norec by (auto simp: deleg_defs r' dm_contains_simps)
  moreover have "roots_ok base ?s'"
    using t'(3) by (simp add: roots_ok_def tok' r')
  moreover have "counters_ok base ?s'"
    unfolding counters_ok_def
  proof (intro allI impI)
    fix p i assume "p \<noteq> base" "name_token p ?s' = Some i"
    moreover from this(2) obtain j where "name_token p ?s2 = Some j" "ti_data j = ti_data i"
      using tok [of p] by (cases "name_token p ?s2") auto
    ultimately show "unat (td_children (ti_data i)) = length (dm_iter (sub_names (rt_registry ?s')) p)"
      using t'(4) by (auto simp: counters_ok_def r')
  qed
  ultimately show ?thesis by (simp add: tree_ok_def)
qed

lemma tree_ok_mint:
  assumes "mint_subname c owner metadata base n receiver capacity pay s = Inr s'"
    "tree_ok base s" "payments_frame pay" "get_info base s = None"
    "subname_records (rt_registry s) n = None"
  shows "tree_ok base s'"
  using assms(1-3)
proof (cases rule: mint_base_cases)
  case (fresh s1 st bi)
  with assms show ?thesis
    using tree_ok_minted [OF assms(2) fresh(1) assms(5) fresh(3,4), of s1]
    by (auto simp: payments_frame_def)
next
  case (expired info s1 st)
  then have "n \<noteq> base"
    using assms(4) by (auto simp: is_ok_iff result_simps)
  moreover have eq: "rt_nft s1 = rt_nft s" "rt_registry s1 = rt_registry s"
    using expired(3) assms(3) by (auto simp: payments_frame_def)
  ultimately show ?thesis
    using tree_ok_reminted [OF tree_ok_cong [OF assms(2) eq] _ _ expired(4)] expired(1,5)
    by (auto simp: name_token_def eq)
qed

section \<open>What burning and transferring a name do\<close>

definition subname_of :: "'b runtime \<Rightarrow> domain_hash \<Rightarrow> domain_hash \<Rightarrow> bool" where
  "subname_of s root n \<longleftrightarrow>
     (\<exists>rec. subname_records (rt_registry s) n = Some rec \<and> sr_parent rec = root)"

lemma owner_of_frame [simp]:
  "owner_of n (upd_registry f s) = owner_of n s"
  "owner_of n (upd_registrar g s) = owner_of n s"
  "owner_of n (deposit_event e s) = owner_of n s"
  "owner_of n (s\<lparr>rt_resolvers := r\<rparr>) = owner_of n s"
  "owner_of n (cleaner_all m s) = owner_of n s"
  "owner_of n (cleaner_except_ss58 m s) = owner_of n s"
  by (simp_all add: owner_of_def)

lemma owner_of_clear_subnames:
  "tree_ok base s \<Longrightarrow> owner_of n (clear_subnames root s) = owner_of n s"
  by (simp add: owner_of_def clear_subnames_maps option.map_comp comp_def)

lemma subname_of_not_token: "tree_ok base s \<Longrightarrow> subname_of s root n \<Longrightarrow> name_token n s = None"
  by (auto simp: tree_ok_def roots_ok_def subname_of_def)

lemma do_burn_frame:
  assumes "tree_ok base s" "do_burn caller token s = Inr s'"
  shows "rt_registrar s' = rt_registrar (clear_registrar_info token s)"
    "rt_market s' = rt_market s" "rt_oracle s' = rt_oracle s" "rt_balances s' = rt_balances s"
    "rt_now s' = rt_now s" "rt_block_number s' = rt_block_number s"
    "rt_parent_hash s' = rt_parent_hash s"
    "official (rt_registry s') = official (rt_registry s)"
    "sub_names (rt_registry s') = dm_clear token (sub_names (rt_registry s))"
  using assms(2)
  by (auto simp: do_burn_iff [OF assms(1)] clear_subnames_frame [OF assms(1)] origin_remove_def
      held_remove_def clear_registrar_info_def)

lemma do_burn_effect:
  assumes "tree_ok base s" "do_burn caller token s = Inr s'"
  shows "owner_of token s = Some caller" "token \<noteq> base"
    "owner_of n s' = (if n = token then None else owner_of n s)"
    "runtime_origin (rt_registry s') n = (if n = token then None else runtime_origin (rt_registry s) n)"
    "subname_records (rt_registry s') n =
       (if subname_of s token n then None else subname_records (rt_registry s) n)"
    "get_record (rt_resolvers s') n rt =
       (if n = token \<or> subname_of s token n then [] else get_record (rt_resolvers s) n rt)"
    "get_text (rt_resolvers s') n k =
       (if n = token \<or> subname_of s token n then [] else get_text (rt_resolvers s) n k)"
proof -
  obtain info st where b: "name_token token s = Some info" "ti_owner info = caller"
    "runtime_origin (rt_registry s) token = Some Root"
    "nft_burn caller (0, token) (rt_nft (clear_subnames token s)) = Inr st"
    and s': "s' = deposit_event (Registry_TokenBurned 0 token token caller caller)
           (upd_nft (\<lambda>_. st) (cleaner_all token (origin_remove token
             (held_remove caller token (clear_registrar_info token (clear_subnames token s))))))"
    using assms(2) by (auto simp: do_burn_iff [OF assms(1)])
  show "owner_of token s = Some caller" "token \<noteq> base"
    using b(1,2) tree_root(1) [OF assms(1) b(3)] by (simp_all add: owner_of_def)
  have "tokens st = (tokens (rt_nft (clear_subnames token s)))((0, token) := None)"
    using b(4) by (auto simp: nft_burn_iff)
  then show "owner_of n s' = (if n = token then None else owner_of n s)"
    using owner_of_clear_subnames [OF assms(1), of n token] by (simp add: s' owner_of_def name_token_def)
  show "runtime_origin (rt_registry s') n = (if n = token then None else runtime_origin (rt_registry s) n)"
    by (simp add: s' origin_remove_def held_remove_def clear_registrar_info_def clear_subnames_maps [OF assms(1)])
  show "subname_records (rt_registry s') n =
       (if subname_of s token n then None else subname_records (rt_registry s) n)"
    by (auto simp: s' origin_remove_def held_remove_def clear_registrar_info_def
        clear_subnames_maps [OF assms(1)] subname_of_def split: option.splits)
  show "get_record (rt_resolvers s') n rt =
       (if n = token \<or> subname_of s token n then [] else get_record (rt_resolvers s) n rt)"
    by (auto simp: s' origin_remove_def held_remove_def clear_registrar_info_def get_record_clear_all
        clear_subnames_maps [OF assms(1)] subname_of_def)
  show "get_text (rt_resolvers s') n k =
       (if n = token \<or> subname_of s token n then [] else get_text (rt_resolvers s) n k)"
    by (auto simp: s' origin_remove_def held_remove_def clear_registrar_info_def get_text_clear_all
        clear_subnames_maps [OF assms(1)] subname_of_def)
qed

lemma do_burn_holders:
  assumes "tree_ok base s" "do_burn caller token s = Inr s'"
  shows "dm_contains (account_to_subnames (rt_registry s')) a n \<longleftrightarrow>
    dm_contains (account_to_subnames (rt_registry s)) a n \<and> \<not> (a = caller \<and> n = token)
    \<and> \<not> subname_of s token n"
proof -
  have "deleg_ok (rt_registry s)" using assms(1) by (simp add: tree_ok_def)
  then show ?thesis
    using assms(2)
    by (auto simp: do_burn_iff [OF assms(1)] origin_remove_def held_remove_def clear_registrar_info_def
        dm_contains_simps clear_subnames_indexes [OF assms(1)] subname_of_def deleg_defs)
qed

lemma do_transfer_frame:
  assumes "tree_ok base s" "do_transfer c sender receiver token s = Inr s'"
  shows "rt_registrar s' = rt_registrar s"
    "rt_market s' = rt_market s" "rt_oracle s' = rt_oracle s" "rt_balances s' = rt_balances s"
    "rt_now s' = rt_now s" "rt_block_number s' = rt_block_number s"
    "rt_parent_hash s' = rt_parent_hash s"
    "official (rt_registry s') = official (rt_registry s)"
    "sub_names (rt_registry s') = dm_clear token (sub_names (rt_registry s))"
    "account_to_subnames (rt_registry s') = account_to_subnames (rt_registry (clear_subnames token s))"
  using assms(2)
  by (auto simp: do_transfer_iff [OF assms(1)] clear_subnames_frame [OF assms(1)] update_ss58_iff
      record_origin_iff)

lemma do_transfer_effect:
  assumes "tree_ok base s" "do_transfer c sender receiver token s = Inr s'"
  shows "owner_of token s = Some sender" "token \<noteq> base"
    "is_ok (check_expires_renewable c token s)"
    "owner_of n s' = (if n = token then Some receiver else owner_of n s)"
    "runtime_origin (rt_registry s') n = runtime_origin (rt_registry s) n"
    "subname_records (rt_registry s') n =
       (if subname_of s token n then None else subname_records (rt_registry s) n)"
    "get_record (rt_resolvers s') n rt =
       (if n = token then if rt = RT_SS58 then h256_encode receiver
          else if rt = RT_ORIGIN then h256_encode (rt_parent_hash s) else []
        else if subname_of s token n then [] else get_record (rt_resolvers s) n rt)"
    "get_text (rt_resolvers s') n k =
       (if subname_of s token n then [] else get_text (rt_resolvers s) n k)"
proof -
  obtain info st s1 s2 where b: "name_token token s = Some info" "ti_owner info = sender"
    "runtime_origin (rt_registry s) token = Some Root" "is_ok (check_expires_renewable c token s)"
    "nft_transfer sender receiver (0, token) (rt_nft (clear_subnames token s)) = Inr st"
    and u: "update_ss58 c token receiver
           (cleaner_except_ss58 token (upd_nft (\<lambda>_. st) (clear_subnames token s))) = Inr s1"
      "record_origin c token (rt_parent_hash s1) s1 = Inr s2"
    and s': "s' = deposit_event (Registry_Transferred sender receiver 0 token) s2"
    using assms(2) by (auto simp: do_transfer_iff [OF assms(1)])
  have s1: "rt_nft s2 = st" "rt_registry s2 = rt_registry (clear_subnames token s)"
    "rt_parent_hash s1 = rt_parent_hash s"
    using u by (auto simp: update_ss58_iff record_origin_iff clear_subnames_frame [OF assms(1)])
  note rec = keeper.handover [OF u]
  show "owner_of token s = Some sender" "token \<noteq> base" "is_ok (check_expires_renewable c token s)"
    using b(1,2,4) tree_root(1) [OF assms(1) b(3)] by (simp_all add: owner_of_def)
  have "nft_owner_of st = (nft_owner_of (rt_nft (clear_subnames token s)))((0, token) \<mapsto> receiver)"
    using nft_owner_of_transfer [OF b(5)] by simp
  then have "nft_owner_of st (0, n) = (if n = token then Some receiver
      else nft_owner_of (rt_nft (clear_subnames token s)) (0, n))" by simp
  then show "owner_of n s' = (if n = token then Some receiver else owner_of n s)"
    using owner_of_clear_subnames [OF assms(1), of n token]
    by (simp add: s' s1 owner_of_def name_token_def nft_owner_of_def)
  show "runtime_origin (rt_registry s') n = runtime_origin (rt_registry s) n"
    by (simp add: s' s1 clear_subnames_maps [OF assms(1)])
  show "subname_records (rt_registry s') n =
       (if subname_of s token n then None else subname_records (rt_registry s) n)"
    by (auto simp: s' s1 clear_subnames_maps [OF assms(1)] subname_of_def split: option.splits)
  show "get_record (rt_resolvers s') n rt =
       (if n = token then if rt = RT_SS58 then h256_encode receiver
          else if rt = RT_ORIGIN then h256_encode (rt_parent_hash s) else []
        else if subname_of s token n then [] else get_record (rt_resolvers s) n rt)"
    using rec(1) [of n rt] by (auto simp: s' s1 clear_subnames_maps [OF assms(1)] subname_of_def)
  show "get_text (rt_resolvers s') n k =
       (if subname_of s token n then [] else get_text (rt_resolvers s) n k)"
    using rec(2) by (auto simp: s' clear_subnames_maps [OF assms(1)] subname_of_def)
qed

lemma do_transfer_holders:
  assumes "tree_ok base s" "do_transfer c sender receiver token s = Inr s'"
  shows "dm_contains (account_to_subnames (rt_registry s')) a n \<longleftrightarrow>
    dm_contains (account_to_subnames (rt_registry s)) a n \<and> \<not> subname_of s token n"
proof -
  have "deleg_ok (rt_registry s)" using assms(1) by (simp add: tree_ok_def)
  then show ?thesis
    by (auto simp: do_transfer_frame(10) [OF assms] clear_subnames_indexes [OF assms(1)]
        subname_of_def deleg_defs)
qed

end
