(* ===== verification/Price_Oracle.thy ===== *)
theory Price_Oracle
  imports Runtime_State
begin

text \<open>
  The price oracle, src/pallets/pns-registrar/src/price_oracle.rs: two tables of eleven
  prices indexed by label length, an exchange rate, and the three manager calls that set
  them.  The tables are arrays in the source; \<open>price_tables_ok\<close> records their length.
\<close>

section \<open>Operations\<close>

definition set_exchange_rate ::
  "('b, 'src) config \<Rightarrow> origin \<Rightarrow> u128 \<Rightarrow> 'b runtime \<Rightarrow> 'b runtime result" where
  "set_exchange_rate c org rate s =
     and_then (cfg_manager_origin c s org) (\<lambda>who.
       Inr (deposit_event (Oracle_ExchangeRateChanged who rate)
              (s\<lparr>rt_oracle := (rt_oracle s)\<lparr>exchange_rate := rate\<rparr>\<rparr>)))"

definition set_base_price ::
  "('b, 'src) config \<Rightarrow> origin \<Rightarrow> u128 list \<Rightarrow> 'b runtime \<Rightarrow> 'b runtime result" where
  "set_base_price c org prices s =
     and_then (cfg_manager_origin c s org) (\<lambda>_.
       Inr (deposit_event (Oracle_BasePriceChanged prices)
              (s\<lparr>rt_oracle := (rt_oracle s)\<lparr>base_price := prices\<rparr>\<rparr>)))"

definition set_rent_price ::
  "('b, 'src) config \<Rightarrow> origin \<Rightarrow> u128 list \<Rightarrow> 'b runtime \<Rightarrow> 'b runtime result" where
  "set_rent_price c org prices s =
     and_then (cfg_manager_origin c s org) (\<lambda>_.
       Inr (deposit_event (Oracle_RentPriceChanged prices)
              (s\<lparr>rt_oracle := (rt_oracle s)\<lparr>rent_price := prices\<rparr>\<rparr>)))"

definition registration_fee :: "nat \<Rightarrow> oracle_storage \<Rightarrow> u128 option" where
  "registration_fee name_len st =
     (if name_len = 0 then None
      else let base_prices = base_price st;
               idx = min (name_len - 1) (length base_prices - 1)
           in Some (base_prices ! idx))"

definition register_fee :: "nat \<Rightarrow> u64 \<Rightarrow> oracle_storage \<Rightarrow> u128 option" where
  "register_fee name_len duration st = registration_fee name_len st"

definition renew_fee :: "nat \<Rightarrow> u64 \<Rightarrow> oracle_storage \<Rightarrow> u128 option" where
  "renew_fee name_len duration st = registration_fee name_len st"

definition get_exchange_rate :: "oracle_storage \<Rightarrow> u128" where
  "get_exchange_rate st = exchange_rate st"

definition oracle_genesis_build :: "u128 list \<Rightarrow> u128 list \<Rightarrow> u128 \<Rightarrow> oracle_storage" where
  "oracle_genesis_build base_prices rent_prices init_rate =
     \<lparr>base_price = base_prices, rent_price = rent_prices, exchange_rate = init_rate\<rparr>"

section \<open>Fees\<close>

definition price_tables_ok :: "oracle_storage \<Rightarrow> bool" where
  "price_tables_ok st \<longleftrightarrow> length (base_price st) = 11 \<and> length (rent_price st) = 11"

lemma registration_fee_None_iff: "registration_fee name_len st = None \<longleftrightarrow> name_len = 0"
  by (simp add: registration_fee_def Let_def)

lemma registration_fee_Some:
  "0 < name_len \<Longrightarrow> price_tables_ok st
    \<Longrightarrow> registration_fee name_len st = Some (base_price st ! min (name_len - 1) 10)"
  by (simp add: registration_fee_def price_tables_ok_def Let_def)

lemma registration_fee_in_table:
  "registration_fee name_len st = Some fee \<Longrightarrow> price_tables_ok st \<Longrightarrow> fee \<in> set (base_price st)"
  by (auto simp: registration_fee_def price_tables_ok_def Let_def split: if_splits)

end
