(* ===== verification/Registrar.thy ===== *)
theory Registrar
  imports Registry Price_Oracle
begin

text \<open>
  The registrar pallet, src/pallets/pns-registrar/src/registrar.rs: the calls by which an
  account registers, renews, transfers and releases its one canonical name, delegates
  subnames of it, and accepts a name bought for it; the view of the registry the
  marketplace uses (\<open>NameRegistry\<close>); and the runtime's checker for the resolver's calls
  (\<open>PnsRegistryChecker\<close> of src/runtime/src/configs/mod.rs).
\<close>

section \<open>Single writes of the registrar's maps\<close>

definition primary_insert :: "account_id \<Rightarrow> domain_hash \<Rightarrow> 'b runtime \<Rightarrow> 'b runtime" where
  "primary_insert who node = upd_registrar
     (\<lambda>r. r\<lparr>owner_to_primary_name := (owner_to_primary_name r)(who \<mapsto> node)\<rparr>)"

definition primary_remove :: "account_id \<Rightarrow> 'b runtime \<Rightarrow> 'b runtime" where
  "primary_remove who = upd_registrar
     (\<lambda>r. r\<lparr>owner_to_primary_name := (owner_to_primary_name r)(who := None)\<rparr>)"

definition info_insert :: "domain_hash \<Rightarrow> registrar_info \<Rightarrow> 'b runtime \<Rightarrow> 'b runtime" where
  "info_insert node info = upd_registrar
     (\<lambda>r. r\<lparr>registrar_infos := im_insert node info (registrar_infos r)\<rparr>)"

definition offered_insert :: "domain_hash \<Rightarrow> offered_name_record \<Rightarrow> 'b runtime \<Rightarrow> 'b runtime" where
  "offered_insert node rec = upd_registrar
     (\<lambda>r. r\<lparr>offered_names := im_insert node rec (offered_names r)\<rparr>)"

definition offered_remove :: "domain_hash \<Rightarrow> 'b runtime \<Rightarrow> 'b runtime" where
  "offered_remove node = upd_registrar
     (\<lambda>r. r\<lparr>offered_names := im_remove node (offered_names r)\<rparr>)"

lemmas registrar_writes = primary_insert_def primary_remove_def info_insert_def
  offered_insert_def offered_remove_def

definition primary_name :: "account_id \<Rightarrow> 'b runtime \<Rightarrow> domain_hash option" where
  "primary_name who s = owner_to_primary_name (rt_registrar s) who"

definition offered_name :: "domain_hash \<Rightarrow> 'b runtime \<Rightarrow> offered_name_record option" where
  "offered_name node s = im_get (offered_names (rt_registrar s)) node"

definition pay_fee ::
  "('b, 'src) config \<Rightarrow> account_id \<Rightarrow> u128 \<Rightarrow> 'b runtime \<Rightarrow> 'b runtime result" where
  "pay_fee c who fee s =
     and_then (cfg_withdraw c who fee (rt_balances s)) (\<lambda>b. Inr (s\<lparr>rt_balances := b\<rparr>))"

text \<open>The guard that an account about to receive a name holds none; a stale entry is dropped.\<close>

definition drop_stale_primary ::
  "('b, 'src) config \<Rightarrow> account_id \<Rightarrow> 'b runtime \<Rightarrow> 'b runtime result" where
  "drop_stale_primary c who s =
     (case primary_name who s of
        None \<Rightarrow> Inr s
      | Some existing \<Rightarrow>
          if still_valid c existing s then Inl (RegistrarError Registrar_AlreadyHasCanonicalName)
          else Inr (primary_remove who s))"

definition ensure_no_subname :: "account_id \<Rightarrow> 'b runtime \<Rightarrow> unit result" where
  "ensure_no_subname who s =
     ensure (\<not> has_active_subname who s) (RegistrarError Registrar_AlreadyHoldsSubdomain)"

section \<open>Labels\<close>

definition label_node_under ::
  "('b, 'src) config \<Rightarrow> u8 list \<Rightarrow> domain_hash \<Rightarrow> (domain_hash \<times> nat) result" where
  "label_node_under c name parent =
     and_then (ok_or (label_new_with_len (cfg_keccak c) name)
       (RegistrarError Registrar_ParseLabelFailed)) (\<lambda>(lbl, len).
       Inr (encode_with_node (cfg_keccak c) lbl parent, len))"

section \<open>Reserved names\<close>

definition add_reserved ::
  "('b, 'src) config \<Rightarrow> origin \<Rightarrow> u8 list \<Rightarrow> 'b runtime \<Rightarrow> 'b runtime result" where
  "add_reserved c org name s =
     and_then (cfg_manager_origin c s org) (\<lambda>_.
     and_then (label_node_under c name (cfg_base_node c)) (\<lambda>(node, _).
       Inr (deposit_event (Registrar_NameReserved node)
         (upd_registrar (\<lambda>r. r\<lparr>reserved_list := (reserved_list r)(node \<mapsto> ())\<rparr>) s))))"

definition remove_reserved ::
  "('b, 'src) config \<Rightarrow> origin \<Rightarrow> u8 list \<Rightarrow> 'b runtime \<Rightarrow> 'b runtime result" where
  "remove_reserved c org name s =
     and_then (cfg_manager_origin c s org) (\<lambda>_.
     and_then (label_node_under c name (cfg_base_node c)) (\<lambda>(node, _).
       Inr (deposit_event (Registrar_NameUnReserved node)
         (upd_registrar (\<lambda>r. r\<lparr>reserved_list := (reserved_list r)(node := None)\<rparr>) s))))"

section \<open>Register\<close>

definition reject_pending ::
  "('b, 'src) config \<Rightarrow> account_id \<Rightarrow> u8 list option \<Rightarrow> 'b runtime \<Rightarrow> 'b runtime result" where
  "reject_pending c caller reject_offer s =
     (case reject_offer of
        None \<Rightarrow> Inr s
      | Some reject_name \<Rightarrow>
          and_then (ok_or (parse_name_to_node (cfg_keccak c) reject_name (cfg_base_node c))
            (RegistrarError Registrar_ParseLabelFailed)) (\<lambda>rej_node.
          case offered_name rej_node s of
            Some offer \<Rightarrow>
              and_then (ensure (on_recipient offer = caller)
                (RegistrarError Registrar_NotOfferedNameRecipient)) (\<lambda>_.
              and_then (do_burn caller rej_node (offered_remove rej_node s)) (\<lambda>s.
                Inr (deposit_event (Registrar_OfferedNameRejected rej_node caller) s)))
          | None \<Rightarrow>
              and_then (map_err (\<lambda>_. RegistrarError Registrar_OfferedNameNotFound)
                (revoke_pending_offer_for_target rej_node caller s)) (\<lambda>s.
                Inr (deposit_event (Registrar_OfferedNameRejected rej_node caller) s))))"

definition forget_pre_owner :: "domain_hash \<Rightarrow> account_id option \<Rightarrow> 'b runtime \<Rightarrow> 'b runtime" where
  "forget_pre_owner label_node maybe_pre_owner s =
     (case maybe_pre_owner of
        None \<Rightarrow> s
      | Some pre_owner \<Rightarrow>
          if primary_name pre_owner s = Some label_node then primary_remove pre_owner s else s)"

definition registered_info ::
  "('b, 'src) config \<Rightarrow> nat \<Rightarrow> u64 \<Rightarrow> u128 \<Rightarrow> u32 \<Rightarrow> registrar_info option \<Rightarrow> registrar_info" where
  "registered_info c label_len expire fee current_block old =
     (case old of
        Some info \<Rightarrow> info\<lparr>ri_register_fee := fee, ri_expire := expire,
          ri_label_len := of_nat label_len, ri_last_block := current_block\<rparr>
      | None \<Rightarrow> \<lparr>ri_expire = expire, ri_capacity = cfg_default_capacity c, ri_register_fee = fee,
          ri_label_len = of_nat label_len, ri_last_block = current_block\<rparr>)"

definition register_payments ::
  "('b, 'src) config \<Rightarrow> account_id \<Rightarrow> domain_hash \<Rightarrow> nat \<Rightarrow> u64 \<Rightarrow> u128 \<Rightarrow> account_id option
    \<Rightarrow> 'b runtime \<Rightarrow> 'b runtime result" where
  "register_payments c caller label_node label_len expire fee maybe_pre_owner s =
     (let s = forget_pre_owner label_node maybe_pre_owner s in
      and_then (pay_fee c caller fee s) (\<lambda>s.
        Inr (info_insert label_node
          (registered_info c label_len expire fee (rt_block_number s) (get_info label_node s)) s)))"

definition register ::
  "('b, 'src) config \<Rightarrow> origin \<Rightarrow> u8 list \<Rightarrow> 'src \<Rightarrow> u8 list option \<Rightarrow> 'b runtime \<Rightarrow> 'b runtime result"
  where
  "register c org name owner reject_offer s =
     and_then (ensure_signed org) (\<lambda>caller.
     and_then (cfg_lookup c owner) (\<lambda>owner.
     and_then (reject_pending c caller reject_offer s) (\<lambda>s.
     and_then (ensure (name \<noteq> []) (RegistrarError Registrar_LabelInvalid)) (\<lambda>_.
     and_then (ensure (cfg_is_open c s) (RegistrarError Registrar_RegistrarClosed)) (\<lambda>_.
     and_then (label_node_under c name (cfg_base_node c)) (\<lambda>(label_node, label_len).
     and_then (ensure (is_registrable label_len) (RegistrarError Registrar_LabelInvalid)) (\<lambda>_.
     and_then (get_official_account s) (\<lambda>official.
     and_then (ok_or (checked_add (rt_now s) (cfg_max_registration_duration c)) ArithmeticOverflow)
       (\<lambda>expire.
     and_then (ensure (reserved_list (rt_registrar s) label_node = None)
       (RegistrarError Registrar_Frozen)) (\<lambda>_.
     and_then (drop_stale_primary c owner s) (\<lambda>s.
     and_then (ensure_no_subname owner s) (\<lambda>_.
     and_then (ok_or (registration_fee label_len (rt_oracle s)) ArithmeticOverflow) (\<lambda>fee.
     and_then (mint_subname c official [] (cfg_base_node c) label_node owner 0
       (register_payments c caller label_node label_len expire fee) s) (\<lambda>s.
     and_then (update_ss58 c label_node owner (primary_insert owner label_node s)) (\<lambda>s.
     and_then (record_origin c label_node (rt_parent_hash s) s) (\<lambda>s.
       Inr (deposit_event
              (Registrar_NameRegistered name label_node owner expire fee) s)))))))))))))))))"

section \<open>Renew, transfer, release\<close>

definition renew :: "('b, 'src) config \<Rightarrow> origin \<Rightarrow> 'b runtime \<Rightarrow> 'b runtime result" where
  "renew c org s =
     and_then (ensure_signed org) (\<lambda>caller.
     and_then (ensure (cfg_is_open c s) (RegistrarError Registrar_RegistrarClosed)) (\<lambda>_.
     and_then (ok_or (primary_name caller s) (RegistrarError Registrar_NoCanonicalName)) (\<lambda>label_node.
     and_then (ok_or (get_info label_node s) (RegistrarError Registrar_NotExistOrOccupied)) (\<lambda>info.
     and_then (ensure (rt_now s \<le> ri_expire info + cfg_grace_period c)
       (RegistrarError Registrar_NotRenewable)) (\<lambda>_.
     and_then (ok_or (registration_fee (unat (ri_label_len info)) (rt_oracle s)) ArithmeticOverflow)
       (\<lambda>price.
     and_then (pay_fee c caller price s) (\<lambda>s.
     and_then (ok_or (checked_add (rt_now s) (cfg_max_registration_duration c)) ArithmeticOverflow)
       (\<lambda>expire.
       Inr (deposit_event (Registrar_NameRenewed label_node caller expire price)
              (info_insert label_node (info\<lparr>ri_expire := expire\<rparr>) s))))))))))"

definition transfer ::
  "('b, 'src) config \<Rightarrow> origin \<Rightarrow> 'src \<Rightarrow> 'b runtime \<Rightarrow> 'b runtime result" where
  "transfer c org receiver s =
     and_then (ensure_signed org) (\<lambda>who.
     and_then (cfg_lookup c receiver) (\<lambda>receiver.
     and_then (ensure (cfg_is_open c s) (RegistrarError Registrar_RegistrarClosed)) (\<lambda>_.
     and_then (ok_or (primary_name who s) (RegistrarError Registrar_NoCanonicalName)) (\<lambda>node.
     and_then (case get_info node s of
         None \<Rightarrow> Inr ()
       | Some info \<Rightarrow> ensure (ri_expire info + cfg_grace_period c > rt_now s)
           (RegistrarError Registrar_NotOwned)) (\<lambda>_.
     and_then (drop_stale_primary c receiver s) (\<lambda>s.
     and_then (ensure_no_subname receiver s) (\<lambda>_.
     and_then (do_transfer c who receiver node s) (\<lambda>s.
       Inr (primary_insert receiver node (primary_remove who s))))))))))"

definition release_name :: "origin \<Rightarrow> 'b runtime \<Rightarrow> 'b runtime result" where
  "release_name org s =
     and_then (ensure_signed org) (\<lambda>caller.
     and_then (ok_or (primary_name caller s) (RegistrarError Registrar_NoCanonicalName)) (\<lambda>node.
       do_burn caller node (primary_remove caller s)))"

section \<open>Subdomain calls\<close>

definition ensure_parent_live :: "domain_hash \<Rightarrow> 'b runtime \<Rightarrow> registrar_info result" where
  "ensure_parent_live parent_node s =
     and_then (ok_or (get_info parent_node s) (RegistrarError Registrar_NotExistOrOccupied)) (\<lambda>info.
     and_then (ensure (rt_now s < ri_expire info) (RegistrarError Registrar_NotUseable)) (\<lambda>_.
       Inr info))"

definition offer_subdomain ::
  "('b, 'src) config \<Rightarrow> origin \<Rightarrow> u8 list \<Rightarrow> 'src \<Rightarrow> 'b runtime \<Rightarrow> 'b runtime result" where
  "offer_subdomain c org lbl target s =
     and_then (ensure_signed org) (\<lambda>caller.
     and_then (cfg_lookup c target) (\<lambda>target.
     and_then (ensure (cfg_is_open c s) (RegistrarError Registrar_RegistrarClosed)) (\<lambda>_.
     and_then (ok_or (primary_name caller s) (RegistrarError Registrar_NoCanonicalName)) (\<lambda>parent_node.
     and_then (ensure_parent_live parent_node s) (\<lambda>info.
     and_then (label_node_under c lbl parent_node) (\<lambda>(label_node, _).
     and_then (ensure (length lbl \<le> 63) (RegistrarError Registrar_LabelTooLong)) (\<lambda>_.
     and_then (offer_subname parent_node label_node lbl target (ri_capacity info) s) (\<lambda>s.
       Inr (deposit_event (Registrar_SubnameOffered parent_node label_node lbl target) s)))))))))"

definition sub_node ::
  "('b, 'src) config \<Rightarrow> u8 list \<Rightarrow> u8 list \<Rightarrow> (domain_hash \<times> domain_hash) result" where
  "sub_node c parent lbl =
     and_then (label_node_under c parent (cfg_base_node c)) (\<lambda>(parent_node, _).
     and_then (label_node_under c lbl parent_node) (\<lambda>(label_node, _).
       Inr (parent_node, label_node)))"

definition accept_subdomain ::
  "('b, 'src) config \<Rightarrow> origin \<Rightarrow> u8 list \<Rightarrow> u8 list \<Rightarrow> 'b runtime \<Rightarrow> 'b runtime result" where
  "accept_subdomain c org parent lbl s =
     and_then (ensure_signed org) (\<lambda>caller.
     and_then (sub_node c parent lbl) (\<lambda>(parent_node, label_node).
     and_then (ensure_parent_live parent_node s) (\<lambda>_.
     and_then (accept_subname_offer c label_node caller s) (\<lambda>(_, s).
     and_then (update_ss58 c label_node caller s) (\<lambda>s.
       Inr (deposit_event (Registrar_SubnameAccepted label_node caller) s))))))"

definition reject_subdomain ::
  "('b, 'src) config \<Rightarrow> origin \<Rightarrow> u8 list \<Rightarrow> u8 list \<Rightarrow> 'b runtime \<Rightarrow> 'b runtime result" where
  "reject_subdomain c org parent lbl s =
     and_then (ensure_signed org) (\<lambda>caller.
     and_then (sub_node c parent lbl) (\<lambda>(_, label_node).
     and_then (reject_subname_offer label_node caller s) (\<lambda>s.
       Inr (deposit_event (Registrar_SubnameRejected label_node caller) s))))"

definition revoke_subdomain ::
  "('b, 'src) config \<Rightarrow> origin \<Rightarrow> u8 list \<Rightarrow> 'b runtime \<Rightarrow> 'b runtime result" where
  "revoke_subdomain c org lbl s =
     and_then (ensure_signed org) (\<lambda>caller.
     and_then (ok_or (primary_name caller s) (RegistrarError Registrar_NoCanonicalName)) (\<lambda>parent_node.
     and_then (label_node_under c lbl parent_node) (\<lambda>(label_node, _).
     and_then (revoke_subname parent_node label_node s) (\<lambda>s.
       Inr (deposit_event (Registrar_SubnameRevoked label_node parent_node) s)))))"

definition release_subdomain ::
  "('b, 'src) config \<Rightarrow> origin \<Rightarrow> u8 list \<Rightarrow> u8 list \<Rightarrow> 'b runtime \<Rightarrow> 'b runtime result" where
  "release_subdomain c org parent lbl s =
     and_then (ensure_signed org) (\<lambda>caller.
     and_then (sub_node c parent lbl) (\<lambda>(_, label_node).
     and_then (release_subname label_node caller s) (\<lambda>(parent_from_record, s).
       Inr (deposit_event (Registrar_SubnameReleased label_node parent_from_record) s))))"

section \<open>Names bought for another account\<close>

definition accept_offered_name ::
  "('b, 'src) config \<Rightarrow> origin \<Rightarrow> u8 list \<Rightarrow> 'b runtime \<Rightarrow> 'b runtime result" where
  "accept_offered_name c org name s =
     and_then (ensure_signed org) (\<lambda>caller.
     and_then (label_node_under c name (cfg_base_node c)) (\<lambda>(node, _).
     and_then (ok_or (offered_name node s) (RegistrarError Registrar_OfferedNameNotFound)) (\<lambda>offer.
     let s = offered_remove node s in
     and_then (ensure (on_recipient offer = caller)
       (RegistrarError Registrar_NotOfferedNameRecipient)) (\<lambda>_.
     and_then (ensure_parent_live node s) (\<lambda>_.
     and_then (drop_stale_primary c caller s) (\<lambda>s.
     and_then (ensure_no_subname caller s) (\<lambda>_.
     and_then (update_ss58 c node caller (primary_insert caller node s)) (\<lambda>s.
     and_then (record_origin c node (rt_parent_hash s) s) (\<lambda>s.
       Inr (deposit_event (Registrar_OfferedNameAccepted node caller) s))))))))))"

section \<open>Redeem codes\<close>

definition redeemed_info ::
  "('b, 'src) config \<Rightarrow> u8 list \<Rightarrow> u64 \<Rightarrow> u32 \<Rightarrow> registrar_info option \<Rightarrow> registrar_info" where
  "redeemed_info c name expire current_block old =
     (case old of
        Some info \<Rightarrow> info\<lparr>ri_register_fee := 0, ri_expire := expire, ri_last_block := current_block\<rparr>
      | None \<Rightarrow> \<lparr>ri_expire = expire, ri_capacity = cfg_default_capacity c, ri_register_fee = 0,
          ri_label_len = of_nat (length name), ri_last_block = current_block\<rparr>)"

definition redeem_payments ::
  "('b, 'src) config \<Rightarrow> u8 list \<Rightarrow> domain_hash \<Rightarrow> u64 \<Rightarrow> account_id option
    \<Rightarrow> 'b runtime \<Rightarrow> 'b runtime result" where
  "redeem_payments c name label_node expire maybe_pre_owner s =
     (let s = forget_pre_owner label_node maybe_pre_owner s in
      Inr (info_insert label_node
        (redeemed_info c name expire (rt_block_number s) (get_info label_node s)) s))"

definition for_redeem_code ::
  "('b, 'src) config \<Rightarrow> u8 list \<Rightarrow> account_id \<Rightarrow> u64 \<Rightarrow> label \<Rightarrow> 'b runtime \<Rightarrow> 'b runtime result" where
  "for_redeem_code c name receiver duration lbl s =
     and_then (get_official_account s) (\<lambda>official.
     let duration = min duration (cfg_max_registration_duration c) in
     and_then (ok_or (checked_add (rt_now s) duration) ArithmeticOverflow) (\<lambda>expire.
     and_then (ensure (expire + cfg_grace_period c > rt_now s + cfg_grace_period c) ArithmeticOverflow)
       (\<lambda>_.
     and_then (drop_stale_primary c receiver s) (\<lambda>s.
     and_then (ensure_no_subname receiver s) (\<lambda>_.
     let label_node = encode_with_node (cfg_keccak c) lbl (cfg_base_node c) in
     and_then (mint_subname c official [] (cfg_base_node c) label_node receiver 0
       (redeem_payments c name label_node expire) s) (\<lambda>s.
     and_then (record_origin c label_node (rt_parent_hash s) (primary_insert receiver label_node s)) (\<lambda>s.
       Inr (deposit_event (Registrar_NameRegistered name label_node receiver expire 0) s))))))))"

section \<open>The marketplace's view\<close>

definition transfer_name ::
  "('b, 'src) config \<Rightarrow> account_id \<Rightarrow> account_id \<Rightarrow> domain_hash \<Rightarrow> 'b runtime \<Rightarrow> 'b runtime result"
  where
  "transfer_name c sender receiver node s =
     and_then (drop_stale_primary c receiver s) (\<lambda>s.
     and_then (ensure_no_subname receiver s) (\<lambda>_.
     and_then (do_transfer c sender receiver node s) (\<lambda>s.
       Inr (primary_insert receiver node
              (if primary_name sender s = Some node then primary_remove sender s else s)))))"

definition offer_bought_name ::
  "('b, 'src) config \<Rightarrow> account_id \<Rightarrow> account_id \<Rightarrow> account_id \<Rightarrow> domain_hash \<Rightarrow> 'b runtime
    \<Rightarrow> 'b runtime result" where
  "offer_bought_name c seller buyer recipient node s =
     and_then (ensure (offered_name node s = None) (RegistrarError Registrar_NameAlreadyOffered)) (\<lambda>_.
     and_then (case primary_name recipient s of
         None \<Rightarrow> Inr ()
       | Some existing \<Rightarrow> ensure (\<not> still_valid c existing s)
           (RegistrarError Registrar_AlreadyHasCanonicalName)) (\<lambda>_.
     and_then (ensure_no_subname recipient s) (\<lambda>_.
     and_then (do_transfer c seller recipient node s) (\<lambda>s.
     let s = (if primary_name seller s = Some node then primary_remove seller s else s);
         s = offered_insert node \<lparr>on_buyer = buyer, on_recipient = recipient\<rparr> s
     in Inr (deposit_event (Registrar_NameBoughtForRecipient node buyer recipient) s)))))"

section \<open>The resolver's checker and the registrar's genesis\<close>

definition check_node_useable :: "domain_hash \<Rightarrow> account_id \<Rightarrow> 'b runtime \<Rightarrow> bool" where
  "check_node_useable node owner s =
     (if \<not> is_ok (verify owner node s) then False
      else case get_info node s of
        None \<Rightarrow> True
      | Some _ \<Rightarrow> is_ok (check_expires_useable node s))"

definition registrar_all :: "'b runtime \<Rightarrow> (domain_hash \<times> registrar_info) list" where
  "registrar_all s = registrar_infos (rt_registrar s)"

definition registrar_genesis_build ::
  "('b, 'src) config \<Rightarrow> (domain_hash \<times> registrar_info) list \<Rightarrow> domain_hash list \<Rightarrow> u8 list list
    \<Rightarrow> registrar_storage" where
  "registrar_genesis_build c infos reserved names =
     (let st = \<lparr>registrar_infos = foldl (\<lambda>m (node, info). im_insert node info m) [] infos,
                reserved_list = foldl (\<lambda>m node. m(node \<mapsto> ())) Map.empty reserved,
                owner_to_primary_name = Map.empty, offered_names = []\<rparr>
      in foldl (\<lambda>st name.
           case parse_name_to_node (cfg_keccak c) name (cfg_base_node c) of
             None \<Rightarrow> st
           | Some node \<Rightarrow> st\<lparr>reserved_list := (reserved_list st)(node \<mapsto> ())\<rparr>) st names)"

section \<open>Frames\<close>

lemma registrar_writes_sel [simp]:
  "rt_nft (primary_insert a n s) = rt_nft s" "rt_nft (primary_remove a s) = rt_nft s"
  "rt_nft (info_insert n i s) = rt_nft s" "rt_nft (offered_insert n r s) = rt_nft s"
  "rt_nft (offered_remove n s) = rt_nft s"
  "rt_registry (primary_insert a n s) = rt_registry s" "rt_registry (primary_remove a s) = rt_registry s"
  "rt_registry (info_insert n i s) = rt_registry s" "rt_registry (offered_insert n r s) = rt_registry s"
  "rt_registry (offered_remove n s) = rt_registry s"
  "rt_resolvers (primary_insert a n s) = rt_resolvers s" "rt_resolvers (primary_remove a s) = rt_resolvers s"
  "rt_resolvers (info_insert n i s) = rt_resolvers s" "rt_resolvers (offered_insert n r s) = rt_resolvers s"
  "rt_resolvers (offered_remove n s) = rt_resolvers s"
  "rt_market (primary_insert a n s) = rt_market s" "rt_market (primary_remove a s) = rt_market s"
  "rt_market (info_insert n i s) = rt_market s" "rt_market (offered_insert n r s) = rt_market s"
  "rt_market (offered_remove n s) = rt_market s"
  "rt_oracle (primary_insert a n s) = rt_oracle s" "rt_oracle (primary_remove a s) = rt_oracle s"
  "rt_oracle (info_insert n i s) = rt_oracle s" "rt_oracle (offered_insert n r s) = rt_oracle s"
  "rt_oracle (offered_remove n s) = rt_oracle s"
  "rt_balances (primary_insert a n s) = rt_balances s" "rt_balances (primary_remove a s) = rt_balances s"
  "rt_balances (info_insert n i s) = rt_balances s" "rt_balances (offered_insert n r s) = rt_balances s"
  "rt_balances (offered_remove n s) = rt_balances s"
  "rt_now (primary_insert a n s) = rt_now s" "rt_now (primary_remove a s) = rt_now s"
  "rt_now (info_insert n i s) = rt_now s" "rt_now (offered_insert n r s) = rt_now s"
  "rt_now (offered_remove n s) = rt_now s"
  "rt_block_number (primary_insert a n s) = rt_block_number s"
  "rt_block_number (primary_remove a s) = rt_block_number s"
  "rt_block_number (info_insert n i s) = rt_block_number s"
  "rt_block_number (offered_insert n r s) = rt_block_number s"
  "rt_block_number (offered_remove n s) = rt_block_number s"
  "rt_parent_hash (primary_insert a n s) = rt_parent_hash s"
  "rt_parent_hash (primary_remove a s) = rt_parent_hash s"
  "rt_parent_hash (info_insert n i s) = rt_parent_hash s"
  "rt_parent_hash (offered_insert n r s) = rt_parent_hash s"
  "rt_parent_hash (offered_remove n s) = rt_parent_hash s"
  by (simp_all add: registrar_writes)

lemma primary_name_simps [simp]:
  "primary_name b (primary_insert a n s) = (if b = a then Some n else primary_name b s)"
  "primary_name b (primary_remove a s) = (if b = a then None else primary_name b s)"
  "primary_name b (info_insert n i s) = primary_name b s"
  "primary_name b (offered_insert n r s) = primary_name b s"
  "primary_name b (offered_remove n s) = primary_name b s"
  "primary_name b (deposit_event e s) = primary_name b s"
  by (simp_all add: primary_name_def registrar_writes)

lemma get_info_simps [simp]:
  "get_info m (primary_insert a n s) = get_info m s" "get_info m (primary_remove a s) = get_info m s"
  "get_info m (info_insert n i s) = (if m = n then Some i else get_info m s)"
  "get_info m (offered_insert n r s) = get_info m s" "get_info m (offered_remove n s) = get_info m s"
  "get_info m (deposit_event e s) = get_info m s"
  "get_info m (s\<lparr>rt_balances := b\<rparr>) = get_info m s"
  "get_info m (s\<lparr>rt_resolvers := rs\<rparr>) = get_info m s"
  by (simp_all add: get_info_def registrar_writes)

lemma offered_name_simps [simp]:
  "offered_name m (primary_insert a n s) = offered_name m s"
  "offered_name m (primary_remove a s) = offered_name m s"
  "offered_name m (info_insert n i s) = offered_name m s"
  "offered_name m (offered_insert n r s) = (if m = n then Some r else offered_name m s)"
  "offered_name m (offered_remove n s) = (if m = n then None else offered_name m s)"
  "offered_name m (deposit_event e s) = offered_name m s"
  by (simp_all add: offered_name_def registrar_writes)

lemma registrar_cong:
  assumes "rt_registrar s' = rt_registrar s"
  shows "primary_name a s' = primary_name a s" "get_info n s' = get_info n s"
    "offered_name n s' = offered_name n s"
  using assms by (simp_all add: primary_name_def get_info_def offered_name_def)

lemma pay_fee_iff [result_simps]:
  "pay_fee c who fee s = Inr s' \<longleftrightarrow>
     (\<exists>b. cfg_withdraw c who fee (rt_balances s) = Inr b \<and> s' = s\<lparr>rt_balances := b\<rparr>)"
  by (auto simp: pay_fee_def result_simps)

lemma ensure_no_subname_iff [result_simps]:
  "ensure_no_subname who s = Inr u \<longleftrightarrow> \<not> has_active_subname who s"
  by (simp add: ensure_no_subname_def result_simps)

lemma drop_stale_primary_iff:
  "drop_stale_primary c who s = Inr s' \<longleftrightarrow>
     \<not> has_valid_canonical_name c who s
     \<and> s' = (if primary_name who s = None then s else primary_remove who s)"
  by (auto simp: drop_stale_primary_def has_valid_canonical_name_def primary_name_def split: option.splits)

lemma ensure_parent_live_iff [result_simps]:
  "ensure_parent_live n s = Inr info \<longleftrightarrow> get_info n s = Some info \<and> rt_now s < ri_expire info"
  by (auto simp: ensure_parent_live_def result_simps)

lemma get_official_iff [result_simps]:
  "get_official_account s = Inr a \<longleftrightarrow> official (rt_registry s) = Some a"
  by (simp add: get_official_account_def result_simps)

section \<open>Labels\<close>

definition name_node :: "('b, 'src) config \<Rightarrow> u8 list \<Rightarrow> domain_hash \<Rightarrow> domain_hash" where
  "name_node c name parent = cfg_keccak c (h256_encode parent
     @ h256_encode (cfg_keccak c (to_ascii_lowercase name)))"

lemma label_node_under_iff [result_simps]:
  "label_node_under c name parent = Inr (node, len) \<longleftrightarrow>
     label_bytes name \<and> node = name_node c name parent \<and> len = length name"
  by (auto simp: label_node_under_def result_simps label_new_with_len_eq encode_with_node_def name_node_def
      split: if_splits)

lemma label_node_under_eq:
  "label_node_under c name parent =
     (if label_bytes name then Inr (name_node c name parent, length name)
      else Inl (RegistrarError Registrar_ParseLabelFailed))"
  by (auto simp: label_node_under_def label_new_with_len_eq encode_with_node_def name_node_def
      result_simps ok_or_def)

lemma sub_node_iff [result_simps]:
  "sub_node c parent lbl = Inr (p, n) \<longleftrightarrow> label_bytes parent \<and> label_bytes lbl
     \<and> p = name_node c parent (cfg_base_node c) \<and> n = name_node c lbl p"
  by (auto simp: sub_node_def result_simps)

section \<open>Payments\<close>

lemma forget_pre_owner_eq:
  "forget_pre_owner n who s =
     (if \<exists>a. who = Some a \<and> primary_name a s = Some n then primary_remove (the who) s else s)"
  by (auto simp: forget_pre_owner_def split: option.splits)

lemma register_payments_iff:
  "register_payments c caller n len expire fee who s = Inr s' \<longleftrightarrow>
     (\<exists>b. cfg_withdraw c caller fee (rt_balances s) = Inr b
        \<and> s' = info_insert n (registered_info c len expire fee (rt_block_number s) (get_info n s))
            ((forget_pre_owner n who s)\<lparr>rt_balances := b\<rparr>))"
  by (auto simp: register_payments_def result_simps Let_def forget_pre_owner_eq)

lemma redeem_payments_eq:
  "redeem_payments c name n expire who s = Inr (info_insert n
     (redeemed_info c name expire (rt_block_number s) (get_info n s)) (forget_pre_owner n who s))"
  by (simp add: redeem_payments_def Let_def forget_pre_owner_eq)

lemma register_payments_frame: "payments_frame (register_payments c caller n len expire fee)"
  by (auto simp: payments_frame_def register_payments_iff forget_pre_owner_eq)

lemma redeem_payments_frame: "payments_frame (redeem_payments c name n expire)"
  by (auto simp: payments_frame_def redeem_payments_def Let_def forget_pre_owner_eq)

section \<open>The calls, by their successful runs\<close>

lemma register_cases:
  assumes "register c org name src rej s = Inr s'"
  obtains caller owner s0 s1 s2 s3 s4 off expire fee where
    "org = Origin_Signed caller" "cfg_lookup c src = Inr owner" "reject_pending c caller rej s = Inr s0"
    "cfg_is_open c s0" "label_bytes name" "official (rt_registry s0) = Some off"
    "checked_add (rt_now s0) (cfg_max_registration_duration c) = Some expire"
    "reserved_list (rt_registrar s0) (name_node c name (cfg_base_node c)) = None"
    "drop_stale_primary c owner s0 = Inr s1" "\<not> has_active_subname owner s1"
    "registration_fee (length name) (rt_oracle s1) = Some fee"
    "mint_subname c off [] (cfg_base_node c) (name_node c name (cfg_base_node c)) owner 0
       (register_payments c caller (name_node c name (cfg_base_node c)) (length name) expire fee) s1 = Inr s2"
    "update_ss58 c (name_node c name (cfg_base_node c)) owner
       (primary_insert owner (name_node c name (cfg_base_node c)) s2) = Inr s3"
    "record_origin c (name_node c name (cfg_base_node c)) (rt_parent_hash s3) s3 = Inr s4"
    "s' = deposit_event (Registrar_NameRegistered name (name_node c name (cfg_base_node c)) owner expire fee) s4"
  using assms unfolding register_def by (auto simp: result_simps split: prod.splits)

lemma transfer_cases:
  assumes "transfer c org src s = Inr s'"
  obtains who receiver node s1 s2 where
    "org = Origin_Signed who" "cfg_lookup c src = Inr receiver" "cfg_is_open c s"
    "primary_name who s = Some node"
    "\<forall>info. get_info node s = Some info \<longrightarrow> rt_now s < ri_expire info + cfg_grace_period c"
    "drop_stale_primary c receiver s = Inr s1" "\<not> has_active_subname receiver s1"
    "do_transfer c who receiver node s1 = Inr s2"
    "s' = primary_insert receiver node (primary_remove who s2)"
  using assms unfolding transfer_def by (auto simp: result_simps split: option.splits)

lemma renew_iff:
  "renew c org s = Inr s' \<longleftrightarrow>
     (\<exists>caller node info price b expire. org = Origin_Signed caller \<and> cfg_is_open c s
        \<and> primary_name caller s = Some node \<and> get_info node s = Some info
        \<and> rt_now s \<le> ri_expire info + cfg_grace_period c
        \<and> registration_fee (unat (ri_label_len info)) (rt_oracle s) = Some price
        \<and> cfg_withdraw c caller price (rt_balances s) = Inr b
        \<and> checked_add (rt_now s) (cfg_max_registration_duration c) = Some expire
        \<and> s' = deposit_event (Registrar_NameRenewed node caller expire price)
                (info_insert node (info\<lparr>ri_expire := expire\<rparr>) (s\<lparr>rt_balances := b\<rparr>)))"
  unfolding renew_def by (auto simp: result_simps)

lemma release_name_iff:
  "release_name org s = Inr s' \<longleftrightarrow>
     (\<exists>caller node. org = Origin_Signed caller \<and> primary_name caller s = Some node
        \<and> do_burn caller node (primary_remove caller s) = Inr s')"
  unfolding release_name_def by (auto simp: result_simps)

lemma accept_offered_name_cases:
  assumes "accept_offered_name c org name s = Inr s'"
  obtains caller offer info s1 s2 s3 where
    "org = Origin_Signed caller" "label_bytes name"
    "offered_name (name_node c name (cfg_base_node c)) s = Some offer" "on_recipient offer = caller"
    "get_info (name_node c name (cfg_base_node c)) s = Some info" "rt_now s < ri_expire info"
    "drop_stale_primary c caller (offered_remove (name_node c name (cfg_base_node c)) s) = Inr s1"
    "\<not> has_active_subname caller s1"
    "update_ss58 c (name_node c name (cfg_base_node c)) caller
       (primary_insert caller (name_node c name (cfg_base_node c)) s1) = Inr s2"
    "record_origin c (name_node c name (cfg_base_node c)) (rt_parent_hash s2) s2 = Inr s3"
    "s' = deposit_event (Registrar_OfferedNameAccepted (name_node c name (cfg_base_node c)) caller) s3"
  using assms unfolding accept_offered_name_def by (auto simp: result_simps Let_def split: prod.splits)

end
