(* ===== verification/Marketplace.thy ===== *)
theory Marketplace
  imports Registrar
begin

text \<open>
  The marketplace pallet, src/pallets/pns-marketplace/src/lib.rs: listings of canonical
  names, their sale to the buyer, and their sale to the buyer as a gift that a recipient has
  to accept.  The price moves to the seller and a share of it, in basis points, is burned
  from the seller's account.
\<close>

section \<open>Operations\<close>

definition put_listings ::
  "((domain_hash \<rightharpoonup> listing) \<Rightarrow> (domain_hash \<rightharpoonup> listing)) \<Rightarrow> 'b runtime \<Rightarrow> 'b runtime" where
  "put_listings f s = s\<lparr>rt_market := (rt_market s)\<lparr>listings := f (listings (rt_market s))\<rparr>\<rparr>"

definition create_listing :: "origin \<Rightarrow> u128 \<Rightarrow> u64 \<Rightarrow> 'b runtime \<Rightarrow> 'b runtime result" where
  "create_listing org price expires_at s =
     and_then (ensure_signed org) (\<lambda>who.
     and_then (ensure (expires_at > rt_now s) (MarketError Market_ExpiryNotInFuture)) (\<lambda>_.
     and_then (ok_or (primary_name who s) (MarketError Market_NoCanonicalName)) (\<lambda>node.
     and_then (ensure (listings (rt_market s) node = None) (MarketError Market_AlreadyListed)) (\<lambda>_.
       Inr (deposit_event (Market_Listed node who price expires_at)
         (put_listings (\<lambda>l. l(node \<mapsto>
            \<lparr>ls_seller = who, ls_price = price, ls_expires_at = expires_at\<rparr>)) s))))))"

definition cancel_listing :: "origin \<Rightarrow> 'b runtime \<Rightarrow> 'b runtime result" where
  "cancel_listing org s =
     and_then (ensure_signed org) (\<lambda>who.
     and_then (ok_or (primary_name who s) (MarketError Market_NoCanonicalName)) (\<lambda>node.
     and_then (ensure (listings (rt_market s) node \<noteq> None) (MarketError Market_NotListed)) (\<lambda>_.
       Inr (deposit_event (Market_Delisted node who) (put_listings (\<lambda>l. l(node := None)) s)))))"

definition protocol_fee :: "('b, 'src) config \<Rightarrow> u128 \<Rightarrow> u128" where
  "protocol_fee c price = saturating_mul price (ucast (cfg_protocol_fee_bps c)) div 10000"

definition settle ::
  "('b, 'src) config \<Rightarrow> account_id \<Rightarrow> listing \<Rightarrow> 'b runtime \<Rightarrow> 'b runtime result" where
  "settle c buyer ls s =
     and_then (cfg_transfer c buyer (ls_seller ls) (ls_price ls) (rt_balances s)) (\<lambda>b.
     and_then (cfg_withdraw c (ls_seller ls) (protocol_fee c (ls_price ls)) b) (\<lambda>b.
       Inr (s\<lparr>rt_balances := b\<rparr>)))"

definition deliver ::
  "('b, 'src) config \<Rightarrow> domain_hash \<Rightarrow> account_id \<Rightarrow> listing \<Rightarrow> account_id option \<Rightarrow> 'b runtime
    \<Rightarrow> 'b runtime result" where
  "deliver c node buyer ls recipient s =
     (case recipient of
        Some recip \<Rightarrow>
          and_then (ensure (recip \<noteq> buyer) (MarketError Market_BuyerIsRecipient)) (\<lambda>_.
          and_then (ensure (recip \<noteq> ls_seller ls) (MarketError Market_SellerIsRecipient)) (\<lambda>_.
          and_then (offer_bought_name c (ls_seller ls) buyer recip node s) (\<lambda>s.
            Inr (deposit_event (Market_NameBoughtForRecipient node (ls_seller ls) buyer recip
                   (ls_price ls) (protocol_fee c (ls_price ls))) s))))
      | None \<Rightarrow>
          and_then (transfer_name c (ls_seller ls) buyer node s) (\<lambda>s.
          and_then (update_ss58 c node buyer (cleaner_except_ss58 node s)) (\<lambda>s.
          and_then (record_origin c node (rt_parent_hash s) s) (\<lambda>s.
            Inr (deposit_event (Market_Sold node (ls_seller ls) buyer (ls_price ls)
                   (protocol_fee c (ls_price ls))) s)))))"

definition buy_name ::
  "('b, 'src) config \<Rightarrow> origin \<Rightarrow> u8 list \<Rightarrow> account_id option \<Rightarrow> 'b runtime \<Rightarrow> 'b runtime result"
  where
  "buy_name c org name recipient s =
     and_then (ensure_signed org) (\<lambda>buyer.
     and_then (ok_or (label_new (cfg_keccak c) name) (MarketError Market_InvalidName)) (\<lambda>lbl.
     let node = encode_with_node (cfg_keccak c) lbl (cfg_base_node c) in
     and_then (ok_or (listings (rt_market s) node) (MarketError Market_NotListed)) (\<lambda>ls.
     and_then (ensure (buyer \<noteq> ls_seller ls) (MarketError Market_BuyerIsSeller)) (\<lambda>_.
     and_then (ensure (ls_expires_at ls > rt_now s) (MarketError Market_ListingExpired)) (\<lambda>_.
     and_then (ensure (Some (ls_seller ls) = owner_of node s) (MarketError Market_SellerNoLongerOwns))
       (\<lambda>_.
     and_then (settle c buyer ls s) (\<lambda>s.
       deliver c node buyer ls recipient (put_listings (\<lambda>l. l(node := None)) s))))))))"

definition get_listing_of :: "domain_hash \<Rightarrow> 'b runtime \<Rightarrow> listing option" where
  "get_listing_of node s = listings (rt_market s) node"

section \<open>The calls, by their successful runs\<close>

lemma transfer_name_iff:
  "transfer_name c sender receiver n s = Inr s' \<longleftrightarrow>
     (\<exists>s1 s2. drop_stale_primary c receiver s = Inr s1 \<and> \<not> has_active_subname receiver s1
        \<and> do_transfer c sender receiver n s1 = Inr s2
        \<and> s' = primary_insert receiver n
            (if primary_name sender s2 = Some n then primary_remove sender s2 else s2))"
  unfolding transfer_name_def by (auto simp: result_simps split del: if_split)

lemma offer_bought_name_iff:
  "offer_bought_name c seller buyer recipient n s = Inr s' \<longleftrightarrow>
     offered_name n s = None \<and> \<not> has_valid_canonical_name c recipient s
     \<and> \<not> has_active_subname recipient s
     \<and> (\<exists>s1. do_transfer c seller recipient n s = Inr s1
          \<and> s' = deposit_event (Registrar_NameBoughtForRecipient n buyer recipient)
              (offered_insert n \<lparr>on_buyer = buyer, on_recipient = recipient\<rparr>
                (if primary_name seller s1 = Some n then primary_remove seller s1 else s1)))"
  unfolding offer_bought_name_def
  by (auto simp: result_simps Let_def has_valid_canonical_name_def primary_name_def
      split: option.splits split del: if_split)

lemma settle_iff [result_simps]:
  "settle c buyer ls s = Inr s' \<longleftrightarrow>
     (\<exists>b1 b2. cfg_transfer c buyer (ls_seller ls) (ls_price ls) (rt_balances s) = Inr b1
        \<and> cfg_withdraw c (ls_seller ls) (protocol_fee c (ls_price ls)) b1 = Inr b2
        \<and> s' = s\<lparr>rt_balances := b2\<rparr>)"
  unfolding settle_def by (auto simp: result_simps)

lemma label_new_name_node:
  "label_new (cfg_keccak c) name = Some lbl \<Longrightarrow>
     label_bytes name \<and> encode_with_node (cfg_keccak c) lbl parent = name_node c name parent"
  by (auto simp: label_new_eq encode_with_node_def name_node_def split: if_splits)

lemma buy_name_cases:
  assumes "buy_name c org name recipient s = Inr s'"
  obtains buyer ls b1 b2 where "org = Origin_Signed buyer" "label_bytes name"
    "listings (rt_market s) (name_node c name (cfg_base_node c)) = Some ls"
    "buyer \<noteq> ls_seller ls" "rt_now s < ls_expires_at ls"
    "owner_of (name_node c name (cfg_base_node c)) s = Some (ls_seller ls)"
    "cfg_transfer c buyer (ls_seller ls) (ls_price ls) (rt_balances s) = Inr b1"
    "cfg_withdraw c (ls_seller ls) (protocol_fee c (ls_price ls)) b1 = Inr b2"
    "deliver c (name_node c name (cfg_base_node c)) buyer ls recipient
       (put_listings (\<lambda>l. l(name_node c name (cfg_base_node c) := None)) (s\<lparr>rt_balances := b2\<rparr>)) = Inr s'"
proof -
  obtain lbl where l: "label_new (cfg_keccak c) name = Some lbl"
    using assms by (auto simp: buy_name_def result_simps)
  note n = label_new_name_node [OF l, of "cfg_base_node c"]
  show thesis
    using assms that n l unfolding buy_name_def by (auto simp: result_simps Let_def)
qed

lemma deliver_None_iff:
  "deliver c n buyer ls None s = Inr s' \<longleftrightarrow>
     (\<exists>s2 s3 s4. transfer_name c (ls_seller ls) buyer n s = Inr s2
        \<and> update_ss58 c n buyer (cleaner_except_ss58 n s2) = Inr s3
        \<and> record_origin c n (rt_parent_hash s3) s3 = Inr s4
        \<and> s' = deposit_event (Market_Sold n (ls_seller ls) buyer
              (ls_price ls) (protocol_fee c (ls_price ls))) s4)"
  unfolding deliver_def by (auto simp: result_simps)

lemma deliver_Some_iff:
  "deliver c n buyer ls (Some recip) s = Inr s' \<longleftrightarrow>
     recip \<noteq> buyer \<and> recip \<noteq> ls_seller ls \<and>
     (\<exists>s2. offer_bought_name c (ls_seller ls) buyer recip n s = Inr s2
        \<and> s' = deposit_event (Market_NameBoughtForRecipient n (ls_seller ls) buyer recip
              (ls_price ls) (protocol_fee c (ls_price ls))) s2)"
  unfolding deliver_def by (auto simp: result_simps)

end
