(* ===== verification/Name_Invariant.thy ===== *)
theory Name_Invariant
  imports Marketplace
begin

text \<open>
  The invariant of the chain's name state, and the registry operations that keep it.

  \<open>pns_inv\<close> joins the well-formedness of the tree (Registry) with what ties the pallets
  together: the SS58 record of every owned name and of every active subname is its holder's
  account, nothing else has records, exactly the registered names have a registrar info, no
  name has more subnames than its capacity, and the official account owns the base node.
\<close>

section \<open>The invariant\<close>

definition ss58 :: "'b runtime \<Rightarrow> domain_hash \<Rightarrow> u8 list" where
  "ss58 s n = get_record (rt_resolvers s) n RT_SS58"

definition anchored :: "'b runtime \<Rightarrow> domain_hash \<Rightarrow> bool" where
  "anchored s n \<longleftrightarrow> (\<forall>a. owner_of n s = Some a \<longrightarrow> ss58 s n = h256_encode a)
     \<and> (\<forall>rec. subname_records (rt_registry s) n = Some rec \<longrightarrow> sr_state rec = Active \<longrightarrow>
          ss58 s n = h256_encode (sr_target rec))"

text \<open>Records and texts exist only at owned names and active subnames.\<close>

definition no_orphans :: "'b runtime \<Rightarrow> domain_hash \<Rightarrow> bool" where
  "no_orphans s n \<longleftrightarrow>
     (owner_of n s = None \<and>
       (\<forall>rec. subname_records (rt_registry s) n = Some rec \<longrightarrow> sr_state rec \<noteq> Active) \<longrightarrow>
      (\<forall>rt. get_record (rt_resolvers s) n rt = []) \<and> (\<forall>k. get_text (rt_resolvers s) n k = []))"

definition anchors_ok :: "domain_hash \<Rightarrow> 'b runtime \<Rightarrow> bool" where
  "anchors_ok base s \<longleftrightarrow> (\<forall>n. n \<noteq> base \<longrightarrow> anchored s n \<and> no_orphans s n)"

definition infos_ok :: "domain_hash \<Rightarrow> 'b runtime \<Rightarrow> bool" where
  "infos_ok base s \<longleftrightarrow> (\<forall>n. get_info n s \<noteq> None \<longleftrightarrow> n \<noteq> base \<and> owner_of n s \<noteq> None)"

definition capacity_ok :: "'b runtime \<Rightarrow> bool" where
  "capacity_ok s \<longleftrightarrow> (\<forall>n info. get_info n s = Some info \<longrightarrow>
     length (dm_iter (sub_names (rt_registry s)) n) \<le> unat (ri_capacity info))"

definition official_ok :: "domain_hash \<Rightarrow> 'b runtime \<Rightarrow> bool" where
  "official_ok base s \<longleftrightarrow>
     official (rt_registry s) \<noteq> None \<and> owner_of base s = official (rt_registry s)"

definition pns_inv :: "('b, 'src) config \<Rightarrow> 'b runtime \<Rightarrow> bool" where
  "pns_inv c s \<longleftrightarrow> tree_ok (cfg_base_node c) s \<and> anchors_ok (cfg_base_node c) s
     \<and> infos_ok (cfg_base_node c) s \<and> capacity_ok s \<and> official_ok (cfg_base_node c) s
     \<and> price_tables_ok (rt_oracle s)"

lemma pns_inv_parts:
  assumes "pns_inv c s"
  shows "tree_ok (cfg_base_node c) s" "anchors_ok (cfg_base_node c) s" "infos_ok (cfg_base_node c) s"
    "capacity_ok s" "official_ok (cfg_base_node c) s" "price_tables_ok (rt_oracle s)"
  using assms by (simp_all add: pns_inv_def)

text \<open>
  Calls that leave the tokens, the registry, the owners' records, the capacities and the
  prices alone keep the invariant.
\<close>

lemma pns_inv_cong:
  assumes "pns_inv c s" "rt_nft s' = rt_nft s" "rt_registry s' = rt_registry s"
    "\<And>n. ss58 s' n = ss58 s n"
    "\<And>n rt. owner_of n s = None \<Longrightarrow> get_record (rt_resolvers s') n rt = get_record (rt_resolvers s) n rt"
    "\<And>n k. owner_of n s = None \<Longrightarrow> get_text (rt_resolvers s') n k = get_text (rt_resolvers s) n k"
    "\<And>n. map_option ri_capacity (get_info n s') = map_option ri_capacity (get_info n s)"
    "price_tables_ok (rt_oracle s')"
  shows "pns_inv c s'"
proof -
  have own: "owner_of n s' = owner_of n s" for n
    using assms(2) by (simp add: owner_of_def name_token_def)
  have some: "get_info n s' = None \<longleftrightarrow> get_info n s = None" for n
    using assms(7) [of n] by (metis option.map_disc_iff)
  have "capacity_ok s'"
    unfolding capacity_ok_def
  proof (intro allI impI)
    fix n info' assume i: "get_info n s' = Some info'"
    then obtain info where "get_info n s = Some info" "ri_capacity info = ri_capacity info'"
      using assms(7) [of n] by (cases "get_info n s") auto
    then show "length (dm_iter (sub_names (rt_registry s')) n) \<le> unat (ri_capacity info')"
      using pns_inv_parts(4) [OF assms(1)] by (simp add: capacity_ok_def assms(3)) metis
  qed
  then show ?thesis
    using assms(1,8) tree_ok_cong [OF _ assms(2,3)]
    by (simp add: pns_inv_def anchors_ok_def anchored_def no_orphans_def infos_ok_def official_ok_def
        own some assms(3-6))
qed

lemma owned_no_record:
  "tree_ok base s \<Longrightarrow> owner_of n s = Some a \<Longrightarrow> subname_records (rt_registry s) n = None"
  by (cases "subname_records (rt_registry s) n") (auto simp: tree_ok_def roots_ok_def owner_of_def)

section \<open>Burning\<close>

lemma pns_inv_do_burn:
  assumes "pns_inv c s" "do_burn caller token s = Inr s'"
  shows "pns_inv c s'"
proof -
  let ?b = "cfg_base_node c"
  note p = pns_inv_parts [OF assms(1)] and e = do_burn_effect [OF pns_inv_parts(1) [OF assms(1)] assms(2)]
    and f = do_burn_frame [OF pns_inv_parts(1) [OF assms(1)] assms(2)]
  have info: "get_info n s' = (if n = token then None else get_info n s)" for n
    using get_info_clear [of n token s] f(1) by (simp add: get_info_def)
  have notok: "subname_of s token n \<Longrightarrow> owner_of n s = None" for n
    using subname_of_not_token [OF p(1)] by (simp add: owner_of_def)
  have "tree_ok ?b s'" by (rule tree_ok_do_burn [OF p(1) assms(2)])
  moreover have "anchors_ok ?b s'"
    using p(2) notok owned_no_record [OF p(1) e(1)]
    by (auto simp: anchors_ok_def anchored_def no_orphans_def ss58_def e)
  moreover have "infos_ok ?b s'"
    using p(3) by (auto simp: infos_ok_def info e)
  moreover have "capacity_ok s'"
    using p(4) by (auto simp: capacity_ok_def info f dm_iter_other)
  moreover have "official_ok ?b s'"
    using p(5) e(2) by (auto simp: official_ok_def f e(3))
  ultimately show ?thesis
    using p(6) by (simp add: pns_inv_def f)
qed

section \<open>Transferring\<close>

lemma pns_inv_do_transfer:
  assumes "pns_inv c s" "do_transfer c sender receiver token s = Inr s'"
  shows "pns_inv c s'"
proof -
  let ?b = "cfg_base_node c"
  note p = pns_inv_parts [OF assms(1)]
    and e = do_transfer_effect [OF pns_inv_parts(1) [OF assms(1)] assms(2)]
    and f = do_transfer_frame [OF pns_inv_parts(1) [OF assms(1)] assms(2)]
  have info: "get_info n s' = get_info n s" for n
    using f(1) by (simp add: get_info_def)
  have notok: "subname_of s token n \<Longrightarrow> owner_of n s = None" for n
    using subname_of_not_token [OF p(1)] by (simp add: owner_of_def)
  have "tree_ok ?b s'" by (rule tree_ok_do_transfer [OF p(1) assms(2)])
  moreover have "anchors_ok ?b s'"
    using p(2) notok owned_no_record [OF p(1) e(1)]
    by (auto simp: anchors_ok_def anchored_def no_orphans_def ss58_def e)
  moreover have "infos_ok ?b s'"
    using p(3) e(1) by (auto simp: infos_ok_def info e)
  moreover have "capacity_ok s'"
    using p(4) le_trans [OF length_dm_clear_le] by (fastforce simp: capacity_ok_def info f)
  moreover have "official_ok ?b s'"
    using p(5) e(2) by (auto simp: official_ok_def f e(4))
  ultimately show ?thesis
    using p(6) by (simp add: pns_inv_def f)
qed

section \<open>What minting a name does\<close>

lemma minted_effect:
  assumes "tree_ok base s" "name_token n s = None"
    "nft_mint m receiver (0, n) metadata default_token_data (rt_nft s) = Inr st"
    "tokens st (0, base) = Some bi" "rt_nft s1 = rt_nft s"
  shows "owner_of k (minted s1 st base n receiver bi) = (if k = n then Some receiver else owner_of k s)"
    "name_token n (minted s1 st base n receiver bi) =
       Some \<lparr>ti_metadata = metadata, ti_owner = receiver, ti_data = default_token_data\<rparr>"
proof -
  have nb: "n \<noteq> base"
    using assms(1,2) by (auto simp: tree_ok_def roots_ok_def)
  have toks: "tokens st = (tokens (rt_nft s))((0, n) \<mapsto>
      \<lparr>ti_metadata = metadata, ti_owner = receiver, ti_data = default_token_data\<rparr>)"
    using assms(3) by (auto simp: nft_mint_iff)
  then have "tokens (rt_nft s) (0, base) = Some bi"
    using assms(4) nb by simp
  then show "owner_of k (minted s1 st base n receiver bi) = (if k = n then Some receiver else owner_of k s)"
    using nb toks by (auto simp: minted_def origin_insert_def held_insert_def owner_of_def) (simp_all add: name_token_def)
  show "name_token n (minted s1 st base n receiver bi) =
       Some \<lparr>ti_metadata = metadata, ti_owner = receiver, ti_data = default_token_data\<rparr>"
    using nb toks by (simp add: minted_def origin_insert_def held_insert_def)
qed

lemma minted_sel:
  "rt_resolvers (minted s1 st base n receiver bi) = rt_resolvers s1"
  "rt_registrar (minted s1 st base n receiver bi) = rt_registrar s1"
  "rt_oracle (minted s1 st base n receiver bi) = rt_oracle s1"
  "rt_balances (minted s1 st base n receiver bi) = rt_balances s1"
  "rt_market (minted s1 st base n receiver bi) = rt_market s1"
  "rt_now (minted s1 st base n receiver bi) = rt_now s1"
  "rt_parent_hash (minted s1 st base n receiver bi) = rt_parent_hash s1"
  "official (rt_registry (minted s1 st base n receiver bi)) = official (rt_registry s1)"
  "sub_names (rt_registry (minted s1 st base n receiver bi)) = sub_names (rt_registry s1)"
  "subname_records (rt_registry (minted s1 st base n receiver bi)) = subname_records (rt_registry s1)"
  "account_to_subnames (rt_registry (minted s1 st base n receiver bi)) =
     dm_insert receiver n () (account_to_subnames (rt_registry s1))"
  by (simp_all add: minted_def origin_insert_def held_insert_def)

lemma reminted_sel:
  assumes "tree_ok base s1"
  shows "rt_registrar (reminted s1 st base n pre receiver) = rt_registrar s1"
    "rt_oracle (reminted s1 st base n pre receiver) = rt_oracle s1"
    "rt_balances (reminted s1 st base n pre receiver) = rt_balances s1"
    "rt_market (reminted s1 st base n pre receiver) = rt_market s1"
    "rt_now (reminted s1 st base n pre receiver) = rt_now s1"
    "rt_parent_hash (reminted s1 st base n pre receiver) = rt_parent_hash s1"
    "official (rt_registry (reminted s1 st base n pre receiver)) = official (rt_registry s1)"
    "sub_names (rt_registry (reminted s1 st base n pre receiver)) = dm_clear n (sub_names (rt_registry s1))"
  by (simp_all add: reminted_def held_insert_def held_remove_def clear_subnames_frame [OF assms])

lemma reminted_effect:
  assumes "tree_ok base s1"
    "nft_transfer pre receiver (0, n) (rt_nft (clear_subnames n s1)) = Inr st"
  shows "owner_of k (reminted s1 st base n pre receiver) = (if k = n then Some receiver else owner_of k s1)"
    "subname_records (rt_registry (reminted s1 st base n pre receiver)) k =
       (if subname_of s1 n k then None else subname_records (rt_registry s1) k)"
    "get_record (rt_resolvers (reminted s1 st base n pre receiver)) k rt =
       (if k = n \<or> subname_of s1 n k then [] else get_record (rt_resolvers s1) k rt)"
    "get_text (rt_resolvers (reminted s1 st base n pre receiver)) k t =
       (if k = n \<or> subname_of s1 n k then [] else get_text (rt_resolvers s1) k t)"
proof -
  have "nft_owner_of st (0, k) = (if k = n then Some receiver
      else nft_owner_of (rt_nft (clear_subnames n s1)) (0, k))"
    using nft_owner_of_transfer [OF assms(2)] by simp
  then show "owner_of k (reminted s1 st base n pre receiver) = (if k = n then Some receiver else owner_of k s1)"
    using owner_of_clear_subnames [OF assms(1), of k n]
    by (simp add: reminted_def held_insert_def held_remove_def owner_of_def name_token_def nft_owner_of_def)
  show "subname_records (rt_registry (reminted s1 st base n pre receiver)) k =
       (if subname_of s1 n k then None else subname_records (rt_registry s1) k)"
    by (auto simp: reminted_def held_insert_def held_remove_def clear_subnames_maps [OF assms(1)]
        subname_of_def split: option.splits)
  show "get_record (rt_resolvers (reminted s1 st base n pre receiver)) k rt =
       (if k = n \<or> subname_of s1 n k then [] else get_record (rt_resolvers s1) k rt)"
    by (auto simp: reminted_def held_insert_def held_remove_def clear_subnames_maps [OF assms(1)]
        subname_of_def get_record_clear_all)
  show "get_text (rt_resolvers (reminted s1 st base n pre receiver)) k t =
       (if k = n \<or> subname_of s1 n k then [] else get_text (rt_resolvers s1) k t)"
    by (auto simp: reminted_def held_insert_def held_remove_def clear_subnames_maps [OF assms(1)]
        subname_of_def get_text_clear_all)
qed

text \<open>Both branches at once: the state after \<open>mint_subname\<close> relative to the payment's.\<close>

lemma no_subname_of_unowned:
  "tree_ok base s \<Longrightarrow> name_token n s = None \<Longrightarrow> \<not> subname_of s n k"
  using in_children_iff [of base s k n] by (simp add: subname_of_def tree_ok_def roots_ok_def)

lemma mint_base_effect:
  assumes "mint_subname c owner metadata base n receiver capacity pay s = Inr s'"
    "tree_ok base s" "payments_frame pay" "get_info base s = None"
  obtains who s1 where "pay who s = Inr s1" "n \<noteq> base" "who = owner_of n s"
    "owner_of n s = None \<or> is_ok (check_expires_registrable c n s)"
    "owner_of base s = Some owner" "receiver \<noteq> owner"
    "rt_registrar s' = rt_registrar s1" "rt_oracle s' = rt_oracle s1" "rt_balances s' = rt_balances s1"
    "rt_now s' = rt_now s1" "rt_parent_hash s' = rt_parent_hash s1" "rt_market s' = rt_market s1"
    "official (rt_registry s') = official (rt_registry s)"
    "sub_names (rt_registry s') = dm_clear n (sub_names (rt_registry s)) \<or>
       sub_names (rt_registry s') = sub_names (rt_registry s)"
    "\<And>k. owner_of k s' = (if k = n then Some receiver else owner_of k s)"
    "\<And>k. subname_records (rt_registry s') k =
       (if subname_of s n k then None else subname_records (rt_registry s) k)"
    "\<And>k rt. get_record (rt_resolvers s') k rt = (if subname_of s n k \<or> k = n \<and> owner_of n s \<noteq> None
       then [] else get_record (rt_resolvers s) k rt)"
    "\<And>k t. get_text (rt_resolvers s') k t = (if subname_of s n k \<or> k = n \<and> owner_of n s \<noteq> None
       then [] else get_text (rt_resolvers s) k t)"
  using assms(1-3)
proof (cases rule: mint_base_cases)
  case (fresh s1 st bi)
  have fr: "rt_nft s1 = rt_nft s" "rt_registry s1 = rt_registry s" "rt_resolvers s1 = rt_resolvers s"
    using fresh(2) assms(3) by (auto simp: payments_frame_def)
  have nb: "n \<noteq> base" using assms(2) fresh(1) by (auto simp: tree_ok_def roots_ok_def)
  have none: "owner_of n s = None" using fresh(1) by (simp add: owner_of_def)
  show ?thesis
    by (rule that [of None s1])
      (simp_all add: fresh(2,5-7) fr nb none minted_sel no_subname_of_unowned [OF assms(2) fresh(1)]
        minted_effect [OF assms(2) fresh(1,3,4) fr(1)])
next
  case (expired info s1 st)
  have fr: "rt_nft s1 = rt_nft s" "rt_registry s1 = rt_registry s" "rt_resolvers s1 = rt_resolvers s"
    using expired(3) assms(3) by (auto simp: payments_frame_def)
  have nb: "n \<noteq> base" using assms(4) expired(2) by (auto simp: is_ok_iff result_simps)
  have t1: "tree_ok base s1" by (rule tree_ok_cong [OF assms(2) fr(1,2)])
  have some: "owner_of n s = Some (ti_owner info)" using expired(1) by (simp add: owner_of_def)
  have eq: "subname_of s1 n k = subname_of s n k" "owner_of k s1 = owner_of k s" for k
    by (simp_all add: subname_of_def owner_of_def name_token_def fr)
  show ?thesis
    by (rule that [of "Some (ti_owner info)" s1])
      (use expired(2,3) in \<open>auto simp: expired(5-7) nb some reminted_sel [OF t1] reminted_effect [OF t1 expired(4)] eq fr\<close>)
qed

section \<open>Registration keeps the invariant\<close>

text \<open>
  \<open>s'\<close> is the state after a mint whose payment wrote the registrar info of \<open>n\<close>, once the
  SS58 record of \<open>n\<close> names its new owner.
\<close>

lemma pns_inv_registered:
  assumes "pns_inv c s" "mint_subname c off [] (cfg_base_node c) n receiver capacity pay s = Inr s2"
    "payments_frame pay" "subname_records (rt_registry s) n = None"
    "\<And>who s1. pay who s = Inr s1 \<Longrightarrow> rt_oracle s1 = rt_oracle s"
    "\<And>who s1 m. pay who s = Inr s1 \<Longrightarrow> m \<noteq> n \<Longrightarrow> get_info m s1 = get_info m s"
    "\<And>who s1. pay who s = Inr s1 \<Longrightarrow> \<exists>i. get_info n s1 = Some i
       \<and> (\<forall>i0. get_info n s = Some i0 \<longrightarrow> ri_capacity i = ri_capacity i0)"
    "rt_nft s' = rt_nft s2" "rt_registry s' = rt_registry s2" "rt_oracle s' = rt_oracle s2"
    "\<And>m. get_info m s' = get_info m s2"
    "\<And>m rt. m \<noteq> n \<Longrightarrow> get_record (rt_resolvers s') m rt = get_record (rt_resolvers s2) m rt"
    "\<And>m k. m \<noteq> n \<Longrightarrow> get_text (rt_resolvers s') m k = get_text (rt_resolvers s2) m k"
    "ss58 s' n = h256_encode receiver"
  shows "pns_inv c s'"
proof -
  let ?b = "cfg_base_node c"
  note p = pns_inv_parts [OF assms(1)]
  have gb: "get_info ?b s = None" using p(3) by (auto simp: infos_ok_def)
  show ?thesis
    using assms(2) p(1) assms(3) gb
  proof (rule mint_base_effect)
    fix who s1
    assume pay: "pay who s = Inr s1" and nb: "n \<noteq> ?b"
      and f: "rt_registrar s2 = rt_registrar s1" "rt_oracle s2 = rt_oracle s1"
        "official (rt_registry s2) = official (rt_registry s)"
      and sub: "sub_names (rt_registry s2) = dm_clear n (sub_names (rt_registry s)) \<or>
        sub_names (rt_registry s2) = sub_names (rt_registry s)"
      and own: "\<And>k. owner_of k s2 = (if k = n then Some receiver else owner_of k s)"
      and recs: "\<And>k. subname_records (rt_registry s2) k =
        (if subname_of s n k then None else subname_records (rt_registry s) k)"
      and rd: "\<And>k rt. get_record (rt_resolvers s2) k rt = (if subname_of s n k \<or> k = n \<and> owner_of n s \<noteq> None
        then [] else get_record (rt_resolvers s) k rt)"
      and tx: "\<And>k t. get_text (rt_resolvers s2) k t = (if subname_of s n k \<or> k = n \<and> owner_of n s \<noteq> None
        then [] else get_text (rt_resolvers s) k t)"
    have own': "owner_of k s' = (if k = n then Some receiver else owner_of k s)" for k
      using own [of k] assms(8) by (simp add: owner_of_def name_token_def)
    have info: "get_info m s' = get_info m s1" for m
      using assms(11) f(1) by (simp add: get_info_def)
    have notok: "subname_of s n k \<Longrightarrow> owner_of k s = None" for k
      using subname_of_not_token [OF p(1)] by (simp add: owner_of_def)
    have cap: "length (dm_iter (sub_names (rt_registry s')) m) \<le> length (dm_iter (sub_names (rt_registry s)) m)" for m
      using sub length_dm_clear_le assms(9) by auto
    obtain i where i: "get_info n s1 = Some i"
      "\<And>i0. get_info n s = Some i0 \<Longrightarrow> ri_capacity i = ri_capacity i0"
      using assms(7) [OF pay] by auto
    have "tree_ok ?b s'"
      using tree_ok_cong [OF tree_ok_mint [OF assms(2) p(1) assms(3) gb assms(4)] assms(8,9)] .
    moreover have "anchors_ok ?b s'"
      unfolding anchors_ok_def
    proof (intro allI impI)
      fix m assume "m \<noteq> ?b"
      then have old: "anchored s m" "no_orphans s m" using p(2) by (simp_all add: anchors_ok_def)
      show "anchored s' m \<and> no_orphans s' m"
      proof (cases "m = n")
        case True
        then show ?thesis
          using assms(4,14) own' recs by (auto simp: anchored_def no_orphans_def assms(9))
      next
        case False
        with old show ?thesis
          using notok by (auto simp: anchored_def no_orphans_def ss58_def assms(9,12,13) own' recs rd tx)
      qed
    qed
    moreover have "infos_ok ?b s'"
      using p(3) i(1) assms(6) [OF pay] nb by (auto simp: infos_ok_def info own')
    moreover have "capacity_ok s'"
      unfolding capacity_ok_def
    proof (intro allI impI)
      fix m j assume j: "get_info m s' = Some j"
      show "length (dm_iter (sub_names (rt_registry s')) m) \<le> unat (ri_capacity j)"
      proof (cases "m = n \<and> get_info n s = None")
        case True
        then have "name_token n s = None"
          using p(3) nb unfolding infos_ok_def owner_of_def by (metis option.map_disc_iff)
        then have "dm_iter (sub_names (rt_registry s)) n = []"
          using p(1) by (simp add: tree_ok_def roots_ok_def)
        with True cap [of m] show ?thesis by simp
      next
        case False
        then obtain j0 where "get_info m s = Some j0" "ri_capacity j = ri_capacity j0"
          using j i assms(6) [OF pay, of m] by (cases "m = n") (auto simp: info)
        with p(4) cap [of m] show ?thesis
          by (fastforce simp: capacity_ok_def)
      qed
    qed
    moreover have "official_ok ?b s'"
      using p(5) nb by (auto simp: official_ok_def own' assms(9) f)
    moreover have "price_tables_ok (rt_oracle s')"
      using p(6) assms(5) [OF pay] by (simp add: assms(10) f)
    ultimately show ?thesis by (simp add: pns_inv_def)
  qed
qed

section \<open>Delegation keeps the invariant\<close>

lemma owner_of_put_children:
  "name_token p s = Some info \<Longrightarrow> owner_of n (put_children p info k s) = owner_of n s"
  by (simp add: owner_of_def)

lemma pns_inv_offer:
  assumes "pns_inv c s" "offer_subname parent n lbl target capacity s = Inr s'" "fresh_node n s"
    "get_info parent s = Some info" "capacity = ri_capacity info"
  shows "pns_inv c s'"
proof -
  let ?b = "cfg_base_node c"
  note p = pns_inv_parts [OF assms(1)]
  obtain i where i: "subname_records (rt_registry s) n = None" "name_token parent s = Some i"
    "td_children (ti_data i) < capacity"
    and s': "s' = sub_names_insert parent n (offer_insert target n (record_insert n
                  \<lparr>sr_parent = parent, sr_label = lbl, sr_target = target, sr_state = Offered\<rparr>
                  (put_children parent i (td_children (ti_data i) + 1) s)))"
    using assms(2) by (auto simp: offer_subname_iff)
  have own: "owner_of m s' = owner_of m s" for m
    by (simp add: s' registry_writes owner_of_put_children [OF i(2)])
  have info: "get_info m s' = get_info m s" for m
    by (simp add: s' registry_writes get_info_def)
  have res: "rt_resolvers s' = rt_resolvers s" "official (rt_registry s') = official (rt_registry s)"
    "rt_oracle s' = rt_oracle s" "subname_records (rt_registry s') = (subname_records (rt_registry s))
      (n \<mapsto> \<lparr>sr_parent = parent, sr_label = lbl, sr_target = target, sr_state = Offered\<rparr>)"
    "sub_names (rt_registry s') = dm_insert parent n () (sub_names (rt_registry s))"
    by (simp_all add: s' registry_writes)
  have nin: "\<not> dm_contains (sub_names (rt_registry s)) parent n" "dm_distinct (sub_names (rt_registry s))"
    using p(1) i(1) by (simp_all add: tree_ok_def deleg_defs)
  have pb: "parent \<noteq> ?b" using p(3) assms(4) by (auto simp: infos_ok_def)
  have cnt: "unat (td_children (ti_data i)) = length (dm_iter (sub_names (rt_registry s)) parent)"
    using p(1) i(2) pb by (simp add: tree_ok_def counters_ok_def)
  have "tree_ok ?b s'" by (rule tree_ok_offer [OF p(1) assms(2,3)])
  moreover have "anchors_ok ?b s'"
    using p(2) i(1) by (auto simp: anchors_ok_def anchored_def no_orphans_def ss58_def own res)
  moreover have "infos_ok ?b s'"
    using p(3) by (simp add: infos_ok_def info own)
  moreover have "capacity_ok s'"
    using p(4) i(3) cnt length_dm_insert [OF nin(2,1), of "()"] assms(4,5)
    by (auto simp: capacity_ok_def info res dm_iter_other word_less_nat_alt) (metis Suc_leI dm_iter_other(1) option.inject)
  moreover have "official_ok ?b s'"
    using p(5) by (simp add: official_ok_def own res)
  ultimately show ?thesis
    using p(6) by (simp add: pns_inv_def res)
qed

text \<open>Operations that change one delegation record and nothing of the tree.\<close>

lemma pns_inv_delegation_cong:
  assumes "pns_inv c s" "tree_ok (cfg_base_node c) s'" "\<And>m. owner_of m s' = owner_of m s"
    "\<And>m. get_info m s' = get_info m s" "rt_oracle s' = rt_oracle s"
    "official (rt_registry s') = official (rt_registry s)"
    "\<And>m. length (dm_iter (sub_names (rt_registry s')) m) \<le> length (dm_iter (sub_names (rt_registry s)) m)"
    "\<And>m. m \<noteq> n \<Longrightarrow> subname_records (rt_registry s') m = subname_records (rt_registry s) m"
    "\<And>m rt. m \<noteq> n \<Longrightarrow> get_record (rt_resolvers s') m rt = get_record (rt_resolvers s) m rt"
    "\<And>m k. m \<noteq> n \<Longrightarrow> get_text (rt_resolvers s') m k = get_text (rt_resolvers s) m k"
    "anchored s' n" "no_orphans s' n"
  shows "pns_inv c s'"
proof -
  note p = pns_inv_parts [OF assms(1)]
  have "anchored s' m \<and> no_orphans s' m" if "m \<noteq> cfg_base_node c" for m
    using that p(2) assms(11,12)
    by (cases "m = n") (auto simp: anchors_ok_def anchored_def no_orphans_def ss58_def assms(3,8-10))
  moreover have "capacity_ok s'"
    using p(4) le_trans [OF assms(7)] by (fastforce simp: capacity_ok_def assms(4))
  ultimately show ?thesis
    using p assms(2) by (simp add: pns_inv_def anchors_ok_def infos_ok_def official_ok_def assms(3-6))
qed

lemma record_no_owner:
  "tree_ok base s \<Longrightarrow> subname_records (rt_registry s) n = Some rec \<Longrightarrow> owner_of n s = None \<and> n \<noteq> base"
  by (auto simp: tree_ok_def roots_ok_def owner_of_def)

lemma inactive_record_clean:
  assumes "pns_inv c s" "subname_records (rt_registry s) n = Some rec" "sr_state rec \<noteq> Active"
  shows "get_record (rt_resolvers s) n rt = []" "get_text (rt_resolvers s) n k = []"
  using pns_inv_parts(2) [OF assms(1)] record_no_owner [OF pns_inv_parts(1) [OF assms(1)] assms(2)] assms(2,3)
  by (auto simp: anchors_ok_def no_orphans_def)

lemma pns_inv_accept:
  assumes "pns_inv c s" "accept_subname_offer c n acceptor s = Inr (parent, s1)"
    "update_ss58 c n acceptor s1 = Inr s'"
  shows "pns_inv c s'"
proof -
  note p = pns_inv_parts [OF assms(1)]
  obtain rec where rec: "subname_records (rt_registry s) n = Some rec" "sr_target rec = acceptor"
    and s1: "s1 = held_insert acceptor n (offer_remove acceptor n
                  (record_insert n (rec\<lparr>sr_state := Active\<rparr>) s))"
    using assms(2) by (auto simp: accept_subname_offer_iff)
  have s': "s' = s1\<lparr>rt_resolvers := (rt_resolvers s)\<lparr>records :=
      dm_insert n RT_SS58 (h256_encode acceptor) (records (rt_resolvers s))\<rparr>\<rparr>"
    using assms(3) by (auto simp: update_ss58_iff s1 registry_writes)
  have own: "owner_of m s' = owner_of m s" for m
    by (simp add: s' s1 registry_writes)
  have "tree_ok (cfg_base_node c) s'"
    by (rule tree_ok_cong [OF tree_ok_accept [OF p(1) assms(2)]]) (simp_all add: s')
  then show ?thesis
    by (rule pns_inv_delegation_cong [OF assms(1), where n = n])
      (use rec record_no_owner [OF p(1) rec(1)] in
        \<open>auto simp: own s' s1 registry_writes get_info_def anchored_def no_orphans_def ss58_def\<close>)
qed

lemma pns_inv_reject:
  assumes "pns_inv c s" "reject_subname_offer n caller s = Inr s'"
  shows "pns_inv c s'"
proof -
  note p = pns_inv_parts [OF assms(1)]
  obtain rec where rec: "subname_records (rt_registry s) n = Some rec" "sr_state rec = Offered"
    and s': "s' = offer_remove caller n (record_insert n (rec\<lparr>sr_state := Rejected\<rparr>) s)"
    using assms(2) by (auto simp: reject_subname_offer_iff)
  have own: "owner_of m s' = owner_of m s" for m
    by (simp add: s' registry_writes)
  show ?thesis
    by (rule pns_inv_delegation_cong [OF assms(1) tree_ok_reject [OF p(1) assms(2)], where n = n])
      (use rec record_no_owner [OF p(1) rec(1)] inactive_record_clean [OF assms(1) rec(1)] in
        \<open>auto simp: own s' registry_writes get_info_def anchored_def no_orphans_def ss58_def\<close>)
qed

text \<open>A dropped delegation: its node has no record, no text and no entry left.\<close>

lemma pns_inv_dropped:
  assumes "pns_inv c s" "tree_ok (cfg_base_node c) s'" "subname_records (rt_registry s) n = Some rec"
    "\<And>m. owner_of m s' = owner_of m s" "rt_registrar s' = rt_registrar s" "rt_oracle s' = rt_oracle s"
    "rt_registry s' = rt_registry (sub_names_remove p n (drop_delegation n rec s))"
    "rt_resolvers s' = (if sr_state rec = Active then clear_all_records n (rt_resolvers s)
       else rt_resolvers s)"
  shows "pns_inv c s'"
  by (rule pns_inv_delegation_cong [OF assms(1,2,4), where n = n])
    (use inactive_record_clean [OF assms(1,3)] record_no_owner [OF pns_inv_parts(1) [OF assms(1)] assms(3)] in
      \<open>auto simp: assms(4-8) get_info_def drop_delegation_registry length_dm_remove_le anchored_def
        no_orphans_def ss58_def get_record_clear_all get_text_clear_all\<close>)

lemma pns_inv_revoke:
  assumes "pns_inv c s" "revoke_subname parent n s = Inr s'"
  shows "pns_inv c s'"
proof -
  note p = pns_inv_parts [OF assms(1)]
  obtain rec info k where a: "subname_records (rt_registry s) n = Some rec"
    "name_token parent s = Some info"
    "s' = put_children parent info k (sub_names_remove parent n (drop_delegation n rec s))"
    using assms(2)
    by (auto simp: revoke_subname_iff sub_children_iff name_token_def drop_delegation_sel
        sub_names_remove_def)
  have tok: "name_token m (sub_names_remove parent n (drop_delegation n rec s)) = name_token m s" for m
    by (simp add: name_token_def sub_names_remove_def drop_delegation_sel)
  show ?thesis
    by (rule pns_inv_dropped [OF assms(1) tree_ok_revoke [OF p(1) assms(2)] a(1), where p = parent])
      (cases "sr_state rec"; simp add: a owner_of_def tok drop_delegation_def registry_writes)+
qed

lemma pns_inv_release:
  assumes "pns_inv c s" "release_subname n caller s = Inr (parent, s')"
  shows "pns_inv c s'"
proof -
  note p = pns_inv_parts [OF assms(1)]
  obtain rec info k where a: "subname_records (rt_registry s) n = Some rec"
    "sr_state rec = Active" "sr_target rec = caller" "name_token parent s = Some info"
    "s' = cleaner_all n (put_children parent info k
            (sub_names_remove parent n (held_remove caller n (record_remove n s))))"
    using assms(2) by (auto simp: release_subname_iff sub_children_iff name_token_def registry_writes)
  show ?thesis
    by (rule pns_inv_dropped [OF assms(1) tree_ok_release [OF p(1) assms(2)] a(1), where p = parent])
      (simp_all add: a owner_of_def drop_delegation_def registry_writes)
qed

lemma pns_inv_revoke_pending:
  "pns_inv c s \<Longrightarrow> revoke_pending_offer_for_target n target s = Inr s' \<Longrightarrow> pns_inv c s'"
  by (auto simp: revoke_pending_offer_for_target_def result_simps intro: pns_inv_revoke)

end
