(* ===== verification/Call_Invariant.thy ===== *)
theory Call_Invariant
  imports Name_Invariant
begin

text \<open>
  Every call of the registrar, the registry, the resolvers, the marketplace and the oracle
  keeps \<open>pns_inv\<close>.  Three calls need a side condition, each an assumption of its lemma: a
  registered name must not hash to a live subname and an offered subname not to a node in
  use (no collision of the hash), and a gift must be accepted by the account that still owns
  its token.
\<close>

section \<open>The calls keep the invariant\<close>

lemma pns_inv_registrar_cong:
  assumes "pns_inv c s" "rt_nft s' = rt_nft s" "rt_registry s' = rt_registry s"
    "rt_resolvers s' = rt_resolvers s" "rt_oracle s' = rt_oracle s"
    "\<And>n. map_option ri_capacity (get_info n s') = map_option ri_capacity (get_info n s)"
  shows "pns_inv c s'"
  by (rule pns_inv_cong [OF assms(1-3)])
    (use assms(4-6) pns_inv_parts(6) [OF assms(1)] in \<open>simp_all add: ss58_def\<close>)

lemma pns_inv_writes:
  assumes "pns_inv c s"
  shows "pns_inv c (primary_insert a n s)" "pns_inv c (primary_remove a s)"
    "pns_inv c (offered_insert n r s)" "pns_inv c (offered_remove n s)" "pns_inv c (deposit_event e s)"
    "pns_inv c (s\<lparr>rt_balances := b\<rparr>)"
  by (rule pns_inv_registrar_cong [OF assms]; simp)+

lemma pns_inv_put_listings: "pns_inv c s \<Longrightarrow> pns_inv c (put_listings f s)"
  by (rule pns_inv_registrar_cong) (simp_all add: put_listings_def get_info_def)

lemma pns_inv_drop_stale: "pns_inv c s \<Longrightarrow> drop_stale_primary c who s = Inr s' \<Longrightarrow> pns_inv c s'"
  by (auto simp: drop_stale_primary_iff intro: pns_inv_writes)

lemma pns_inv_record_origin:
  assumes "pns_inv c s" "record_origin c n h s = Inr s'" "owner_of n s \<noteq> None"
  shows "pns_inv c s'"
  by (rule pns_inv_cong [OF assms(1)])
    (use assms(2,3) pns_inv_parts(6) [OF assms(1)] in \<open>auto simp: record_origin_iff ss58_def get_info_def\<close>)

lemma pns_inv_update_ss58:
  assumes "pns_inv c s" "update_ss58 c n a s = Inr s'" "owner_of n s = Some a" "n \<noteq> cfg_base_node c"
  shows "pns_inv c s'"
proof -
  have "ss58 s n = h256_encode a"
    using pns_inv_parts(2) [OF assms(1)] assms(3,4) by (simp add: anchors_ok_def anchored_def)
  then show ?thesis
    by (intro pns_inv_cong [OF assms(1)])
      (use assms(2,3) pns_inv_parts(6) [OF assms(1)] in \<open>auto simp: update_ss58_iff ss58_def get_info_def\<close>)
qed

lemma pns_inv_cleaner_except:
  assumes "pns_inv c s" "owner_of n s \<noteq> None"
  shows "pns_inv c (cleaner_except_ss58 n s)"
  by (rule pns_inv_cong [OF assms(1)])
    (use assms(2) pns_inv_parts(6) [OF assms(1)] in
      \<open>auto simp: ss58_def get_record_clear_except get_info_def\<close>)

lemma pns_inv_tree: "pns_inv c s \<Longrightarrow> tree_ok (cfg_base_node c) s"
  by (rule pns_inv_parts)

lemma reject_pending_cases:
  assumes "reject_pending c caller rej s = Inr s'"
  obtains (none) "s' = s"
  | (gift) n s1 where "do_burn caller n (offered_remove n s) = Inr s1"
      "s' = deposit_event (Registrar_OfferedNameRejected n caller) s1"
  | (subname) n rec s1 where "subname_records (rt_registry s) n = Some rec"
      "revoke_subname (sr_parent rec) n s = Inr s1"
      "s' = deposit_event (Registrar_OfferedNameRejected n caller) s1"
  using assms
  by (auto simp: reject_pending_def result_simps revoke_pending_offer_for_target_def split: option.splits)

lemma pns_inv_reject_pending:
  assumes "pns_inv c s" "reject_pending c caller rej s = Inr s'"
  shows "pns_inv c s'"
  using assms(2)
proof (cases rule: reject_pending_cases)
  case none
  with assms(1) show ?thesis by simp
next
  case (gift n s1)
  then show ?thesis
    using pns_inv_do_burn [OF pns_inv_writes(4) [OF assms(1)] gift(1)] by (simp add: pns_inv_writes)
next
  case (subname n rec s1)
  then show ?thesis
    using pns_inv_revoke [OF assms(1) subname(2)] by (simp add: pns_inv_writes)
qed

text \<open>Rejecting an offer creates no delegation.\<close>

lemma reject_pending_records:
  assumes "pns_inv c s" "reject_pending c caller rej s = Inr s'"
    "subname_records (rt_registry s) n = None"
  shows "subname_records (rt_registry s') n = None"
  using assms(2)
proof (cases rule: reject_pending_cases)
  case none
  with assms(3) show ?thesis by simp
next
  case (gift m s1)
  then show ?thesis
    using do_burn_effect(5) [OF pns_inv_tree [OF pns_inv_writes(4) [OF assms(1)]] gift(1)] assms(3)
    by simp
next
  case (subname m rec s1)
  then show ?thesis
    using assms(3) by (auto simp: revoke_subname_iff sub_children_iff drop_delegation_registry)
qed

lemma pns_inv_register:
  assumes "pns_inv c s" "register c org name src rej s = Inr s'"
    "subname_records (rt_registry s) (name_node c name (cfg_base_node c)) = None"
  shows "pns_inv c s'"
  using assms(2)
proof (rule register_cases)
  let ?n = "name_node c name (cfg_base_node c)"
  fix caller owner s0 s1 s2 s3 s4 off expire fee
  assume r: "reject_pending c caller rej s = Inr s0" and d: "drop_stale_primary c owner s0 = Inr s1"
    and m: "mint_subname c off [] (cfg_base_node c) ?n owner 0
       (register_payments c caller ?n (length name) expire fee) s1 = Inr s2"
    and u: "update_ss58 c ?n owner (primary_insert owner ?n s2) = Inr s3"
    and o: "record_origin c ?n (rt_parent_hash s3) s3 = Inr s4"
    and s': "s' = deposit_event (Registrar_NameRegistered name ?n owner expire fee) s4"
  have i1: "pns_inv c s1"
    by (rule pns_inv_drop_stale [OF pns_inv_reject_pending [OF assms(1) r] d])
  have nr: "subname_records (rt_registry s1) ?n = None"
    using reject_pending_records [OF assms(1) r assms(3)] d by (auto simp: drop_stale_primary_iff)
  have "rt_nft s4 = rt_nft s2" "rt_registry s4 = rt_registry s2" "rt_oracle s4 = rt_oracle s2"
    "get_info k s4 = get_info k s2" for k
    using u o by (auto simp: update_ss58_iff record_origin_iff)
  then have "pns_inv c s4"
    by (intro pns_inv_registered [OF i1 m register_payments_frame nr])
      (use keeper.put_owner [OF u] keeper.put_origin [OF o] in
        \<open>auto simp: register_payments_iff forget_pre_owner_eq registered_info_def ss58_def
          split: option.splits\<close>)
  then show ?thesis
    by (simp add: s' pns_inv_writes)
qed

lemma pns_inv_renew:
  assumes "pns_inv c s" "renew c org s = Inr s'"
  shows "pns_inv c s'"
  by (rule pns_inv_registrar_cong [OF assms(1)]) (use assms(2) in \<open>auto simp: renew_iff\<close>)

lemma pns_inv_transfer:
  assumes "pns_inv c s" "transfer c org src s = Inr s'"
  shows "pns_inv c s'"
  using assms(2)
proof (rule transfer_cases)
  fix who receiver node s1 s2
  assume "drop_stale_primary c receiver s = Inr s1" "do_transfer c who receiver node s1 = Inr s2"
    and s': "s' = primary_insert receiver node (primary_remove who s2)"
  then have "pns_inv c s2"
    using pns_inv_do_transfer [OF pns_inv_drop_stale [OF assms(1)]] by blast
  then show ?thesis
    by (simp add: s' pns_inv_writes)
qed

lemma pns_inv_release_name: "pns_inv c s \<Longrightarrow> release_name org s = Inr s' \<Longrightarrow> pns_inv c s'"
  by (auto simp: release_name_iff intro: pns_inv_do_burn pns_inv_writes)

lemma pns_inv_registry_burn: "pns_inv c s \<Longrightarrow> registry_burn c org name s = Inr s' \<Longrightarrow> pns_inv c s'"
  by (auto simp: registry_burn_def result_simps intro: pns_inv_do_burn)

lemma offer_subdomain_iff:
  "offer_subdomain c org lbl target s = Inr s' \<longleftrightarrow>
     (\<exists>caller who parent info s1. org = Origin_Signed caller \<and> cfg_lookup c target = Inr who
        \<and> cfg_is_open c s \<and> primary_name caller s = Some parent \<and> get_info parent s = Some info
        \<and> rt_now s < ri_expire info \<and> label_bytes lbl \<and> length lbl \<le> 63
        \<and> offer_subname parent (name_node c lbl parent) lbl who (ri_capacity info) s = Inr s1
        \<and> s' = deposit_event (Registrar_SubnameOffered parent (name_node c lbl parent) lbl who) s1)"
  unfolding offer_subdomain_def by (auto simp: result_simps split: prod.splits)

lemma pns_inv_offer_subdomain:
  assumes "pns_inv c s" "offer_subdomain c org lbl target s = Inr s'"
    "\<And>a p. org = Origin_Signed a \<Longrightarrow> primary_name a s = Some p \<Longrightarrow> fresh_node (name_node c lbl p) s"
  shows "pns_inv c s'"
  using assms(2,3) by (auto simp: offer_subdomain_iff intro: pns_inv_writes pns_inv_offer [OF assms(1)])

lemma pns_inv_accept_subdomain:
  assumes "pns_inv c s" "accept_subdomain c org parent lbl s = Inr s'"
  shows "pns_inv c s'"
  using assms(2) unfolding accept_subdomain_def
  by (auto simp: result_simps split: prod.splits intro: pns_inv_writes pns_inv_accept [OF assms(1)])

lemma pns_inv_reject_subdomain:
  assumes "pns_inv c s" "reject_subdomain c org parent lbl s = Inr s'"
  shows "pns_inv c s'"
  using assms(2) unfolding reject_subdomain_def
  by (auto simp: result_simps split: prod.splits intro: pns_inv_writes pns_inv_reject [OF assms(1)])

lemma pns_inv_revoke_subdomain:
  assumes "pns_inv c s" "revoke_subdomain c org lbl s = Inr s'"
  shows "pns_inv c s'"
  using assms(2) unfolding revoke_subdomain_def
  by (auto simp: result_simps split: prod.splits intro: pns_inv_writes pns_inv_revoke [OF assms(1)])

lemma pns_inv_release_subdomain:
  assumes "pns_inv c s" "release_subdomain c org parent lbl s = Inr s'"
  shows "pns_inv c s'"
  using assms(2) unfolding release_subdomain_def
  by (auto simp: result_simps split: prod.splits intro: pns_inv_writes pns_inv_release [OF assms(1)])

text \<open>Accepting a gift keeps the anchors when the recipient still owns the token.\<close>

lemma pns_inv_accept_offered_name:
  assumes "pns_inv c s" "accept_offered_name c org name s = Inr s'"
    "\<And>a. org = Origin_Signed a \<Longrightarrow> owner_of (name_node c name (cfg_base_node c)) s = Some a"
  shows "pns_inv c s'"
  using assms(2)
proof (rule accept_offered_name_cases)
  let ?n = "name_node c name (cfg_base_node c)"
  fix caller s1 s2 s3 info
  assume org: "org = Origin_Signed caller"
    and d: "drop_stale_primary c caller (offered_remove ?n s) = Inr s1"
    and g: "get_info ?n s = Some info"
    and u: "update_ss58 c ?n caller (primary_insert caller ?n s1) = Inr s2"
    and o: "record_origin c ?n (rt_parent_hash s2) s2 = Inr s3"
    and s': "s' = deposit_event (Registrar_OfferedNameAccepted ?n caller) s3"
  have own: "owner_of ?n (primary_insert caller ?n s1) = Some caller"
    using assms(3) [OF org] d by (auto simp: drop_stale_primary_iff owner_of_def name_token_def)
  have nb: "?n \<noteq> cfg_base_node c"
    using g pns_inv_parts(3) [OF assms(1)] by (auto simp: infos_ok_def)
  have "pns_inv c s2"
    using pns_inv_update_ss58 [OF pns_inv_writes(1) [OF pns_inv_drop_stale [OF pns_inv_writes(4) [OF assms(1)] d]] u own nb] .
  moreover have "owner_of ?n s2 \<noteq> None"
    using own u by (auto simp: update_ss58_iff owner_of_def name_token_def)
  ultimately show ?thesis
    using pns_inv_record_origin [OF _ o] by (simp add: s' pns_inv_writes)
qed

lemma pns_inv_reserved:
  "pns_inv c s \<Longrightarrow> add_reserved c org name s = Inr s' \<Longrightarrow> pns_inv c s'"
  "pns_inv c s \<Longrightarrow> remove_reserved c org name s = Inr s' \<Longrightarrow> pns_inv c s'"
  by (rule pns_inv_registrar_cong,
      auto simp: add_reserved_def remove_reserved_def result_simps get_info_def split: prod.splits)+

lemma check_node_useable_owner: "check_node_useable n a s \<Longrightarrow> owner_of n s = Some a"
  by (auto simp: check_node_useable_def verify_def verify_with_owner_def owner_of_def is_ok_iff
      result_simps split: if_splits)

lemma pns_inv_set_record:
  assumes "pns_inv c s" "set_record c check_node_useable org name rt content s = Inr s'"
  shows "pns_inv c s'"
proof (rule pns_inv_cong [OF assms(1)])
  obtain who n where a: "rt \<noteq> RT_SS58" "check_node_useable n who s"
    "s' = deposit_event (Resolvers_RecordsChanged n rt content)
      (s\<lparr>rt_resolvers := (rt_resolvers s)\<lparr>records := dm_insert n rt content (records (rt_resolvers s))\<rparr>\<rparr>)"
    using assms(2) by (auto simp: set_record_def result_simps Let_def)
  note own = check_node_useable_owner [OF a(2)]
  show "rt_nft s' = rt_nft s" "rt_registry s' = rt_registry s" "price_tables_ok (rt_oracle s')"
    using pns_inv_parts(6) [OF assms(1)] by (simp_all add: a)
  show "ss58 s' m = ss58 s m" "map_option ri_capacity (get_info m s') = map_option ri_capacity (get_info m s)" for m
    using a(1) by (simp_all add: a(3) ss58_def)
  show "get_text (rt_resolvers s') m k = get_text (rt_resolvers s) m k" for m k
    by (simp add: a)
  show "owner_of m s = None \<Longrightarrow> get_record (rt_resolvers s') m t = get_record (rt_resolvers s) m t" for m t
    using own by (auto simp: a)
qed

lemma pns_inv_set_text:
  assumes "pns_inv c s" "set_text c check_node_useable org name kind content s = Inr s'"
  shows "pns_inv c s'"
proof (rule pns_inv_cong [OF assms(1)])
  obtain who n where a: "check_node_useable n who s"
    "s' = deposit_event (Resolvers_TextsChanged n kind content)
      (s\<lparr>rt_resolvers := (rt_resolvers s)\<lparr>texts := dm_insert n kind content (texts (rt_resolvers s))\<rparr>\<rparr>)"
    using assms(2) by (auto simp: set_text_def result_simps Let_def)
  note own = check_node_useable_owner [OF a(1)]
  show "rt_nft s' = rt_nft s" "rt_registry s' = rt_registry s" "price_tables_ok (rt_oracle s')"
    using pns_inv_parts(6) [OF assms(1)] by (simp_all add: a)
  show "ss58 s' m = ss58 s m" "map_option ri_capacity (get_info m s') = map_option ri_capacity (get_info m s)"
    "get_record (rt_resolvers s') m t = get_record (rt_resolvers s) m t" for m t
    by (simp_all add: a ss58_def)
  show "owner_of m s = None \<Longrightarrow> get_text (rt_resolvers s') m k = get_text (rt_resolvers s) m k" for m k
    using own by (auto simp: a)
qed

lemma pns_inv_listing_calls:
  "pns_inv c s \<Longrightarrow> create_listing org price t s = Inr s' \<Longrightarrow> pns_inv c s'"
  "pns_inv c s \<Longrightarrow> cancel_listing org s = Inr s' \<Longrightarrow> pns_inv c s'"
  by (auto simp: create_listing_def cancel_listing_def result_simps intro: pns_inv_writes pns_inv_put_listings)

lemma pns_inv_oracle_upd:
  "pns_inv c s \<Longrightarrow> price_tables_ok o' \<Longrightarrow> pns_inv c (s\<lparr>rt_oracle := o'\<rparr>)"
  by (rule pns_inv_cong) (simp_all add: ss58_def get_info_def)

lemma pns_inv_oracle_calls:
  "pns_inv c s \<Longrightarrow> set_exchange_rate c org rate s = Inr s' \<Longrightarrow> pns_inv c s'"
  "pns_inv c s \<Longrightarrow> length prices = 11 \<Longrightarrow> set_base_price c org prices s = Inr s' \<Longrightarrow> pns_inv c s'"
  "pns_inv c s \<Longrightarrow> length prices = 11 \<Longrightarrow> set_rent_price c org prices s = Inr s' \<Longrightarrow> pns_inv c s'"
  using pns_inv_parts(6) [of c s]
  by (auto simp: set_exchange_rate_def set_base_price_def set_rent_price_def result_simps
      price_tables_ok_def intro!: pns_inv_writes(5) pns_inv_oracle_upd)

text \<open>Purchases.\<close>

lemma pns_inv_transfer_name:
  assumes "pns_inv c s" "transfer_name c sender receiver n s = Inr s'"
  shows "pns_inv c s'" "owner_of n s' = Some receiver"
proof -
  obtain s1 s2 where a: "drop_stale_primary c receiver s = Inr s1" "do_transfer c sender receiver n s1 = Inr s2"
    and s': "s' = primary_insert receiver n
            (if primary_name sender s2 = Some n then primary_remove sender s2 else s2)"
    using assms(2) by (auto simp: transfer_name_iff)
  have i1: "pns_inv c s1" by (rule pns_inv_drop_stale [OF assms(1) a(1)])
  show "pns_inv c s'"
    using pns_inv_do_transfer [OF i1 a(2)] by (simp add: s' pns_inv_writes)
  have "owner_of n s2 = Some receiver"
    using do_transfer_effect(4) [OF pns_inv_tree [OF i1] a(2), of n] by simp
  then show "owner_of n s' = Some receiver"
    by (simp add: s' owner_of_def name_token_def)
qed

lemma pns_inv_offer_bought_name:
  assumes "pns_inv c s" "offer_bought_name c seller buyer recipient n s = Inr s'"
  shows "pns_inv c s'"
  using assms(2) pns_inv_do_transfer [OF assms(1)]
  by (auto simp: offer_bought_name_iff pns_inv_writes)

lemma pns_inv_deliver:
  assumes "pns_inv c s" "deliver c n buyer ls recipient s = Inr s'"
  shows "pns_inv c s'"
proof (cases recipient)
  case None
  with assms(2) obtain s2 s3 s4 where a: "transfer_name c (ls_seller ls) buyer n s = Inr s2"
    "update_ss58 c n buyer (cleaner_except_ss58 n s2) = Inr s3"
    "record_origin c n (rt_parent_hash s3) s3 = Inr s4"
    "s' = deposit_event (Market_Sold n (ls_seller ls) buyer (ls_price ls) (protocol_fee c (ls_price ls))) s4"
    by (auto simp: deliver_None_iff)
  note t = pns_inv_transfer_name [OF assms(1) a(1)]
  have nb: "n \<noteq> cfg_base_node c"
    using a(1) do_transfer_effect(2) pns_inv_tree pns_inv_drop_stale [OF assms(1)]
    by (fastforce simp: transfer_name_iff)
  have "pns_inv c s3"
    using pns_inv_update_ss58 [OF pns_inv_cleaner_except [OF t(1)] a(2) _ nb] t(2) by simp
  moreover have "owner_of n s3 \<noteq> None"
    using a(2) t(2) by (auto simp: update_ss58_iff)
  ultimately show ?thesis
    using pns_inv_record_origin [OF _ a(3)] by (simp add: a(4) pns_inv_writes)
next
  case (Some recip)
  then show ?thesis
    using assms(2) pns_inv_offer_bought_name [OF assms(1)] by (auto simp: deliver_Some_iff pns_inv_writes)
qed

lemma pns_inv_buy_name:
  assumes "pns_inv c s" "buy_name c org name recipient s = Inr s'"
  shows "pns_inv c s'"
  using assms(2)
  by (rule buy_name_cases) (rule pns_inv_deliver [OF pns_inv_put_listings [OF pns_inv_writes(6) [OF assms(1)]]])

end
