(* ===== verification/Redeem_Code.thy ===== *)
theory Redeem_Code
  imports Registrar "HOL-Library.While_Combinator"
begin

text \<open>
  The redeem-code pallet, src/pallets/pns-registrar/src/redeem_code.rs: one-time numbers
  minted by the manager, each of which lets a signed code register a name without a fee.

  The signature scheme is the parameter \<open>verifies code data signer\<close>; a code is its encoded
  bytes.  The two minting loops count with a 32-bit number, whose increment wraps, so they
  are \<open>while_option\<close>: \<open>None\<close> means that the loop does not end.
\<close>

section \<open>Encoding of the signed data\<close>

definition le_bytes :: "nat \<Rightarrow> 'l::len word \<Rightarrow> u8 list" where
  "le_bytes n w = map (\<lambda>i. ucast (drop_bit (8 * i) w)) [0..<n]"

definition redeem_data :: "domain_hash \<Rightarrow> u64 \<Rightarrow> u32 \<Rightarrow> u8 list" where
  "redeem_data label_node duration nouce =
     h256_encode label_node @ le_bytes 8 duration @ le_bytes 4 nouce"

definition redeem_any_data :: "u64 \<Rightarrow> u32 \<Rightarrow> u8 list" where
  "redeem_any_data duration nouce = le_bytes 8 duration @ le_bytes 4 nouce"

section \<open>Minting\<close>

type_synonym redeem_map = "u32 \<rightharpoonup> unit"

definition mint_redeem_loop :: "u32 \<Rightarrow> u32 \<Rightarrow> redeem_map \<Rightarrow> (u32 \<times> redeem_map) option" where
  "mint_redeem_loop start stop m =
     while_option (\<lambda>(nouce, m). nouce \<le> stop) (\<lambda>(nouce, m). (nouce + 1, m(nouce \<mapsto> ()))) (start, m)"

definition mint_redeem ::
  "('b, 'src) config \<Rightarrow> origin \<Rightarrow> u32 \<Rightarrow> u32 \<Rightarrow> 'b runtime \<Rightarrow> 'b runtime result option" where
  "mint_redeem c org start stop s =
     (case cfg_manager_origin c s org of
        Inl e \<Rightarrow> Some (Inl e)
      | Inr _ \<Rightarrow>
          if \<not> start < stop then Some (Inl (RedeemError Redeem_RangeInvaild))
          else map_option (\<lambda>(_, m). Inr (s\<lparr>rt_redeem := (rt_redeem s)\<lparr>redeems := m\<rparr>\<rparr>))
                 (mint_redeem_loop start stop (redeems (rt_redeem s))))"

definition redeem_genesis_loop :: "u32 \<Rightarrow> u32 \<Rightarrow> redeem_map \<Rightarrow> (u32 \<times> redeem_map) option" where
  "redeem_genesis_loop start stop m =
     while_option (\<lambda>(nouce, m). nouce < stop) (\<lambda>(nouce, m). (nouce + 1, m(nouce \<mapsto> ()))) (start, m)"

definition redeem_genesis_build :: "(u32 \<times> u32) option \<Rightarrow> redeem_storage option" where
  "redeem_genesis_build bounds =
     (case bounds of
        None \<Rightarrow> Some \<lparr>redeems = Map.empty\<rparr>
      | Some (start, stop) \<Rightarrow>
          map_option (\<lambda>(_, m). \<lparr>redeems = m\<rparr>) (redeem_genesis_loop start stop Map.empty))"

section \<open>Redeeming\<close>

definition redeem_remove :: "u32 \<Rightarrow> 'b runtime \<Rightarrow> 'b runtime" where
  "redeem_remove nouce s =
     s\<lparr>rt_redeem := (rt_redeem s)\<lparr>redeems := (redeems (rt_redeem s))(nouce := None)\<rparr>\<rparr>"

definition name_redeem ::
  "('b, 'src) config \<Rightarrow> (u8 list \<Rightarrow> u8 list \<Rightarrow> account_id \<Rightarrow> bool) \<Rightarrow> origin \<Rightarrow> u8 list \<Rightarrow> u64 \<Rightarrow> u32
    \<Rightarrow> u8 list \<Rightarrow> account_id \<Rightarrow> 'b runtime \<Rightarrow> 'b runtime result" where
  "name_redeem c verifies org name duration nouce code owner s =
     and_then (ensure_signed org) (\<lambda>_.
     and_then (ensure (redeems (rt_redeem s) nouce \<noteq> None) (RedeemError Redeem_RedeemsHasBeenUsed)) (\<lambda>_.
     and_then (ok_or (label_new_with_len (cfg_keccak c) name) (RedeemError Redeem_ParseLabelFailed))
       (\<lambda>(lbl, _).
     and_then (get_official_account s) (\<lambda>signer.
     and_then (ensure (verifies code (redeem_data (lbl_node lbl) duration nouce) signer)
       (RedeemError Redeem_InvalidSignature)) (\<lambda>_.
     let node = encode_with_node (cfg_keccak c) lbl (cfg_base_node c) in
     and_then (for_redeem_code c name owner duration lbl s) (\<lambda>s.
       Inr (deposit_event (Redeem_RedeemCodeUsed code node owner) (redeem_remove nouce s))))))))"

definition name_redeem_any ::
  "('b, 'src) config \<Rightarrow> (u8 list \<Rightarrow> u8 list \<Rightarrow> account_id \<Rightarrow> bool) \<Rightarrow> origin \<Rightarrow> u8 list \<Rightarrow> u64 \<Rightarrow> u32
    \<Rightarrow> u8 list \<Rightarrow> account_id \<Rightarrow> 'b runtime \<Rightarrow> 'b runtime result" where
  "name_redeem_any c verifies org name duration nouce code owner s =
     and_then (ensure_signed org) (\<lambda>_.
     and_then (ensure (redeems (rt_redeem s) nouce \<noteq> None) (RedeemError Redeem_RedeemsHasBeenUsed)) (\<lambda>_.
     and_then (ok_or (label_new_with_len (cfg_keccak c) name) (RedeemError Redeem_ParseLabelFailed))
       (\<lambda>(lbl, label_len).
     and_then (ensure (is_registrable label_len) (RedeemError Redeem_LabelLenInvalid)) (\<lambda>_.
     and_then (get_official_account s) (\<lambda>signer.
     and_then (ensure (verifies code (redeem_any_data duration nouce) signer)
       (RedeemError Redeem_InvalidSignature)) (\<lambda>_.
     let node = encode_with_node (cfg_keccak c) lbl (cfg_base_node c) in
     and_then (for_redeem_code c name owner duration lbl s) (\<lambda>s.
       Inr (deposit_event (Redeem_RedeemCodeUsed code node owner) (redeem_remove nouce s)))))))))"

end
