(* ===== verification/Pns_Origin.thy ===== *)
theory Pns_Origin
  imports Runtime_State
begin

text \<open>
  The manager pallet, src/pallets/pns-registrar/src/origin.rs: the set of manager accounts
  and the switch that opens or closes registration.
\<close>

section \<open>Operations\<close>

text \<open>\<open>EnsureOrigin::try_origin\<close>; \<open>ensure_origin\<close> turns its refusal into \<open>BadOrigin\<close>.\<close>

definition origin_ensure :: "'b runtime \<Rightarrow> origin \<Rightarrow> account_id result" where
  "origin_ensure s org = (case org of
     Origin_Signed who \<Rightarrow>
       (if origins (rt_origin s) who \<noteq> None then Inr who else Inl BadOrigin)
   | _ \<Rightarrow> Inl BadOrigin)"

definition origin_is_open :: "'b runtime \<Rightarrow> bool" where
  "origin_is_open s = is_registrar_open (rt_origin s)"

definition set_registrar_open :: "origin \<Rightarrow> bool \<Rightarrow> 'b runtime \<Rightarrow> 'b runtime result" where
  "set_registrar_open org is_open s =
     and_then (origin_ensure s org) (\<lambda>_.
       Inr (s\<lparr>rt_origin := (rt_origin s)\<lparr>is_registrar_open := is_open\<rparr>\<rparr>))"

definition approve_origin :: "account_id \<Rightarrow> bool \<Rightarrow> 'b runtime \<Rightarrow> 'b runtime" where
  "approve_origin account approved s =
     (if approved
      then deposit_event (Origin_AddedOrigin account)
             (s\<lparr>rt_origin := (rt_origin s)\<lparr>origins := (origins (rt_origin s))(account \<mapsto> ())\<rparr>\<rparr>)
      else deposit_event (Origin_RemovedOrigin account)
             (s\<lparr>rt_origin := (rt_origin s)\<lparr>origins := (origins (rt_origin s))(account := None)\<rparr>\<rparr>))"

definition set_origin ::
  "('b, 'src) config \<Rightarrow> origin \<Rightarrow> 'src \<Rightarrow> bool \<Rightarrow> 'b runtime \<Rightarrow> 'b runtime result" where
  "set_origin c org account approved s =
     and_then (origin_ensure s org) (\<lambda>_.
     and_then (cfg_lookup c account) (\<lambda>account.
       Inr (approve_origin account approved s)))"

definition set_origin_for_root ::
  "('b, 'src) config \<Rightarrow> origin \<Rightarrow> 'src \<Rightarrow> bool \<Rightarrow> 'b runtime \<Rightarrow> 'b runtime result" where
  "set_origin_for_root c org account approved s =
     and_then (ensure_root org) (\<lambda>_.
     and_then (cfg_lookup c account) (\<lambda>account.
       Inr (approve_origin account approved s)))"

definition origin_genesis_build :: "account_id list \<Rightarrow> origin_storage" where
  "origin_genesis_build accounts =
     \<lparr>origins = foldl (\<lambda>m a. m(a \<mapsto> ())) Map.empty accounts, is_registrar_open = True\<rparr>"

section \<open>Facts\<close>

lemma origin_ensure_iff [result_simps]:
  "origin_ensure s org = Inr who \<longleftrightarrow>
     org = Origin_Signed who \<and> origins (rt_origin s) who \<noteq> None"
  by (auto simp: origin_ensure_def split: origin.splits)

lemma approve_origin_get:
  "origins (rt_origin (approve_origin a ok s)) =
     (origins (rt_origin s))(a := if ok then Some () else None)"
  by (simp add: approve_origin_def)

lemma foldl_origins:
  "foldl (\<lambda>m a. m(a \<mapsto> ())) m0 as a = (if a \<in> set as then Some () else m0 a)"
  by (induction as arbitrary: m0) auto

lemma origin_genesis_managers:
  "origins (origin_genesis_build accounts) a \<noteq> None \<longleftrightarrow> a \<in> set accounts"
  by (simp add: origin_genesis_build_def foldl_origins)

text \<open>Neither a signed account outside the set nor the unsigned origin is a manager.\<close>

lemma manager_calls_need_manager:
  "set_registrar_open org b s = Inr s' \<Longrightarrow>
     \<exists>who. org = Origin_Signed who \<and> origins (rt_origin s) who \<noteq> None"
  "set_origin c org a ok s = Inr s' \<Longrightarrow>
     \<exists>who. org = Origin_Signed who \<and> origins (rt_origin s) who \<noteq> None"
  by (auto simp: set_registrar_open_def set_origin_def result_simps)

end
