(* ===== verification/Runtime_Api.thy ===== *)
theory Runtime_Api
  imports Call_Invariant Redeem_Code Pns_Origin
begin

text \<open>
  The runtime around the pallets: the constants and origins of
  src/runtime/src/configs/mod.rs, the state queries of src/runtime/src/apis.rs and their
  JSON-RPC front of src/node/src/pns_rpc.rs, the genesis of
  src/runtime/src/genesis_config_presets.rs and the initialisers of
  src/pallets/pns-registrar/src/migration.rs.
\<close>

section \<open>Runtime constants\<close>

definition MILLI_SECS_PER_BLOCK :: u64 where "MILLI_SECS_PER_BLOCK = 6000"
definition MINUTES :: u32 where "MINUTES = 60000 div ucast MILLI_SECS_PER_BLOCK"
definition HOURS :: u32 where "HOURS = MINUTES * 60"
definition DAYS :: u32 where "DAYS = HOURS * 24"
definition UNIT :: u128 where "UNIT = 1000000000000"

definition GracePeriod :: u64 where
  "GracePeriod = 30 * ucast DAYS * MILLI_SECS_PER_BLOCK"

definition MinRegistrationDuration :: u64 where
  "MinRegistrationDuration = 28 * ucast DAYS * MILLI_SECS_PER_BLOCK"

definition MaxRegistrationDuration :: u64 where
  "MaxRegistrationDuration = 365 * ucast DAYS * MILLI_SECS_PER_BLOCK"

definition ensure_root_as_account_id :: "origin \<Rightarrow> account_id result" where
  "ensure_root_as_account_id org = and_then (ensure_root org) (\<lambda>_. Inr 0)"

definition pns_is_open :: "'b runtime \<Rightarrow> bool" where
  "pns_is_open s = True"

text \<open>The runtime's configuration over a hash, an address lookup and a currency.  \<open>kusama\<close> is
  the build feature that selects the native top-level domain.\<close>

definition pns_config ::
  "bool \<Rightarrow> keccak \<Rightarrow> ('src \<Rightarrow> account_id result) \<Rightarrow> (account_id \<Rightarrow> u128 \<Rightarrow> 'b \<Rightarrow> 'b result)
    \<Rightarrow> (account_id \<Rightarrow> account_id \<Rightarrow> u128 \<Rightarrow> 'b \<Rightarrow> 'b result) \<Rightarrow> ('b, 'src) config" where
  "pns_config kusama hash lookup_source withdraw pay =
     \<lparr>cfg_keccak = hash, cfg_base_node = NATIVE_BASENODE kusama, cfg_grace_period = GracePeriod,
      cfg_default_capacity = 10, cfg_min_registration_duration = MinRegistrationDuration,
      cfg_max_registration_duration = MaxRegistrationDuration, cfg_max_class_metadata = 0,
      cfg_max_token_metadata = 0, cfg_max_content_len = 1024, cfg_protocol_fee_bps = 200,
      cfg_is_open = pns_is_open, cfg_manager_origin = (\<lambda>_. ensure_root_as_account_id),
      cfg_lookup = lookup_source, cfg_withdraw = withdraw, cfg_transfer = pay\<rparr>"

section \<open>State queries\<close>

definition api_get_info :: "domain_hash \<Rightarrow> 'b runtime \<Rightarrow> name_record option" where
  "api_get_info node s =
     (if offered_name node s \<noteq> None then None
      else case get_info node s of
        None \<Rightarrow> None
      | Some info \<Rightarrow>
          if rt_now s \<ge> ri_expire info then None
          else case name_token node s of
            None \<Rightarrow> None
          | Some tok \<Rightarrow> Some
              \<lparr>nr_owner = ti_owner tok, nr_expire = ri_expire info, nr_capacity = ri_capacity info,
               nr_register_fee = ri_register_fee info,
               nr_for_sale = (listings (rt_market s) node \<noteq> None),
               nr_last_block = ri_last_block info, nr_read_block_number = 0,
               nr_read_block_hash = 0\<rparr>)"

definition api_all :: "'b runtime \<Rightarrow> (domain_hash \<times> registrar_info) list" where
  "api_all s = registrar_all s"

definition api_lookup ::
  "domain_hash \<Rightarrow> record_type list \<Rightarrow> 'b runtime \<Rightarrow> (record_type \<times> u8 list) list" where
  "api_lookup node rts s = lookup (rt_resolvers s) node rts"

definition api_get_listing :: "bool \<Rightarrow> keccak \<Rightarrow> u8 list \<Rightarrow> 'b runtime \<Rightarrow> listing_info option" where
  "api_get_listing kusama hash name s =
     (case label_new_with_len hash name of
        None \<Rightarrow> None
      | Some (lbl, _) \<Rightarrow>
          (case listings (rt_market s) (encode_with_node hash lbl (NATIVE_BASENODE kusama)) of
             None \<Rightarrow> None
           | Some l \<Rightarrow> Some
               \<lparr>li_seller = ls_seller l, li_price = ls_price l, li_expires_at = ls_expires_at l,
                li_read_block_number = 0, li_read_block_hash = 0\<rparr>))"

definition api_resolve_name :: "bool \<Rightarrow> keccak \<Rightarrow> u8 list \<Rightarrow> 'b runtime \<Rightarrow> name_record option" where
  "api_resolve_name kusama hash name s =
     (case label_new_with_len hash name of
        None \<Rightarrow> None
      | Some (lbl, _) \<Rightarrow>
          let node = encode_with_node hash lbl (NATIVE_BASENODE kusama) in
          if offered_name node s \<noteq> None then None
          else case get_info node s of
            None \<Rightarrow> None
          | Some info \<Rightarrow>
              if rt_now s \<ge> ri_expire info then None
              else case name_token node s of
                None \<Rightarrow> None
              | Some tok \<Rightarrow> Some
                  \<lparr>nr_owner = ti_owner tok, nr_expire = ri_expire info,
                   nr_capacity = ri_capacity info, nr_register_fee = ri_register_fee info,
                   nr_for_sale = (listings (rt_market s) node \<noteq> None),
                   nr_last_block = ri_last_block info, nr_read_block_number = 0,
                   nr_read_block_hash = 0\<rparr>)"

definition api_lookup_by_name ::
  "bool \<Rightarrow> keccak \<Rightarrow> u8 list \<Rightarrow> record_type list \<Rightarrow> 'b runtime \<Rightarrow> (record_type \<times> u8 list) list" where
  "api_lookup_by_name kusama hash name rts s =
     (let node = (case parse_name_to_node hash name (NATIVE_BASENODE kusama) of None \<Rightarrow> 0 | Some n \<Rightarrow> n)
      in lookup (rt_resolvers s) node rts)"

definition api_get_subname :: "domain_hash \<Rightarrow> 'b runtime \<Rightarrow> subname_record option" where
  "api_get_subname node s = subname_records (rt_registry s) node"

definition api_account_dashboard :: "account_id \<Rightarrow> 'b runtime \<Rightarrow> account_dashboard" where
  "api_account_dashboard owner s =
     \<lparr>ad_primary_name = primary_name owner s,
      ad_subnames = dm_iter (account_to_subnames (rt_registry s)) owner,
      ad_pending_subname_offers = dm_iter (offered_to_account (rt_registry s)) owner,
      ad_pending_name_offers =
        map fst (filter (\<lambda>(node, rec). on_recipient rec = owner) (offered_names (rt_registrar s)))\<rparr>"

section \<open>JSON-RPC\<close>

text \<open>
  \<open>chain_info\<close> is the client's best block.  The conversion between record-type numbers and
  hickory's enumeration is the library's and a parameter; \<open>None\<close> is the panic of
  \<open>from_hickory\<close>.
\<close>

record chain_info =
  best_hash :: h256
  best_number :: u32

definition rpc_get_info :: "chain_info \<Rightarrow> domain_hash \<Rightarrow> 'b runtime \<Rightarrow> name_record option" where
  "rpc_get_info chain node s =
     map_option (\<lambda>r. r\<lparr>nr_read_block_hash := best_hash chain, nr_read_block_number := best_number chain\<rparr>)
       (api_get_info node s)"

definition rpc_resolve_name ::
  "bool \<Rightarrow> keccak \<Rightarrow> chain_info \<Rightarrow> u8 list \<Rightarrow> 'b runtime \<Rightarrow> name_record option" where
  "rpc_resolve_name kusama hash chain name s =
     map_option (\<lambda>r. r\<lparr>nr_read_block_hash := best_hash chain, nr_read_block_number := best_number chain\<rparr>)
       (api_resolve_name kusama hash name s)"

definition rpc_get_listing ::
  "bool \<Rightarrow> keccak \<Rightarrow> chain_info \<Rightarrow> u8 list \<Rightarrow> 'b runtime \<Rightarrow> listing_info option" where
  "rpc_get_listing kusama hash chain name s =
     map_option (\<lambda>r. r\<lparr>li_read_block_hash := best_hash chain, li_read_block_number := best_number chain\<rparr>)
       (api_get_listing kusama hash name s)"

fun convert_types :: "(u16 \<Rightarrow> hickory_type) \<Rightarrow> u32 list \<Rightarrow> record_type list option" where
  "convert_types of_code [] = Some []"
| "convert_types of_code (code # codes) =
     (case from_hickory (of_code (ucast code)) of
        None \<Rightarrow> None
      | Some rt \<Rightarrow> map_option (Cons rt) (convert_types of_code codes))"

definition number_types ::
  "(hickory_type \<Rightarrow> u16) \<Rightarrow> (record_type \<times> u8 list) list \<Rightarrow> (u32 \<times> u8 list) list" where
  "number_types to_code = map (\<lambda>(rt, data). (ucast (to_code (to_hickory rt)), data))"

definition rpc_lookup ::
  "(u16 \<Rightarrow> hickory_type) \<Rightarrow> (hickory_type \<Rightarrow> u16) \<Rightarrow> domain_hash \<Rightarrow> u32 list \<Rightarrow> 'b runtime
    \<Rightarrow> (u32 \<times> u8 list) list option" where
  "rpc_lookup of_code to_code node codes s =
     map_option (\<lambda>rts. number_types to_code (api_lookup node rts s)) (convert_types of_code codes)"

definition rpc_lookup_by_name ::
  "(u16 \<Rightarrow> hickory_type) \<Rightarrow> (hickory_type \<Rightarrow> u16) \<Rightarrow> bool \<Rightarrow> keccak \<Rightarrow> u8 list \<Rightarrow> u32 list \<Rightarrow> 'b runtime
    \<Rightarrow> (u32 \<times> u8 list) list option" where
  "rpc_lookup_by_name of_code to_code kusama hash name codes s =
     map_option (\<lambda>rts. number_types to_code (api_lookup_by_name kusama hash name rts s))
       (convert_types of_code codes)"

definition rpc_all :: "'b runtime \<Rightarrow> (domain_hash \<times> registrar_info) list" where
  "rpc_all s = api_all s"

definition rpc_account_dashboard :: "account_id \<Rightarrow> 'b runtime \<Rightarrow> account_dashboard" where
  "rpc_account_dashboard account s = api_account_dashboard account s"

section \<open>Genesis\<close>

definition genesis_base_prices :: "u128 list" where
  "genesis_base_prices =
     [1000 * UNIT, 100 * UNIT, 45 * UNIT, 25 * UNIT, 10 * UNIT, UNIT div 2, UNIT div 2, UNIT div 2,
      UNIT div 2, UNIT div 2, UNIT div 2]"

definition ascii_of :: "string \<Rightarrow> u8 list" where
  "ascii_of str = map (\<lambda>ch. of_nat (of_char ch)) str"

definition genesis_reserved_names :: "u8 list list" where
  "genesis_reserved_names = map ascii_of
     [''polkadot'', ''kusama'', ''paseo'', ''westend'', ''fellowship'', ''hub'', ''polkadothub'',
      ''assethub'', ''collectives'', ''pusd'', ''pop'', ''revive'', ''jam'', ''people'', ''dap'']"

definition testnet_genesis ::
  "bool \<Rightarrow> ('b, 'src) config \<Rightarrow> account_id \<Rightarrow> 'b \<Rightarrow> h256 \<Rightarrow> 'b runtime option" where
  "testnet_genesis kusama c root balances parent =
     map_option (\<lambda>nft_st.
       \<lparr>rt_nft = nft_st,
        rt_registry = registry_genesis_build [] (Some root),
        rt_registrar = registrar_genesis_build c [] [] genesis_reserved_names,
        rt_resolvers = resolvers_genesis_build [],
        rt_market = \<lparr>listings = Map.empty\<rparr>,
        rt_oracle = oracle_genesis_build genesis_base_prices (replicate 11 0) 1,
        rt_origin = origin_genesis_build [],
        rt_redeem = \<lparr>redeems = Map.empty\<rparr>,
        rt_balances = balances, rt_now = 0, rt_block_number = 0, rt_parent_hash = parent,
        rt_events = []\<rparr>)
       (nft_genesis_build (cfg_max_class_metadata c) (cfg_max_token_metadata c)
          [(root, [], [(root, [], default_token_data, NATIVE_BASENODE kusama)])] nft_empty)"

section \<open>Initialisers\<close>

definition initial_registry ::
  "('b, 'src) config \<Rightarrow> account_id \<Rightarrow> domain_hash \<Rightarrow> 'b runtime \<Rightarrow> 'b runtime option" where
  "initial_registry c off root_domain s =
     (let s = upd_registry (\<lambda>r. r\<lparr>official := Some off\<rparr>) s in
      case nft_create_class (cfg_max_class_metadata c) off [] (rt_nft s) of
        Inl _ \<Rightarrow> None
      | Inr (class_id, st) \<Rightarrow>
          (case nft_mint (cfg_max_token_metadata c) off (class_id, root_domain) [] default_token_data st of
             Inl _ \<Rightarrow> None
           | Inr st \<Rightarrow> Some (upd_nft (\<lambda>_. st) s)))"

definition initial_origin :: "account_id list \<Rightarrow> 'b runtime \<Rightarrow> 'b runtime" where
  "initial_origin managers s =
     s\<lparr>rt_origin := (rt_origin s)\<lparr>origins := foldl (\<lambda>m a. m(a \<mapsto> ())) (origins (rt_origin s)) managers\<rparr>\<rparr>"

definition initial_price_oracle ::
  "u128 list \<Rightarrow> u128 list \<Rightarrow> u128 \<Rightarrow> 'b runtime \<Rightarrow> 'b runtime" where
  "initial_price_oracle base_prices rent_prices init_rate s =
     s\<lparr>rt_oracle := \<lparr>base_price = base_prices, rent_price = rent_prices, exchange_rate = init_rate\<rparr>\<rparr>"

end
