(* ===== verification/Calls.thy ===== *)
theory Calls
  imports Runtime_Api
begin

text \<open>
  The calls of the PNS pallets as one machine: \<open>dispatch\<close> is the runtime's call dispatch
  (the pallets composed in src/runtime/src/lib.rs), \<open>execute\<close> adds the rollback of a failed
  extrinsic, and \<open>reachable\<close> is what a chain can come to from a genesis state by extrinsics
  and by new blocks.  The invariant of Name_Invariant holds at genesis and in every
  reachable state.

  The redeem-code and manager pallets are not part of the composed runtime, so their calls
  are not calls of \<open>dispatch\<close>.
\<close>

section \<open>Dispatch\<close>

datatype 'src call =
    Call_set_exchange_rate u128
  | Call_set_base_price "u128 list"
  | Call_set_rent_price "u128 list"
  | Call_burn "u8 list"
  | Call_set_official account_id
  | Call_add_reserved "u8 list"
  | Call_remove_reserved "u8 list"
  | Call_register "u8 list" 'src "u8 list option"
  | Call_renew
  | Call_transfer 'src
  | Call_release_name
  | Call_offer_subdomain "u8 list" 'src
  | Call_accept_subdomain "u8 list" "u8 list"
  | Call_reject_subdomain "u8 list" "u8 list"
  | Call_revoke_subdomain "u8 list"
  | Call_release_subdomain "u8 list" "u8 list"
  | Call_accept_offered_name "u8 list"
  | Call_set_record "u8 list" record_type "u8 list"
  | Call_set_text "u8 list" text_kind "u8 list"
  | Call_create_listing u128 u64
  | Call_cancel_listing
  | Call_buy_name "u8 list" "account_id option"

fun dispatch ::
  "('b, 'src) config \<Rightarrow> origin \<Rightarrow> 'src call \<Rightarrow> 'b runtime \<Rightarrow> 'b runtime result" where
  "dispatch c org (Call_set_exchange_rate rate) s = set_exchange_rate c org rate s"
| "dispatch c org (Call_set_base_price prices) s = set_base_price c org prices s"
| "dispatch c org (Call_set_rent_price prices) s = set_rent_price c org prices s"
| "dispatch c org (Call_burn name) s = registry_burn c org name s"
| "dispatch c org (Call_set_official new_official) s = set_official c org new_official s"
| "dispatch c org (Call_add_reserved name) s = add_reserved c org name s"
| "dispatch c org (Call_remove_reserved name) s = remove_reserved c org name s"
| "dispatch c org (Call_register name owner reject_offer) s = register c org name owner reject_offer s"
| "dispatch c org Call_renew s = renew c org s"
| "dispatch c org (Call_transfer receiver) s = transfer c org receiver s"
| "dispatch c org Call_release_name s = release_name org s"
| "dispatch c org (Call_offer_subdomain lbl target) s = offer_subdomain c org lbl target s"
| "dispatch c org (Call_accept_subdomain parent lbl) s = accept_subdomain c org parent lbl s"
| "dispatch c org (Call_reject_subdomain parent lbl) s = reject_subdomain c org parent lbl s"
| "dispatch c org (Call_revoke_subdomain lbl) s = revoke_subdomain c org lbl s"
| "dispatch c org (Call_release_subdomain parent lbl) s = release_subdomain c org parent lbl s"
| "dispatch c org (Call_accept_offered_name name) s = accept_offered_name c org name s"
| "dispatch c org (Call_set_record name rt content) s =
     set_record c check_node_useable org name rt content s"
| "dispatch c org (Call_set_text name kind content) s =
     set_text c check_node_useable org name kind content s"
| "dispatch c org (Call_create_listing price expires_at) s = create_listing org price expires_at s"
| "dispatch c org Call_cancel_listing s = cancel_listing org s"
| "dispatch c org (Call_buy_name name recipient) s = buy_name c org name recipient s"

definition execute :: "('b, 'src) config \<Rightarrow> origin \<Rightarrow> 'src call \<Rightarrow> 'b runtime \<Rightarrow> 'b runtime" where
  "execute c org call s = (case dispatch c org call s of Inl _ \<Rightarrow> s | Inr s' \<Rightarrow> s')"

text \<open>The bounds in the calls' argument types: arrays of eleven prices, bounded contents.\<close>

fun call_decodes :: "('b, 'src) config \<Rightarrow> 'src call \<Rightarrow> bool" where
  "call_decodes c (Call_set_base_price prices) = (length prices = 11)"
| "call_decodes c (Call_set_rent_price prices) = (length prices = 11)"
| "call_decodes c (Call_set_record name rt content) = (length content \<le> cfg_max_content_len c)"
| "call_decodes c (Call_set_text name kind content) = (length content \<le> cfg_max_content_len c)"
| "call_decodes c _ = True"

section \<open>Side conditions\<close>

text \<open>
  \<open>no_collision\<close>: the hash sends the name being registered to no live subname and the
  subname being offered to no node in use.  \<open>live_gift\<close>: a gift is accepted by the account
  that owns its token.
\<close>

fun no_collision :: "('b, 'src) config \<Rightarrow> origin \<Rightarrow> 'src call \<Rightarrow> 'b runtime \<Rightarrow> bool" where
  "no_collision c org (Call_register name owner reject_offer) s =
     (subname_records (rt_registry s) (name_node c name (cfg_base_node c)) = None)"
| "no_collision c org (Call_offer_subdomain lbl target) s =
     (\<forall>a p. org = Origin_Signed a \<longrightarrow> primary_name a s = Some p \<longrightarrow> fresh_node (name_node c lbl p) s)"
| "no_collision c org _ s = True"

fun live_gift :: "('b, 'src) config \<Rightarrow> origin \<Rightarrow> 'src call \<Rightarrow> 'b runtime \<Rightarrow> bool" where
  "live_gift c org (Call_accept_offered_name name) s =
     (\<forall>a. org = Origin_Signed a \<longrightarrow> owner_of (name_node c name (cfg_base_node c)) s = Some a)"
| "live_gift c org _ s = True"

section \<open>Changing the official account\<close>

lemma nft_wf_class_owner:
  assumes "nft_wf st" "classes st k = Some info"
  shows "nft_wf (st\<lparr>classes := (classes st)(k \<mapsto> info\<lparr>ci_owner := a\<rparr>)\<rparr>)"
proof -
  let ?st = "st\<lparr>classes := (classes st)(k \<mapsto> info\<lparr>ci_owner := a\<rparr>)\<rparr>"
  have "class_tokens ?st c = class_tokens st c" for c by (simp add: class_tokens_def)
  then have "class_count_ok ?st c" if "class_count_ok st c" for c
    using that assms(2) by (auto simp: class_count_ok_def split: option.splits)
  moreover have "nft_index_ok ?st"
    using assms(1) by (simp add: nft_wf_def nft_index_ok_def nft_is_owner_def nft_owner_of_def)
  ultimately show ?thesis
    using assms by (auto simp: nft_wf_def nft_count_ok_def)
qed

lemma set_class_owner_facts:
  "nft_wf st \<Longrightarrow> nft_wf (set_class_owner a st)" "tokens (set_class_owner a st) = tokens st"
  by (simp_all add: set_class_owner_def nft_wf_class_owner split: option.splits)

lemma set_official_iff:
  assumes "official_ok (cfg_base_node c) s"
  shows "set_official c org new s = Inr s' \<longleftrightarrow>
    (\<exists>who old st. cfg_manager_origin c s org = Inr who \<and> official (rt_registry s) = Some old
       \<and> nft_transfer old new (0, cfg_base_node c) (rt_nft s) = Inr st
       \<and> s' = upd_nft (\<lambda>_. set_class_owner new st) (upd_registry (\<lambda>r. r\<lparr>official := Some new\<rparr>) s))"
proof -
  obtain old where "official (rt_registry s) = Some old"
    using assms by (auto simp: official_ok_def)
  then show ?thesis
    unfolding set_official_def
    by (auto simp: result_simps Let_def lift_nft_iff upd_nft_def upd_registry_def)
qed

lemma pns_inv_set_official:
  assumes "pns_inv c s" "set_official c org new s = Inr s'"
  shows "pns_inv c s'"
proof -
  let ?b = "cfg_base_node c"
  note p = pns_inv_parts [OF assms(1)]
  obtain old st where a: "nft_transfer old new (0, ?b) (rt_nft s) = Inr st"
    and s': "s' = upd_nft (\<lambda>_. set_class_owner new st) (upd_registry (\<lambda>r. r\<lparr>official := Some new\<rparr>) s)"
    using assms(2) by (auto simp: set_official_iff [OF p(5)])
  have tok: "name_token m s' = name_token m s" if "m \<noteq> ?b" for m
    using a that by (auto simp: s' nft_transfer_iff name_token_def set_class_owner_facts)
  have base: "name_token ?b s' \<noteq> None"
    using a by (auto simp: s' nft_transfer_iff name_token_def set_class_owner_facts)
  have tok': "name_token m s' = None \<longleftrightarrow> name_token m s = None" for m
    using tok [of m] base p(1) by (cases "m = ?b") (auto simp: tree_ok_def roots_ok_def)
  have "nft_owner_of st (0, ?b) = Some new"
    using nft_owner_of_transfer [OF a] by simp
  then have own: "owner_of m s' = (if m = ?b then Some new else owner_of m s)" for m
    using tok [of m] by (auto simp: owner_of_def s' nft_owner_of_def set_class_owner_facts)
  have reg: "rt_registry s' = (rt_registry s)\<lparr>official := Some new\<rparr>" by (simp add: s')
  have "nft_wf (rt_nft s')"
    using p(1) nft_wf_transfer [OF _ a] by (simp add: s' tree_ok_def set_class_owner_facts)
  moreover have "roots_ok ?b s'" "counters_ok ?b s'" "deleg_ok (rt_registry s')"
    using p(1) by (auto simp: tree_ok_def roots_ok_def counters_ok_def deleg_defs reg tok tok')
  ultimately have "tree_ok ?b s'" by (simp add: tree_ok_def)
  moreover have "anchors_ok ?b s'"
    using p(2) by (auto simp: anchors_ok_def anchored_def no_orphans_def ss58_def own reg) (simp_all add: s')
  moreover have "get_info m s' = get_info m s" for m by (simp add: s' get_info_def)
  then have "infos_ok ?b s'" "capacity_ok s'"
    using p(3,4) by (auto simp: infos_ok_def capacity_ok_def own reg)
  ultimately show ?thesis
    using p(6) by (simp add: pns_inv_def official_ok_def own reg) (simp add: s')
qed

section \<open>Every call keeps the invariant\<close>

lemma pns_inv_dispatch:
  assumes "pns_inv c s" "dispatch c org call s = Inr s'" "call_decodes c call"
    "no_collision c org call s" "live_gift c org call s"
  shows "pns_inv c s'"
  using assms
  by (cases call)
    (auto intro: pns_inv_oracle_calls pns_inv_registry_burn pns_inv_set_official pns_inv_reserved
      pns_inv_register pns_inv_renew pns_inv_transfer pns_inv_release_name pns_inv_offer_subdomain
      pns_inv_accept_subdomain pns_inv_reject_subdomain pns_inv_revoke_subdomain
      pns_inv_release_subdomain pns_inv_accept_offered_name pns_inv_set_record pns_inv_set_text
      pns_inv_listing_calls pns_inv_buy_name)

lemma pns_inv_execute:
  assumes "pns_inv c s" "call_decodes c call" "no_collision c org call s" "live_gift c org call s"
  shows "pns_inv c (execute c org call s)"
  using assms pns_inv_dispatch [OF assms(1) _ assms(2-4)]
  by (auto simp: execute_def split: sum.splits)

inductive reachable :: "('b, 'src) config \<Rightarrow> 'b runtime \<Rightarrow> 'b runtime \<Rightarrow> bool"
  for c :: "('b, 'src) config" and g :: "'b runtime" where
  genesis: "reachable c g g"
| extrinsic: "reachable c g s \<Longrightarrow> call_decodes c call \<Longrightarrow> no_collision c org call s
    \<Longrightarrow> live_gift c org call s \<Longrightarrow> reachable c g (execute c org call s)"
| block: "reachable c g s \<Longrightarrow> rt_now s \<le> t
    \<Longrightarrow> reachable c g (s\<lparr>rt_now := t, rt_block_number := n, rt_parent_hash := h, rt_balances := b\<rparr>)"

lemma pns_inv_block:
  "pns_inv c s \<Longrightarrow>
    pns_inv c (s\<lparr>rt_now := t, rt_block_number := n, rt_parent_hash := h, rt_balances := b\<rparr>)"
  by (rule pns_inv_registrar_cong) (simp_all add: get_info_def)

lemma reachable_inv:
  assumes "reachable c g s" "pns_inv c g"
  shows "pns_inv c s"
  using assms by (induction rule: reachable.induct) (auto intro: pns_inv_execute pns_inv_block)

section \<open>The genesis state satisfies the invariant\<close>

lemma registrar_genesis_infos:
  "registrar_infos (registrar_genesis_build c [] [] names) = []"
proof -
  have "registrar_infos (foldl (\<lambda>st name.
      case parse_name_to_node (cfg_keccak c) name (cfg_base_node c) of
        None \<Rightarrow> st
      | Some node \<Rightarrow> st\<lparr>reserved_list := (reserved_list st)(node \<mapsto> ())\<rparr>) st names) = registrar_infos st" for st :: registrar_storage
    by (induction names arbitrary: st) (auto split: option.splits)
  then show ?thesis by (simp add: registrar_genesis_build_def Let_def)
qed

lemma registrar_genesis_reserved:
  "reserved_list (registrar_genesis_build c [] [] names) n \<noteq> None \<longleftrightarrow>
     (\<exists>name\<in>set names. parse_name_to_node (cfg_keccak c) name (cfg_base_node c) = Some n)"
proof -
  have "reserved_list (foldl (\<lambda>st name.
      case parse_name_to_node (cfg_keccak c) name (cfg_base_node c) of
        None \<Rightarrow> st
      | Some node \<Rightarrow> st\<lparr>reserved_list := (reserved_list st)(node \<mapsto> ())\<rparr>) st names) n \<noteq> None \<longleftrightarrow>
    reserved_list st n \<noteq> None
    \<or> (\<exists>name\<in>set names. parse_name_to_node (cfg_keccak c) name (cfg_base_node c) = Some n)" for st :: registrar_storage
    by (induction names arbitrary: st) (auto split: option.splits)
  then show ?thesis by (simp add: registrar_genesis_build_def Let_def)
qed

lemma genesis_nft:
  assumes "testnet_genesis kusama c root balances parent = Some g"
  shows "nft_wf (rt_nft g)"
    "tokens (rt_nft g) = [(0, NATIVE_BASENODE kusama) \<mapsto>
       \<lparr>ti_metadata = [], ti_owner = root, ti_data = default_token_data\<rparr>]"
proof -
  have b: "nft_genesis_build (cfg_max_class_metadata c) (cfg_max_token_metadata c)
      [(root, [], [(root, [], default_token_data, NATIVE_BASENODE kusama)])] nft_empty = Some (rt_nft g)"
    using assms by (auto simp: testnet_genesis_def)
  show "nft_wf (rt_nft g)"
    using nft_genesis_build_wf [OF b nft_wf_empty] by simp
  show "tokens (rt_nft g) = [(0, NATIVE_BASENODE kusama) \<mapsto>
       \<lparr>ti_metadata = [], ti_owner = root, ti_data = default_token_data\<rparr>]"
    using b by (auto simp: nft_create_class_iff nft_mint_iff nft_empty_def
        split: sum.splits option.splits prod.splits)
qed

text \<open>A chain on which the base node is the only token and nothing is delegated or recorded.\<close>

lemma pns_inv_fresh:
  assumes "nft_wf (rt_nft g)" and "\<And>n. get_info n g = None"
    and "\<And>n. name_token n g = (if n = cfg_base_node c then
      Some \<lparr>ti_metadata = [], ti_owner = root, ti_data = default_token_data\<rparr> else None)"
    and "rt_registry g = registry_genesis_build [] (Some root)"
    and "rt_resolvers g = resolvers_genesis_build []" and "price_tables_ok (rt_oracle g)"
  shows "pns_inv c g"
proof -
  have own: "owner_of n g = (if n = cfg_base_node c then Some root else None)" for n
    by (simp add: owner_of_def assms(3))
  have reg: "sub_names (rt_registry g) = (\<lambda>_. [])" "subname_records (rt_registry g) = Map.empty"
    "offered_to_account (rt_registry g) = (\<lambda>_. [])" "account_to_subnames (rt_registry g) = (\<lambda>_. [])"
    "runtime_origin (rt_registry g) = Map.empty" "official (rt_registry g) = Some root"
    by (simp_all add: assms(4) registry_genesis_build_def)
  have "tree_ok (cfg_base_node c) g"
    by (simp add: tree_ok_def assms(1,3) deleg_defs roots_ok_def counters_ok_def reg dm_contains_iff
        dm_iter_def dm_distinct_def)
  moreover have "anchors_ok (cfg_base_node c) g"
    by (simp add: anchors_ok_def anchored_def no_orphans_def own reg assms(5)
        resolvers_genesis_build_def get_record_def get_text_def dm_get_def)
  ultimately show ?thesis
    by (simp add: pns_inv_def infos_ok_def capacity_ok_def official_ok_def assms(2,6) own reg)
qed

lemma testnet_genesis_inv:
  assumes "testnet_genesis kusama c root balances parent = Some g"
    "cfg_base_node c = NATIVE_BASENODE kusama"
  shows "pns_inv c g"
proof (rule pns_inv_fresh)
  show "nft_wf (rt_nft g)" by (rule genesis_nft [OF assms(1)])
  show "get_info n g = None" for n
    using assms(1) by (auto simp: testnet_genesis_def get_info_def registrar_genesis_infos)
  show "name_token n g = (if n = cfg_base_node c then
      Some \<lparr>ti_metadata = [], ti_owner = root, ti_data = default_token_data\<rparr> else None)" for n
    by (simp add: name_token_def genesis_nft(2) [OF assms(1)] assms(2))
  show "rt_registry g = registry_genesis_build [] (Some root)"
    "rt_resolvers g = resolvers_genesis_build []"
    using assms(1) by (auto simp: testnet_genesis_def)
  show "price_tables_ok (rt_oracle g)"
    using assms(1)
    by (auto simp: testnet_genesis_def price_tables_ok_def oracle_genesis_build_def
        genesis_base_prices_def)
qed

end
