(* ===== verification/Scenario.thy ===== *)
theory Scenario
  imports Calls
begin

text \<open>
  A chain to compute with.  The properties that have hypotheses are applied to it: the
  runtime's configuration over a hash that sums bytes, a currency that is a table of
  balances with a total, and the base node 17; and the states a short history goes through
  on it (a registration, an offer of a subname, its acceptance, a listing).

  Every state is written out, and a lemma says that the call leads to it.
\<close>

named_theorems demo_eval \<open>equations that evaluate a call on a state written out\<close>

section \<open>The currency and the configuration\<close>

type_synonym demo_balances = "(account_id \<Rightarrow> u128) \<times> u128"

definition demo_withdraw :: "account_id \<Rightarrow> u128 \<Rightarrow> demo_balances \<Rightarrow> demo_balances result" where
  "demo_withdraw who amount b =
     (if amount \<le> fst b who \<and> amount \<le> snd b
      then Inr ((fst b)(who := fst b who - amount), snd b - amount) else Inl (CurrencyError 0))"

definition demo_pay :: "account_id \<Rightarrow> account_id \<Rightarrow> u128 \<Rightarrow> demo_balances \<Rightarrow> demo_balances result" where
  "demo_pay source dest amount b =
     (if source = dest then Inr b
      else case checked_add (fst b dest) amount of
        None \<Rightarrow> Inl (CurrencyError 1)
      | Some x \<Rightarrow>
          if amount \<le> fst b source
          then Inr ((fst b)(source := fst b source - amount, dest := x), snd b)
          else Inl (CurrencyError 0))"

definition demo_free :: "demo_balances \<Rightarrow> account_id \<Rightarrow> nat" where
  "demo_free b who = unat (fst b who)"

definition demo_issuance :: "demo_balances \<Rightarrow> nat" where
  "demo_issuance b = unat (snd b)"

definition demo :: "(demo_balances, account_id) config" where
  "demo = (pns_config False sum_hash Inr demo_withdraw demo_pay)\<lparr>cfg_base_node := 17\<rparr>"

lemma demo_sel [demo_eval, simp]:
  "cfg_keccak demo = sum_hash" "cfg_base_node demo = 17" "cfg_grace_period demo = 2592000000"
  "cfg_default_capacity demo = 10" "cfg_max_registration_duration demo = 31536000000"
  "cfg_max_token_metadata demo = 0" "cfg_max_content_len demo = 1024"
  "cfg_protocol_fee_bps demo = 200" "cfg_is_open demo s" "cfg_lookup demo = Inr"
  "cfg_manager_origin demo s = ensure_root_as_account_id"
  "cfg_withdraw demo = demo_withdraw" "cfg_transfer demo = demo_pay"
  by (simp_all add: demo_def pns_config_def pns_is_open_def MaxRegistrationDuration_def
      GracePeriod_def DAYS_def HOURS_def MINUTES_def MILLI_SECS_PER_BLOCK_def)

text \<open>The currency obeys the laws the pallets rely on.\<close>

lemma demo_withdraw_burns: "withdraw_burns demo demo_free demo_issuance"
  by (auto simp: withdraw_burns_def demo_withdraw_def demo_free_def demo_issuance_def unat_sub
      word_le_nat_alt split: if_splits)

lemma demo_transfer_moves: "transfer_moves demo demo_free demo_issuance"
  by (auto simp: transfer_moves_def demo_pay_def demo_free_def demo_issuance_def unat_sub
      word_le_nat_alt unat_checked_add split: if_splits option.splits)

section \<open>Names\<close>

text \<open>The name \<open>a\<close> has node 116, the name \<open>b\<close> node 117 and the subname \<open>b.a\<close> node 216.\<close>

lemma name_node_sum:
  assumes "p < 256" and "sum_hash (to_ascii_lowercase name) < 256"
  shows "name_node demo name p = 1 + p + sum_hash (to_ascii_lowercase name)"
  using assms by (simp add: name_node_def sum_hash_child)

lemma demo_labels [demo_eval, simp]: "label_bytes [97]" "label_bytes [98]"
  by (simp_all add: label_bytes_def is_ascii_alphanumeric_def)

lemma demo_nodes [demo_eval, simp]:
  "name_node demo [97] 17 = 116" "name_node demo [98] 17 = 117" "name_node demo [98] 116 = 216"
  by (simp_all add: name_node_sum to_ascii_lowercase_def ascii_lower_def sum_hash_def)

lemmas demo_frame [demo_eval] = ensure_signed_def ensure_root_def ensure_root_as_account_id_def
  checked_add_def checked_sub_def upd_nft_def upd_registry_def upd_registrar_def deposit_event_def
  dm_iter_def dm_insert_def dm_remove_def dm_clear_def im_insert_def im_get_def im_remove_def
  registry_genesis_build_def oracle_genesis_build_def resolvers_genesis_build_def

lemmas demo_ops [demo_eval] = label_node_under_eq is_registrable_def MIN_REGISTRABLE_LEN_def
  get_official_account_def drop_stale_primary_def primary_name_def ensure_no_subname_def
  has_active_subname_def registration_fee_def mint_subname_def name_token_def
  verify_with_owner_def register_payments_def forget_pre_owner_def pay_fee_def demo_withdraw_def
  demo_pay_def lift_nft_def nft_mint_def attach_child_def add_children_def put_children_def
  add_children_with_check_def sub_children_def update_ss58_def record_origin_def
  set_ss58_record_def set_origin_record_def registered_info_def get_info_def default_token_data_def
  registry_writes registrar_writes reject_pending_def still_valid_def owner_of_def

section \<open>The states of a short history\<close>

definition demo_base :: "demo_balances runtime" where
  "demo_base =
     \<lparr>rt_nft = \<lparr>next_class_id = 1,
        classes = [0 \<mapsto> \<lparr>ci_metadata = [], ci_total_issuance = 1, ci_owner = 1\<rparr>],
        tokens = [(0, 17) \<mapsto> \<lparr>ti_metadata = [], ti_owner = 1, ti_data = default_token_data\<rparr>],
        tokens_by_owner = (\<lambda>_. [])(1 := [((0, 17), ())])\<rparr>,
      rt_registry = registry_genesis_build [] (Some 1),
      rt_registrar = \<lparr>registrar_infos = [], reserved_list = Map.empty,
        owner_to_primary_name = Map.empty, offered_names = []\<rparr>,
      rt_resolvers = resolvers_genesis_build [],
      rt_market = \<lparr>listings = Map.empty\<rparr>,
      rt_oracle = oracle_genesis_build (replicate 11 5) (replicate 11 0) 1,
      rt_origin = origin_genesis_build [],
      rt_redeem = \<lparr>redeems = Map.empty\<rparr>,
      rt_balances = (\<lambda>_. 100, 1000), rt_now = 0, rt_block_number = 0, rt_parent_hash = 3,
      rt_events = []\<rparr>"

text \<open>Account 2 registers the name \<open>a\<close>.\<close>

definition demo_alice :: "demo_balances runtime" where
  "demo_alice =
     \<lparr>rt_nft = \<lparr>next_class_id = 1,
        classes = [0 \<mapsto> \<lparr>ci_metadata = [], ci_total_issuance = 2, ci_owner = 1\<rparr>],
        tokens = [(0, 116) \<mapsto> \<lparr>ti_metadata = [], ti_owner = 2, ti_data = \<lparr>td_children = 0\<rparr>\<rparr>,
          (0, 17) \<mapsto> \<lparr>ti_metadata = [], ti_owner = 1, ti_data = \<lparr>td_children = 1\<rparr>\<rparr>],
        tokens_by_owner = (\<lambda>_. [])(1 := [((0, 17), ())], 2 := [((0, 116), ())])\<rparr>,
      rt_registry = \<lparr>runtime_origin = [116 \<mapsto> Root], sub_names = \<lambda>_. [],
        account_to_subnames = (\<lambda>_. [])(2 := [(116, ())]), subname_records = Map.empty,
        offered_to_account = \<lambda>_. [], official = Some 1\<rparr>,
      rt_registrar = \<lparr>registrar_infos = [(116, \<lparr>ri_expire = 31536000000, ri_capacity = 10,
          ri_register_fee = 5, ri_label_len = 1, ri_last_block = 0\<rparr>)],
        reserved_list = Map.empty, owner_to_primary_name = [2 \<mapsto> 116], offered_names = []\<rparr>,
      rt_resolvers = \<lparr>texts = \<lambda>_. [],
        records = (\<lambda>_. [])(116 := [(RT_SS58, h256_encode 2), (RT_ORIGIN, h256_encode 3)])\<rparr>,
      rt_market = \<lparr>listings = Map.empty\<rparr>,
      rt_oracle = oracle_genesis_build (replicate 11 5) (replicate 11 0) 1,
      rt_origin = origin_genesis_build [],
      rt_redeem = \<lparr>redeems = Map.empty\<rparr>,
      rt_balances = ((\<lambda>_. 100)(2 := 95), 995), rt_now = 0, rt_block_number = 0, rt_parent_hash = 3,
      rt_events = [Registry_TokenMinted 0 116 17 2,
        Registrar_NameRegistered [97] 116 2 31536000000 5]\<rparr>"

definition demo_info :: registrar_info where
  "demo_info = \<lparr>ri_expire = 31536000000, ri_capacity = 10, ri_register_fee = 5, ri_label_len = 1,
     ri_last_block = 0\<rparr>"

lemma demo_register: "register demo (Origin_Signed 2) [97] 2 None demo_base = Inr demo_alice"
  by (simp add: register_def demo_eval demo_base_def demo_alice_def)

lemma demo_base_inv: "pns_inv demo demo_base"
proof (rule pns_inv_fresh)
  show "nft_wf (rt_nft demo_base)"
  proof -
    have "nft_index_ok (rt_nft demo_base)"
      by (auto simp: demo_base_def nft_index_ok_def nft_is_owner_def nft_owner_of_def dm_distinct_def
          dm_iter_def dm_contains_def dm_get_def split: if_splits)
    moreover have "class_tokens (rt_nft demo_base) c = (if c = 0 then {17} else {})" for c
      by (auto simp: class_tokens_def demo_base_def)
    then have "nft_count_ok (rt_nft demo_base)"
      by (auto simp: nft_count_ok_def class_count_ok_def) (auto simp: demo_base_def)
    ultimately show ?thesis by (simp add: nft_wf_def) (simp add: demo_base_def)
  qed
qed (simp_all add: demo_base_def get_info_def name_token_def price_tables_ok_def
    oracle_genesis_build_def)

lemma demo_alice_inv: "pns_inv demo demo_alice"
  by (rule pns_inv_register [OF demo_base_inv demo_register])
    (simp add: demo_base_def registry_genesis_build_def)

section \<open>A subname\<close>

definition demo_sub_record :: "subname_state \<Rightarrow> subname_record" where
  "demo_sub_record st = \<lparr>sr_parent = 116, sr_label = [98], sr_target = 3, sr_state = st\<rparr>"

text \<open>Account 2 offers the subname \<open>b.a\<close> to account 3.\<close>

definition demo_offer :: "demo_balances runtime" where
  "demo_offer = deposit_event (Registrar_SubnameOffered 116 216 [98] 3)
     (sub_names_insert 116 216 (offer_insert 3 216 (record_insert 216 (demo_sub_record Offered)
       (put_children 116 \<lparr>ti_metadata = [], ti_owner = 2, ti_data = \<lparr>td_children = 0\<rparr>\<rparr> 1 demo_alice))))"

text \<open>Account 3 accepts it.\<close>

definition demo_sub :: "demo_balances runtime" where
  "demo_sub = deposit_event (Registrar_SubnameAccepted 216 3)
     (held_insert 3 216 (offer_remove 3 216 (record_insert 216 (demo_sub_record Active) demo_offer)))
       \<lparr>rt_resolvers := (rt_resolvers demo_offer)\<lparr>records := dm_insert 216 RT_SS58 (h256_encode 3)
         (records (rt_resolvers demo_offer))\<rparr>\<rparr>"

lemma demo_offered: "offer_subdomain demo (Origin_Signed 2) [98] 3 demo_alice = Inr demo_offer"
proof -
  have "primary_name 2 demo_alice = Some 116" "get_info 116 demo_alice = Some demo_info"
    "rt_now demo_alice < ri_expire demo_info"
    "offer_subname 116 216 [98] 3 (ri_capacity demo_info) demo_alice =
       Inr (sub_names_insert 116 216 (offer_insert 3 216 (record_insert 216 (demo_sub_record Offered)
       (put_children 116 \<lparr>ti_metadata = [], ti_owner = 2, ti_data = \<lparr>td_children = 0\<rparr>\<rparr> 1 demo_alice))))"
    by (simp_all add: offer_subname_iff primary_name_def get_info_def im_get_def demo_alice_def
        name_token_def demo_info_def demo_sub_record_def)
  then show ?thesis
    by (auto simp: offer_subdomain_iff demo_offer_def)
qed

lemma demo_offer_inv: "pns_inv demo demo_offer"
proof (rule pns_inv_offer_subdomain [OF demo_alice_inv demo_offered])
  fix a p
  assume "Origin_Signed 2 = Origin_Signed a" "primary_name a demo_alice = Some p"
  then have "a = 2" "p = 116" by (simp_all add: primary_name_def demo_alice_def)
  then show "fresh_node (name_node demo [98] p) demo_alice"
    by (simp add: fresh_node_def name_token_def demo_alice_def dm_contains_def dm_get_def)
qed

lemma demo_offer_sel:
  "subname_records (rt_registry demo_offer) 216 = Some (demo_sub_record Offered)"
  "rt_registrar demo_offer = rt_registrar demo_alice" "rt_now demo_offer = 0"
  "account_to_subnames (rt_registry demo_offer) = account_to_subnames (rt_registry demo_alice)"
  by (simp_all add: demo_offer_def registry_writes) (simp add: demo_alice_def)

lemma demo_accepted: "accept_subdomain demo (Origin_Signed 3) [97] [98] demo_offer = Inr demo_sub"
proof -
  have "sub_node demo [97] [98] = Inr (116, 216)" by (simp add: sub_node_def label_node_under_eq)
  moreover have "ensure_parent_live 116 demo_offer = Inr demo_info"
    by (simp add: result_simps get_info_def demo_offer_sel) (simp add: im_get_def demo_alice_def demo_info_def)
  moreover have "accept_subname_offer demo 216 3 demo_offer = Inr (116,
      held_insert 3 216 (offer_remove 3 216 (record_insert 216 (demo_sub_record Active) demo_offer)))"
    by (simp add: accept_subname_offer_iff has_valid_canonical_name_def demo_offer_sel demo_sub_record_def dm_iter_def)
      (simp add: demo_alice_def)
  ultimately show ?thesis
    by (simp add: accept_subdomain_def ensure_signed_def demo_sub_def update_ss58_def set_ss58_record_def registry_writes)
qed

lemma demo_sub_inv: "pns_inv demo demo_sub"
  by (rule pns_inv_accept_subdomain [OF demo_offer_inv demo_accepted])

end
