(* ===== verification/Name_Lifecycle.thy ===== *)
theory Name_Lifecycle
  imports Scenario
begin

text \<open>
  What the calls on a canonical name do, from registration to release: the whole effect of
  \<open>register\<close>, \<open>renew\<close>, \<open>transfer\<close> and \<open>release_name\<close> on a state that satisfies the invariant
  of Name_Invariant, the fee they burn, and the safety property that no other call takes a
  name from its owner.
\<close>

lemma owner_of_registrar_writes [simp]:
  "owner_of n (primary_insert a m s) = owner_of n s" "owner_of n (primary_remove a s) = owner_of n s"
  "owner_of n (info_insert m i s) = owner_of n s" "owner_of n (offered_insert m r s) = owner_of n s"
  "owner_of n (offered_remove m s) = owner_of n s"
  by (simp_all add: owner_of_def name_token_def)

lemma owned_not_subname: "tree_ok base s \<Longrightarrow> owner_of n s = Some a \<Longrightarrow> \<not> subname_of s m n"
  using subname_of_not_token by (fastforce simp: owner_of_def)

section \<open>Registration\<close>

text \<open>What a registration without a rejected offer does, in one place.\<close>

lemma register_effect:
  assumes "pns_inv c s" "register c org name src None s = Inr s'"
  obtains caller owner fee expire where
    "org = Origin_Signed caller" "cfg_lookup c src = Inr owner"
    "registration_fee (length name) (rt_oracle s) = Some fee"
    "checked_add (rt_now s) (cfg_max_registration_duration c) = Some expire"
    "cfg_withdraw c caller fee (rt_balances s) = Inr (rt_balances s')"
    "\<not> has_valid_canonical_name c owner s" "\<not> has_active_subname owner s"
    "reserved_list (rt_registrar s) (name_node c name (cfg_base_node c)) = None"
    "owner_of (name_node c name (cfg_base_node c)) s = None
      \<or> is_ok (check_expires_registrable c (name_node c name (cfg_base_node c)) s)"
    "\<And>m. owner_of m s' = (if m = name_node c name (cfg_base_node c) then Some owner else owner_of m s)"
    "primary_name owner s' = Some (name_node c name (cfg_base_node c))"
    "get_info (name_node c name (cfg_base_node c)) s' = Some (registered_info c (length name) expire fee
       (rt_block_number s) (get_info (name_node c name (cfg_base_node c)) s))"
    "\<And>m. m \<noteq> name_node c name (cfg_base_node c) \<Longrightarrow> get_info m s' = get_info m s"
    "\<And>rt. get_record (rt_resolvers s') (name_node c name (cfg_base_node c)) rt =
       (if rt = RT_SS58 then h256_encode owner else if rt = RT_ORIGIN then h256_encode (rt_parent_hash s)
        else if owner_of (name_node c name (cfg_base_node c)) s = None
        then get_record (rt_resolvers s) (name_node c name (cfg_base_node c)) rt else [])"
  using assms(2)
proof (rule register_cases)
  let ?n = "name_node c name (cfg_base_node c)"
  fix caller owner s0 s1 s2 s3 s4 off expire fee
  assume r: "reject_pending c caller None s = Inr s0" and d: "drop_stale_primary c owner s0 = Inr s1"
    and m: "mint_subname c off [] (cfg_base_node c) ?n owner 0
       (register_payments c caller ?n (length name) expire fee) s1 = Inr s2"
    and u: "update_ss58 c ?n owner (primary_insert owner ?n s2) = Inr s3"
    and o: "record_origin c ?n (rt_parent_hash s3) s3 = Inr s4"
    and s': "s' = deposit_event (Registrar_NameRegistered name ?n owner expire fee) s4"
    and org: "org = Origin_Signed caller" "cfg_lookup c src = Inr owner"
    and res: "reserved_list (rt_registrar s0) ?n = None"
    and e: "checked_add (rt_now s0) (cfg_max_registration_duration c) = Some expire"
    and h: "\<not> has_active_subname owner s1"
    and f: "registration_fee (length name) (rt_oracle s1) = Some fee"
  have s0: "s0 = s" using r by (simp add: reject_pending_def)
  have s1: "s1 = (if primary_name owner s = None then s else primary_remove owner s)"
    and nv: "\<not> has_valid_canonical_name c owner s"
    using d by (auto simp: drop_stale_primary_iff s0)
  have eq: "rt_nft s1 = rt_nft s" "rt_registry s1 = rt_registry s" "rt_resolvers s1 = rt_resolvers s"
    "rt_balances s1 = rt_balances s" "rt_oracle s1 = rt_oracle s" "rt_now s1 = rt_now s"
    "rt_block_number s1 = rt_block_number s" "rt_parent_hash s1 = rt_parent_hash s"
    "get_info k s1 = get_info k s" for k
    by (simp_all add: s1)
  have own1: "owner_of k s1 = owner_of k s" for k using eq(1) by (simp add: owner_of_def name_token_def)
  have inv1: "tree_ok (cfg_base_node c) s1"
    using tree_ok_cong [OF pns_inv_parts(1) [OF assms(1)] eq(1,2)] .
  have nobase: "get_info (cfg_base_node c) s1 = None"
    using pns_inv_parts(3) [OF assms(1)] unfolding infos_ok_def eq by blast
  from m inv1 register_payments_frame nobase show thesis
  proof (rule mint_base_effect)
    fix who p
    assume pay: "register_payments c caller ?n (length name) expire fee who s1 = Inr p"
      and free: "owner_of ?n s1 = None \<or> is_ok (check_expires_registrable c ?n s1)"
      and reg: "rt_registrar s2 = rt_registrar p" "rt_balances s2 = rt_balances p"
        "rt_parent_hash s2 = rt_parent_hash p"
      and own: "\<And>k. owner_of k s2 = (if k = ?n then Some owner else owner_of k s1)"
      and rec: "\<And>k rt. get_record (rt_resolvers s2) k rt =
        (if subname_of s1 ?n k \<or> k = ?n \<and> owner_of ?n s1 \<noteq> None then [] else get_record (rt_resolvers s1) k rt)"
    from pay obtain b where b: "cfg_withdraw c caller fee (rt_balances s) = Inr b"
      and p: "p = info_insert ?n (registered_info c (length name) expire fee (rt_block_number s1)
        (get_info ?n s1)) ((forget_pre_owner ?n who s1)\<lparr>rt_balances := b\<rparr>)"
      by (auto simp: register_payments_iff eq)
    have pp: "rt_balances p = b" "rt_parent_hash p = rt_parent_hash s"
      "get_info k p = (if k = ?n then Some (registered_info c (length name) expire fee
         (rt_block_number s) (get_info ?n s)) else get_info k s)" for k
      by (auto simp: p forget_pre_owner_eq eq)
    have fin: "rt_balances s' = b" "get_info k s' = get_info k p" "owner_of k s' = owner_of k s2"
      "primary_name owner s' = Some ?n" "rt_parent_hash s3 = rt_parent_hash s" for k
      using u o reg pp(1,2) by (auto simp: s' update_ss58_iff record_origin_iff get_info_def primary_name_def
        primary_insert_def owner_of_def name_token_def)
    have recs: "get_record (rt_resolvers s') k rt = (if k = ?n \<and> rt = RT_ORIGIN then h256_encode (rt_parent_hash s)
         else if k = ?n \<and> rt = RT_SS58 then h256_encode owner else get_record (rt_resolvers s2) k rt)" for k rt
      using keeper.put_owner [OF u, of k rt] keeper.put_origin [OF o, of k rt] fin(5) by (auto simp: s')
    have nsub: "\<not> subname_of s1 ?n ?n"
      using subname_of_not_token [OF inv1] no_subname_of_unowned [OF inv1] by blast
    show thesis
      using free res f e h b nv fin pp own recs rec nsub
      by (intro that [of caller owner fee expire])
        (simp_all add: org s0 eq own1 has_active_subname_def check_expires_registrable_def)
  qed
qed


lemma registered_info_sel:
  "ri_expire (registered_info c len expire fee block old) = expire"
  "ri_register_fee (registered_info c len expire fee block old) = fee"
  "ri_label_len (registered_info c len expire fee block old) = of_nat len"
  "ri_last_block (registered_info c len expire fee block old) = block"
  by (simp_all add: registered_info_def split: option.splits)



text \<open>
  Registration fees are burned.  With a currency whose withdrawals burn, a registration
  takes exactly the table's fee from the caller and from the total issuance, and no other
  account's balance moves.
\<close>
theorem registration_fee_burned:
  assumes "withdraw_burns c free issuance" "pns_inv c s"
    "register c (Origin_Signed caller) name src None s = Inr s'"
    "registration_fee (length name) (rt_oracle s) = Some fee"
  shows "issuance (rt_balances s) = issuance (rt_balances s') + unat fee
     \<and> free (rt_balances s) caller = free (rt_balances s') caller + unat fee
     \<and> (\<forall>x. x \<noteq> caller \<longrightarrow> free (rt_balances s') x = free (rt_balances s) x)"
proof -
  have "cfg_withdraw c caller fee (rt_balances s) = Inr (rt_balances s')"
    by (rule register_effect [OF assms(2,3)]) (use assms(4) in simp)
  with assms(1) show ?thesis unfolding withdraw_burns_def by blast
qed

theorem registration_fee_burned_witness:
  "demo_issuance (rt_balances demo_base) = demo_issuance (rt_balances demo_alice) + 5
   \<and> demo_free (rt_balances demo_base) 2 = demo_free (rt_balances demo_alice) 2 + 5"
proof -
  have "registration_fee (length [97 :: u8]) (rt_oracle demo_base) = Some 5"
    by (simp add: demo_eval demo_base_def)
  from registration_fee_burned [OF demo_withdraw_burns demo_base_inv demo_register this]
  show ?thesis by simp
qed

section \<open>Who can take a name away\<close>

named_theorems owner_frame \<open>calls of the registry under which every name keeps its owner\<close>

lemma owner_of_nft: "rt_nft s' = rt_nft s \<Longrightarrow> owner_of n s' = owner_of n s"
  by (simp add: owner_of_def name_token_def)

lemma owner_of_delegation [owner_frame]:
  "offer_subname parent k lbl target capacity s = Inr s' \<Longrightarrow> owner_of n s' = owner_of n s"
  "accept_subname_offer c k acceptor s = Inr (parent, s') \<Longrightarrow> owner_of n s' = owner_of n s"
  "reject_subname_offer k caller s = Inr s' \<Longrightarrow> owner_of n s' = owner_of n s"
  "revoke_subname parent k s = Inr s' \<Longrightarrow> owner_of n s' = owner_of n s"
  "release_subname k caller s = Inr (parent, s') \<Longrightarrow> owner_of n s' = owner_of n s"
  by (auto simp: offer_subname_iff accept_subname_offer_iff reject_subname_offer_iff revoke_subname_iff
      release_subname_iff sub_children_iff registry_writes owner_of_put_children drop_delegation_def
      name_token_def owner_of_def put_children_def split: subname_state.splits)
    (metis subname_state.exhaust)

lemma owner_of_subdomain_calls [owner_frame]:
  "offer_subdomain c org lbl target s = Inr s' \<Longrightarrow> owner_of n s' = owner_of n s"
  "accept_subdomain c org parent lbl s = Inr s' \<Longrightarrow> owner_of n s' = owner_of n s"
  "reject_subdomain c org parent lbl s = Inr s' \<Longrightarrow> owner_of n s' = owner_of n s"
  "revoke_subdomain c org lbl s = Inr s' \<Longrightarrow> owner_of n s' = owner_of n s"
  "release_subdomain c org parent lbl s = Inr s' \<Longrightarrow> owner_of n s' = owner_of n s"
  by (auto simp: offer_subdomain_iff accept_subdomain_def reject_subdomain_def revoke_subdomain_def
      release_subdomain_def result_simps update_ss58_iff dest: owner_of_delegation)

lemma owner_of_other_calls [owner_frame]:
  "set_exchange_rate c org rate s = Inr s' \<Longrightarrow> owner_of n s' = owner_of n s"
  "set_base_price c org prices s = Inr s' \<Longrightarrow> owner_of n s' = owner_of n s"
  "set_rent_price c org prices s = Inr s' \<Longrightarrow> owner_of n s' = owner_of n s"
  "add_reserved c org name s = Inr s' \<Longrightarrow> owner_of n s' = owner_of n s"
  "remove_reserved c org name s = Inr s' \<Longrightarrow> owner_of n s' = owner_of n s"
  "renew c org s = Inr s' \<Longrightarrow> owner_of n s' = owner_of n s"
  "set_record c u org name rt content s = Inr s' \<Longrightarrow> owner_of n s' = owner_of n s"
  "set_text c u org name kind content s = Inr s' \<Longrightarrow> owner_of n s' = owner_of n s"
  "create_listing org price t s = Inr s' \<Longrightarrow> owner_of n s' = owner_of n s"
  "cancel_listing org s = Inr s' \<Longrightarrow> owner_of n s' = owner_of n s"
  "accept_offered_name c org name s = Inr s' \<Longrightarrow> owner_of n s' = owner_of n s"
  by (rule owner_of_nft; auto simp: set_exchange_rate_def set_base_price_def set_rent_price_def
      add_reserved_def remove_reserved_def renew_iff set_record_def set_text_def create_listing_def
      cancel_listing_def put_listings_def accept_offered_name_def Let_def drop_stale_primary_iff
      result_simps update_ss58_iff record_origin_iff)+

text \<open>The calls that move tokens, each with the reason it may.\<close>

definition may_lose :: "('b, 'src) config \<Rightarrow> origin \<Rightarrow> 'b runtime \<Rightarrow> domain_hash \<Rightarrow> account_id \<Rightarrow> bool" where
  "may_lose c org s n a \<longleftrightarrow> org = Origin_Signed a
     \<or> is_ok (check_expires_registrable c n s)
     \<or> (\<exists>l. listings (rt_market s) n = Some l \<and> ls_seller l = a \<and> rt_now s < ls_expires_at l)"

lemma revoke_subname_keeps:
  assumes "revoke_subname p k s = Inr s'"
  shows "rt_now s' = rt_now s" "rt_registrar s' = rt_registrar s"
proof -
  obtain rec where "sub_children p (sub_names_remove p k (drop_delegation k rec s)) = Inr s'"
    using assms by (auto simp: revoke_subname_iff)
  then show "rt_now s' = rt_now s" "rt_registrar s' = rt_registrar s"
    by (cases "sr_state rec"; auto simp: sub_children_iff drop_delegation_def registry_writes)+
qed

lemma tree_ok_offered_remove: "pns_inv c s \<Longrightarrow> tree_ok (cfg_base_node c) (offered_remove k s)"
  by (rule tree_ok_cong [OF pns_inv_parts(1)]) simp_all

lemma reject_pending_keeps:
  assumes "pns_inv c s" "reject_pending c caller rej s = Inr s0" "owner_of n s0 = Some a"
  shows "rt_now s0 = rt_now s \<and> get_info n s0 = get_info n s"
  using assms(2)
proof (cases rule: reject_pending_cases)
  case (gift k t)
  note b = tree_ok_offered_remove [OF assms(1)] gift(1)
  have "owner_of n t = Some a" using assms(3) gift(2) by simp
  then have "n \<noteq> k" using do_burn_effect(3) [OF b, of n] by auto
  then show ?thesis
    using do_burn_frame(1,5) [OF b] get_info_clear [of n k "offered_remove k s"]
    by (simp add: gift(2) get_info_def registrar_writes)
next
  case (subname k rec t)
  then show ?thesis
    using revoke_subname_keeps [OF subname(2)] by (simp add: get_info_def)
qed simp

lemma loss_register:
  assumes "pns_inv c s" "register c org name src rej s = Inr s'" "owner_of n s = Some a"
    "owner_of n s' \<noteq> Some a"
  shows "may_lose c org s n a"
  using assms(2)
proof (rule register_cases)
  let ?k = "name_node c name (cfg_base_node c)"
  fix caller owner s0 s1 s2 s3 s4 off expire fee
  assume org: "org = Origin_Signed caller" and r: "reject_pending c caller rej s = Inr s0"
    and d: "drop_stale_primary c owner s0 = Inr s1"
    and m: "mint_subname c off [] (cfg_base_node c) ?k owner 0
       (register_payments c caller ?k (length name) expire fee) s1 = Inr s2"
    and u: "update_ss58 c ?k owner (primary_insert owner ?k s2) = Inr s3"
    and o: "record_origin c ?k (rt_parent_hash s3) s3 = Inr s4"
    and s': "s' = deposit_event (Registrar_NameRegistered name ?k owner expire fee) s4"
  have inv1: "pns_inv c s1" using pns_inv_drop_stale [OF pns_inv_reject_pending [OF assms(1) r] d] .
  have nft1: "rt_nft s1 = rt_nft s0" "rt_now s1 = rt_now s0" "get_info k s1 = get_info k s0" for k
    using d by (auto simp: drop_stale_primary_iff)
  have nobase: "get_info (cfg_base_node c) s1 = None"
    using pns_inv_parts(3) [OF inv1] unfolding infos_ok_def by blast
  have end': "owner_of n s' = owner_of n s2"
    using u o by (auto simp: s' update_ss58_iff record_origin_iff intro: owner_of_nft)
  show ?thesis
  proof (cases "owner_of n s0 = Some a")
    case False
    from r show ?thesis
    proof (cases rule: reject_pending_cases)
      case (gift k t)
      have "tree_ok (cfg_base_node c) (offered_remove k s)"
        by (rule tree_ok_cong [OF pns_inv_parts(1) [OF assms(1)]]) simp_all
      from do_burn_effect(1,3) [OF this gift(1)] False assms(3) gift(2) show ?thesis
        by (auto simp: may_lose_def org owner_of_def name_token_def split: if_splits)
    next
      case (subname k rec t)
      then show ?thesis using False assms(3) owner_of_delegation(4) [OF subname(2), of n] by simp
    qed (use False assms(3) in simp)
  next
    case True
    from m pns_inv_parts(1) [OF inv1] register_payments_frame nobase have "is_ok (check_expires_registrable c n s1)"
      by (rule mint_base_effect)
        (use True end' assms(4) owner_of_nft [OF nft1(1), of n] in \<open>auto split: if_splits\<close>)
    then show ?thesis
      using reject_pending_keeps [OF assms(1) r True]
      by (simp add: may_lose_def check_expires_registrable_def nft1)
  qed
qed

lemma loss_burn:
  assumes "tree_ok base s" "do_burn caller k s = Inr s'" "owner_of n s = Some a" "owner_of n s' \<noteq> Some a"
  shows "a = caller"
  using do_burn_effect(1,3) [OF assms(1,2)] assms(3,4) by (metis option.inject)

lemma loss_do_transfer:
  assumes "tree_ok base s" "do_transfer c x y k s = Inr s'" "owner_of n s = Some a" "owner_of n s' \<noteq> Some a"
  shows "a = x \<and> n = k"
  using do_transfer_effect(1,4) [OF assms(1,2)] assms(3,4) by (metis option.inject)

lemma tree_ok_drop_stale:
  "pns_inv c s \<Longrightarrow> drop_stale_primary c who s = Inr s1 \<Longrightarrow> tree_ok (cfg_base_node c) s1"
  using pns_inv_drop_stale pns_inv_parts(1) by blast

lemma owner_of_drop_stale: "drop_stale_primary c who s = Inr s1 \<Longrightarrow> owner_of n s1 = owner_of n s"
  by (auto simp: drop_stale_primary_iff intro: owner_of_nft)

lemma loss_transfer:
  assumes "pns_inv c s" "transfer c org src s = Inr s'" "owner_of n s = Some a" "owner_of n s' \<noteq> Some a"
  shows "org = Origin_Signed a"
  using assms(2)
proof (rule transfer_cases)
  fix who receiver node s1 s2
  assume "org = Origin_Signed who" and d: "drop_stale_primary c receiver s = Inr s1"
    and t: "do_transfer c who receiver node s1 = Inr s2"
    and "s' = primary_insert receiver node (primary_remove who s2)"
  then show ?thesis
    using loss_do_transfer [OF tree_ok_drop_stale [OF assms(1) d] t, of n a] assms(3,4)
      owner_of_drop_stale [OF d, of n] owner_of_nft [of s' s2 n] by simp
qed

lemma loss_deliver:
  assumes "pns_inv c s" "deliver c k buyer ls recipient s = Inr s'" "owner_of n s = Some a"
    "owner_of n s' \<noteq> Some a"
  shows "a = ls_seller ls \<and> n = k"
proof (cases recipient)
  case None
  with assms(2) obtain s1 s2 where d: "drop_stale_primary c buyer s = Inr s1"
    and t: "do_transfer c (ls_seller ls) buyer k s1 = Inr s2" and nft: "rt_nft s' = rt_nft s2"
    by (auto simp: deliver_None_iff transfer_name_iff update_ss58_iff record_origin_iff)
  show ?thesis
    using loss_do_transfer [OF tree_ok_drop_stale [OF assms(1) d] t, of n a] assms(3,4)
      owner_of_drop_stale [OF d, of n] owner_of_nft [OF nft, of n] by simp
next
  case (Some recip)
  with assms(2) obtain s2 where t: "do_transfer c (ls_seller ls) recip k s = Inr s2"
    and nft: "rt_nft s' = rt_nft s2"
    by (auto simp: deliver_Some_iff offer_bought_name_iff)
  show ?thesis
    using loss_do_transfer [OF pns_inv_parts(1) [OF assms(1)] t, of n a] assms(3,4)
      owner_of_nft [OF nft, of n] by simp
qed

lemma loss_buy_name:
  assumes "pns_inv c s" "buy_name c org name recipient s = Inr s'" "owner_of n s = Some a"
    "owner_of n s' \<noteq> Some a"
  shows "may_lose c org s n a"
  using assms(2)
proof (rule buy_name_cases)
  let ?k = "name_node c name (cfg_base_node c)"
  fix buyer ls b1 b2
  assume l: "listings (rt_market s) ?k = Some ls" "rt_now s < ls_expires_at ls"
    and d: "deliver c ?k buyer ls recipient
       (put_listings (\<lambda>l. l(?k := None)) (s\<lparr>rt_balances := b2\<rparr>)) = Inr s'"
  have "a = ls_seller ls \<and> n = ?k"
    by (rule loss_deliver [OF pns_inv_put_listings [OF pns_inv_writes(6) [OF assms(1)]] d _ assms(4)])
      (use assms(3) in \<open>simp add: put_listings_def owner_of_def name_token_def\<close>)
  with l show ?thesis by (simp add: may_lose_def)
qed

lemma loss_set_official:
  assumes "pns_inv c s" "set_official c org new s = Inr s'" "n \<noteq> cfg_base_node c"
  shows "owner_of n s' = owner_of n s"
  using assms(2,3)
  by (auto simp: set_official_iff [OF pns_inv_parts(5) [OF assms(1)]] nft_transfer_iff owner_of_def
      name_token_def set_class_owner_facts)

text \<open>
  C3: A name cannot be taken from its owner.  If a call ends with the account no longer
  owning the name, then that account signed the call, or the name is past its grace period,
  or the account itself has an unexpired sale listing for it.
\<close>
theorem ownership_is_safe:
  assumes "pns_inv c s" "dispatch c org call s = Inr s'" "n \<noteq> cfg_base_node c"
    "owner_of n s = Some a" "owner_of n s' \<noteq> Some a"
  shows "may_lose c org s n a"
  using assms
proof (cases call)
  case (Call_burn name)
  with assms show ?thesis
    by (auto simp: registry_burn_def result_simps may_lose_def dest: loss_burn [OF pns_inv_parts(1) [OF assms(1)]])
next
  case Call_release_name
  with assms(2) obtain caller k where org: "org = Origin_Signed caller"
    and b: "do_burn caller k (primary_remove caller s) = Inr s'" by (auto simp: release_name_iff)
  have t: "tree_ok (cfg_base_node c) (primary_remove caller s)"
    by (rule tree_ok_cong [OF pns_inv_parts(1) [OF assms(1)]]) simp_all
  have "owner_of n (primary_remove caller s) = Some a"
    using assms(4) by (simp add: owner_of_def name_token_def)
  from loss_burn [OF t b this assms(5)] org show ?thesis by (simp add: may_lose_def)
next
  case (Call_transfer src)
  with loss_transfer [OF assms(1), of org src s' n a] assms show ?thesis by (simp add: may_lose_def)
qed (auto dest: owner_frame [where n = n] loss_set_official [OF assms(1)] loss_register [OF assms(1) _ assms(4)]
      loss_buy_name [OF assms(1) _ assms(4)])

text \<open>The registered name of the example, taken from its owner by the owner's own transfer.\<close>
theorem ownership_is_safe_witness:
  "\<exists>s'. dispatch demo (Origin_Signed 2) (Call_transfer 3) demo_alice = Inr s'
     \<and> owner_of 116 demo_alice = Some 2 \<and> owner_of 116 s' = Some 3
     \<and> may_lose demo (Origin_Signed 2) demo_alice 116 2"
proof -
  have own: "owner_of 116 demo_alice = Some 2" by (simp add: demo_alice_def owner_of_def name_token_def)
  obtain s' where s': "dispatch demo (Origin_Signed 2) (Call_transfer 3) demo_alice = Inr s'"
    and o: "owner_of 116 s' = Some 3"
    by (simp add: transfer_def do_transfer_def clear_subnames_def cleaner_except_ss58_def reset_children_def clear_records_except_ss58_def
       nft_transfer_def check_expires_renewable_def demo_eval demo_alice_def)
  from ownership_is_safe [OF demo_alice_inv s' _ own] o own s' show ?thesis by auto
qed

section \<open>Renewal, transfer and release\<close>



text \<open>
  C7: A transfer hands the name over: the recipient becomes owner and has it as
  canonical name, the sender no longer has; the SS58 record is the recipient, ORIGIN the
  parent block, every other record of the name and every subname with its records is gone;
  other names keep their owners.
\<close>
theorem transfer_spec:
  assumes "pns_inv c s" "transfer c (Origin_Signed a) src s = Inr s'" "cfg_lookup c src = Inr b"
    "primary_name a s = Some n"
  shows "owner_of n s = Some a \<and> owner_of n s' = Some b \<and> primary_name b s' = Some n
    \<and> (a \<noteq> b \<longrightarrow> primary_name a s' = None)
    \<and> (\<forall>rt. get_record (rt_resolvers s') n rt = (if rt = RT_SS58 then h256_encode b
          else if rt = RT_ORIGIN then h256_encode (rt_parent_hash s) else []))
    \<and> (\<forall>k. subname_of s n k \<longrightarrow> subname_records (rt_registry s') k = None
          \<and> (\<forall>rt. get_record (rt_resolvers s') k rt = []))
    \<and> (\<forall>m. m \<noteq> n \<longrightarrow> owner_of m s' = owner_of m s)"
  using assms(2)
proof (rule transfer_cases)
  fix who receiver node s1 s2
  assume r: "Origin_Signed a = Origin_Signed who" "cfg_lookup c src = Inr receiver" "primary_name who s = Some node"
    and d: "drop_stale_primary c receiver s = Inr s1"
    and t: "do_transfer c who receiver node s1 = Inr s2"
    and s': "s' = primary_insert receiver node (primary_remove who s2)"
  have "pns_inv c s1" using pns_inv_drop_stale [OF assms(1) d] .
  note t = do_transfer_effect [OF pns_inv_parts(1) [OF this] t]
  have s1: "rt_nft s1 = rt_nft s" "rt_registry s1 = rt_registry s" "rt_resolvers s1 = rt_resolvers s"
    "rt_parent_hash s1 = rt_parent_hash s"
    using d by (auto simp: drop_stale_primary_iff)
  have own: "owner_of m s1 = owner_of m s" "subname_of s1 m k \<longleftrightarrow> subname_of s m k" for m k
    by (simp_all add: owner_of_def name_token_def subname_of_def s1)
  have fin: "owner_of m s' = owner_of m s2" "rt_resolvers s' = rt_resolvers s2"
    "rt_registry s' = rt_registry s2" for m
    by (simp_all add: s' owner_of_def name_token_def)
  have "\<not> subname_of s node node"
    using owned_not_subname [OF pns_inv_parts(1) [OF assms(1)]] t(1) own by simp
  then show ?thesis
    using r assms(3,4) t by (auto simp: own fin s1 s')
qed

text \<open>Account 2 gives the name to account 3.\<close>
theorem transfer_spec_witness:
  "\<exists>s'. transfer demo (Origin_Signed 2) 3 demo_alice = Inr s' \<and> owner_of 116 s' = Some 3
     \<and> primary_name 3 s' = Some 116 \<and> get_record (rt_resolvers s') 116 RT_SS58 = h256_encode 3"
proof -
  have p: "primary_name 2 demo_alice = Some 116" by (simp add: demo_alice_def primary_name_def)
  obtain s' where s': "transfer demo (Origin_Signed 2) 3 demo_alice = Inr s'"
    by (simp add: transfer_def do_transfer_def clear_subnames_def cleaner_except_ss58_def reset_children_def clear_records_except_ss58_def
       nft_transfer_def check_expires_renewable_def demo_eval demo_alice_def)
  from transfer_spec [OF demo_alice_inv s' _ p] s' show ?thesis by auto
qed


text \<open>
  C24: The holder of a canonical name can always release it.  The release
  succeeds exactly when the account owns the name it has as canonical name; it then frees
  the name (no owner, no registration, no records, no subnames), and every other name keeps
  its owner and its registration.
\<close>
theorem release_spec:
  assumes "pns_inv c s" "primary_name a s = Some n" "n \<noteq> cfg_base_node c"
  shows "(is_ok (release_name (Origin_Signed a) s) \<longleftrightarrow> owner_of n s = Some a)
    \<and> (\<forall>s'. release_name (Origin_Signed a) s = Inr s' \<longrightarrow>
        owner_of n s' = None \<and> get_info n s' = None \<and> primary_name a s' = None
        \<and> (\<forall>rt. get_record (rt_resolvers s') n rt = [])
        \<and> (\<forall>k. subname_of s n k \<longrightarrow> subname_records (rt_registry s') k = None
              \<and> (\<forall>rt. get_record (rt_resolvers s') k rt = []))
        \<and> (\<forall>m. m \<noteq> n \<longrightarrow> owner_of m s' = owner_of m s \<and> get_info m s' = get_info m s))"
proof (intro conjI allI impI)
  let ?s = "primary_remove a s"
  have t: "tree_ok (cfg_base_node c) ?s"
    by (rule tree_ok_cong [OF pns_inv_parts(1) [OF assms(1)]]) simp_all
  have eq: "name_token m ?s = name_token m s" "owner_of m ?s = owner_of m s"
    "subname_of ?s m k = subname_of s m k" for m k
    by (simp_all add: name_token_def owner_of_def subname_of_def)
  have rel: "release_name (Origin_Signed a) s = do_burn a n ?s"
    using assms(2) by (simp add: release_name_def ensure_signed_def)
  show "is_ok (release_name (Origin_Signed a) s) \<longleftrightarrow> owner_of n s = Some a"
    using do_burn_succeeds [OF t _ assms(3)] do_burn_effect(1) [OF t]
    by (auto simp: rel is_ok_iff eq owner_of_def)
  fix s' assume "release_name (Origin_Signed a) s = Inr s'"
  then have b: "do_burn a n ?s = Inr s'" by (simp add: rel)
  note e = do_burn_effect [OF t b] and f = do_burn_frame [OF t b]
  have info: "get_info m s' = (if m = n then None else get_info m s)" for m
    using get_info_clear [of m n ?s] f(1) by (simp add: get_info_def registrar_writes)
  show "owner_of n s' = None" "get_info n s' = None" by (simp_all add: e(3) info)
  show "primary_name a s' = None"
    using f(1) by (simp add: primary_name_def clear_registrar_info_def registrar_writes)
  show "get_record (rt_resolvers s') n rt = []" for rt by (simp add: e(6))
  fix k
  show "subname_records (rt_registry s') k = None" if "subname_of s n k" using that by (simp add: e(5) eq)
  show "get_record (rt_resolvers s') k rt = []" if "subname_of s n k" for rt
    using that by (simp add: e(6) eq)
  show "owner_of k s' = owner_of k s" "get_info k s' = get_info k s" if "k \<noteq> n"
    using that by (simp_all add: e(3) eq info)
qed

theorem release_spec_witness:
  "\<exists>s'. release_name (Origin_Signed 2) demo_alice = Inr s' \<and> owner_of 116 s' = None
     \<and> primary_name 2 s' = None"
proof -
  have p: "primary_name 2 demo_alice = Some 116" and o: "owner_of 116 demo_alice = Some 2"
    and b: "116 \<noteq> cfg_base_node demo"
    by (simp_all add: demo_alice_def primary_name_def owner_of_def name_token_def)
  from release_spec [OF demo_alice_inv p b] o show ?thesis by (auto simp: is_ok_iff)
qed



end
