(* ===== verification/Delegation.thy ===== *)
theory Delegation
  imports Name_Lifecycle
begin

text \<open>
  Subnames: what offering, revoking and accepting one does, the life cycle every delegation
  follows whatever the call, and what the holder of a subname cannot do.
\<close>

section \<open>Offers\<close>

text \<open>
  C25: Revoking an offer undoes it.  After an offer of a subname the parent can revoke it at
  once, and then every token with its children counter, the delegation records, the three
  indexes and the records are as they were before the offer.
\<close>
theorem offer_revoke_roundtrip:
  assumes "tree_ok base s" "offer_subname parent n lbl target capacity s = Inr s1"
  shows "\<exists>s2. revoke_subname parent n s1 = Inr s2
     \<and> (\<forall>m. name_token m s2 = name_token m s)
     \<and> subname_records (rt_registry s2) = subname_records (rt_registry s)
     \<and> (\<forall>a m. dm_contains (offered_to_account (rt_registry s2)) a m \<longleftrightarrow>
          dm_contains (offered_to_account (rt_registry s)) a m)
     \<and> (\<forall>p m. dm_contains (sub_names (rt_registry s2)) p m \<longleftrightarrow> dm_contains (sub_names (rt_registry s)) p m)
     \<and> account_to_subnames (rt_registry s2) = account_to_subnames (rt_registry s)
     \<and> rt_resolvers s2 = rt_resolvers s \<and> rt_registrar s2 = rt_registrar s"
proof -
  let ?rec = "\<lparr>sr_parent = parent, sr_label = lbl, sr_target = target, sr_state = Offered\<rparr>"
  obtain info where i: "name_token parent s = Some info" "td_children (ti_data info) < capacity"
    and none: "subname_records (rt_registry s) n = None"
    and s1: "s1 = sub_names_insert parent n (offer_insert target n (record_insert n ?rec
          (put_children parent info (td_children (ti_data info) + 1) s)))"
    using assms(2) by (auto simp: offer_subname_iff)
  let ?k = "td_children (ti_data info)"
  have "unat (?k + 1) = Suc (unat ?k)" using i(2) by (rule unat_Suc_below)
  then have k: "checked_sub (?k + 1) 1 = Some ?k"
    by (simp add: checked_sub_Some_iff word_le_nat_alt)
  let ?s2 = "put_children parent (info\<lparr>ti_data := (ti_data info)\<lparr>td_children := ?k + 1\<rparr>\<rparr>) ?k
      (sub_names_remove parent n (drop_delegation n ?rec s1))"
  have "revoke_subname parent n s1 = Inr ?s2"
    using k by (simp add: revoke_subname_iff sub_children_iff s1 registry_writes drop_delegation_def)
  moreover have "\<not> dm_contains (offered_to_account (rt_registry s)) target n"
    "\<not> dm_contains (sub_names (rt_registry s)) parent n"
    using assms(1) none by (simp_all add: tree_ok_def deleg_defs)
  moreover have "(subname_records (rt_registry s))(n := None) = subname_records (rt_registry s)"
    using none by auto
  ultimately show ?thesis
    using i(1) by (auto simp: s1 registry_writes drop_delegation_def dm_simps)
qed

theorem offer_revoke_roundtrip_witness:
  "\<exists>s1 s2. offer_subname 116 216 [98] 3 10 demo_alice = Inr s1 \<and> revoke_subname 116 216 s1 = Inr s2
     \<and> name_token 116 s2 = name_token 116 demo_alice"
proof -
  obtain s1 where "offer_subname 116 216 [98] 3 10 demo_alice = Inr s1"
    by (simp add: offer_subname_iff demo_alice_def name_token_def)
  with offer_revoke_roundtrip [OF pns_inv_parts(1) [OF demo_alice_inv] this] show ?thesis by blast
qed

text \<open>
  C26: Accepting a subname gives it to the account it was offered to, and only to an account
  that holds nothing else: the offer was pending for the caller under a live parent, the
  caller had no canonical name in force and nothing in the index of held names; afterwards
  the delegation is active, it is the only name the caller holds, the offer is no longer
  pending, and the subname's SS58 record is the caller.
\<close>
theorem accept_subdomain_spec:
  assumes "pns_inv c s" "accept_subdomain c (Origin_Signed a) parent lbl s = Inr s'"
    "n = name_node c lbl (name_node c parent (cfg_base_node c))"
  shows "\<exists>rec. subname_records (rt_registry s) n = Some rec \<and> sr_state rec = Offered \<and> sr_target rec = a
     \<and> is_ok (check_expires_useable (name_node c parent (cfg_base_node c)) s)
     \<and> \<not> has_valid_canonical_name c a s \<and> \<not> has_active_subname a s
     \<and> subname_records (rt_registry s') n = Some (rec\<lparr>sr_state := Active\<rparr>)
     \<and> dm_iter (account_to_subnames (rt_registry s')) a = [n]
     \<and> \<not> dm_contains (offered_to_account (rt_registry s')) a n
     \<and> get_record (rt_resolvers s') n RT_SS58 = h256_encode a"
proof -
  obtain q s1 where l: "is_ok (check_expires_useable (name_node c parent (cfg_base_node c)) s)"
    and acc: "accept_subname_offer c n a s = Inr (q, s1)"
    and u: "update_ss58 c n a s1 = Inr (s'\<lparr>rt_events := rt_events s1\<rparr>)"
    using assms(2) unfolding accept_subdomain_def
    by (auto simp: result_simps is_ok_iff assms(3) update_ss58_iff deposit_event_def split: prod.splits)
  have r: "get_record (rt_resolvers s') n RT_SS58 = h256_encode a"
    "rt_registry s' = rt_registry s1"
    using keeper.put_owner [OF u, of n RT_SS58] u by (auto simp: update_ss58_iff dest: arg_cong [where f = rt_registry])
  show ?thesis
    using acc l r by (auto simp: accept_subname_offer_iff registry_writes has_active_subname_def
      dm_simps dm_iter_def dm_insert_def)
qed

theorem accept_subdomain_spec_witness:
  "accept_subdomain demo (Origin_Signed 3) [97] [98] demo_offer = Inr demo_sub
   \<and> dm_iter (account_to_subnames (rt_registry demo_sub)) 3 = [216]
   \<and> get_record (rt_resolvers demo_sub) 216 RT_SS58 = h256_encode 3"
  using accept_subdomain_spec [OF demo_offer_inv demo_accepted, of 216] demo_accepted by auto

text \<open>
  C38: The holder of an accepted subname cannot set a record or a text on it.  The
  resolver's check asks for the token of the node, and an accepted subname has none; the call
  fails for every caller.
\<close>
theorem subname_records_unsettable:
  assumes "pns_inv c s" "resolvers_name_to_node c name = Inr n"
    "subname_records (rt_registry s) n \<noteq> None" "rt \<noteq> RT_SS58 \<and> rt \<noteq> RT_ORIGIN"
  shows "set_record c check_node_useable (Origin_Signed a) name rt content s
      = Inl (ResolversError Resolvers_InvalidPermission)
    \<and> set_text c check_node_useable (Origin_Signed a) name kind content s
      = Inl (ResolversError Resolvers_InvalidPermission)"
proof -
  have "name_token n s = None"
    using pns_inv_parts(1) [OF assms(1)] assms(3) by (auto simp: tree_ok_def roots_ok_def)
  then have "\<not> check_node_useable n a s"
    by (simp add: check_node_useable_def verify_def)
  then show ?thesis
    using assms(2,4) by (simp add: set_record_def set_text_def ensure_signed_def)
qed

theorem subname_records_unsettable_witness:
  "resolvers_name_to_node demo [98, 46, 97] = Inr 216
   \<and> subname_records (rt_registry demo_sub) 216 = Some (demo_sub_record Active)
   \<and> set_record demo check_node_useable (Origin_Signed 3) [98, 46, 97] RT_TXT [1] demo_sub
       = Inl (ResolversError Resolvers_InvalidPermission)"
proof -
  have node: "resolvers_name_to_node demo [98, 46, 97] = Inr 216"
  proof -
    have "parse_name_to_node sum_hash ([98] @ dot_byte # [97]) 17 =
        Some (encode_with_node sum_hash (label_of sum_hash [98])
          (encode_with_node sum_hash (label_of sum_hash [97]) 17))"
      by (subst parse_name_dotted) (simp_all add: dot_byte_def)
    then show ?thesis
      by (simp add: resolvers_name_to_node_def dot_byte_def encode_with_node_sum label_of_def
          to_ascii_lowercase_def ascii_lower_def sum_hash_def)
  qed
  have rec: "subname_records (rt_registry demo_sub) 216 = Some (demo_sub_record Active)"
    by (simp add: demo_sub_def registry_writes)
  show ?thesis
    using subname_records_unsettable [OF demo_sub_inv node] node rec by simp
qed

section \<open>The life of a delegation\<close>

text \<open>
  A delegation is offered, then accepted or rejected by its target, and removed from any
  state; nothing else happens to it.
\<close>

inductive delegation_step :: "subname_record option \<Rightarrow> subname_record option \<Rightarrow> bool" where
  kept: "delegation_step r r"
| offered: "sr_state rec = Offered \<Longrightarrow> delegation_step None (Some rec)"
| accepted: "sr_state rec = Offered \<Longrightarrow> delegation_step (Some rec) (Some (rec\<lparr>sr_state := Active\<rparr>))"
| rejected: "sr_state rec = Offered \<Longrightarrow> delegation_step (Some rec) (Some (rec\<lparr>sr_state := Rejected\<rparr>))"
| removed: "delegation_step (Some rec) None"

inductive_simps delegation_step_None: "delegation_step None r"
inductive_simps delegation_step_Some: "delegation_step (Some r) (Some r')"

definition no_growth :: "'b runtime \<Rightarrow> 'b runtime \<Rightarrow> bool" where
  "no_growth s s' \<longleftrightarrow> (\<forall>n. subname_records (rt_registry s') n = None
     \<or> subname_records (rt_registry s') n = subname_records (rt_registry s) n)"

lemma no_growth_step:
  "no_growth s s' \<Longrightarrow> delegation_step (subname_records (rt_registry s) n) (subname_records (rt_registry s') n)"
  unfolding no_growth_def by (metis delegation_step.kept delegation_step.removed option.exhaust)

lemma no_growth_trans: "no_growth s s1 \<Longrightarrow> no_growth s1 s2 \<Longrightarrow> no_growth s s2"
  unfolding no_growth_def by metis

lemma no_growth_same:
  "subname_records (rt_registry s') = subname_records (rt_registry s) \<Longrightarrow> no_growth s s'"
  by (simp add: no_growth_def)

lemma no_growth_revoke: "revoke_subname p n s = Inr s' \<Longrightarrow> no_growth s s'"
  by (auto simp: revoke_subname_iff sub_children_iff drop_delegation_registry no_growth_def)

lemma no_growth_release: "release_subname n a s = Inr (p, s') \<Longrightarrow> no_growth s s'"
  by (auto simp: release_subname_iff sub_children_iff registry_writes no_growth_def)

lemma no_growth_burn: "tree_ok base s \<Longrightarrow> do_burn a k s = Inr s' \<Longrightarrow> no_growth s s'"
  using do_burn_effect(5) by (fastforce simp: no_growth_def)

lemma no_growth_transfer: "tree_ok base s \<Longrightarrow> do_transfer c a b k s = Inr s' \<Longrightarrow> no_growth s s'"
  using do_transfer_effect(6) by (fastforce simp: no_growth_def)

lemma no_growth_drop_stale: "drop_stale_primary c a s = Inr s' \<Longrightarrow> no_growth s s'"
  by (auto simp: drop_stale_primary_iff intro: no_growth_same)

lemma no_growth_register:
  assumes "pns_inv c s" "register c org name src rej s = Inr s'"
  shows "no_growth s s'"
  using assms(2)
proof (rule register_cases)
  let ?k = "name_node c name (cfg_base_node c)"
  fix caller owner s0 s1 s2 s3 s4 off expire fee
  assume r: "reject_pending c caller rej s = Inr s0" and d: "drop_stale_primary c owner s0 = Inr s1"
    and m: "mint_subname c off [] (cfg_base_node c) ?k owner 0
       (register_payments c caller ?k (length name) expire fee) s1 = Inr s2"
    and u: "update_ss58 c ?k owner (primary_insert owner ?k s2) = Inr s3"
    and o: "record_origin c ?k (rt_parent_hash s3) s3 = Inr s4"
    and s': "s' = deposit_event (Registrar_NameRegistered name ?k owner expire fee) s4"
  have inv1: "pns_inv c s1" using pns_inv_drop_stale [OF pns_inv_reject_pending [OF assms(1) r] d] .
  have "no_growth s s0"
    using r
  proof (cases rule: reject_pending_cases)
    case (gift k t)
    then show ?thesis
      using no_growth_burn [OF tree_ok_offered_remove [OF assms(1)] gift(1)] by (simp add: no_growth_def)
  next
    case (subname k rec t)
    then show ?thesis using no_growth_revoke [OF subname(2)] by (simp add: no_growth_def)
  qed (simp add: no_growth_def)
  moreover have "no_growth s1 s2"
  proof -
    have "get_info (cfg_base_node c) s1 = None"
      using pns_inv_parts(3) [OF inv1] unfolding infos_ok_def by blast
    with m pns_inv_parts(1) [OF inv1] register_payments_frame show ?thesis
      by (rule mint_base_effect) (auto simp: no_growth_def)
  qed
  moreover have "no_growth s2 s'"
    using u o by (auto simp: s' update_ss58_iff record_origin_iff intro: no_growth_same)
  ultimately show ?thesis using no_growth_drop_stale [OF d] no_growth_trans by blast
qed

lemma no_growth_transfer_call:
  assumes "pns_inv c s" "transfer c org src s = Inr s'"
  shows "no_growth s s'"
  using assms(2)
proof (rule transfer_cases)
  fix who receiver node s1 s2
  assume d: "drop_stale_primary c receiver s = Inr s1" and t: "do_transfer c who receiver node s1 = Inr s2"
    and "s' = primary_insert receiver node (primary_remove who s2)"
  then show ?thesis
    using no_growth_trans [OF no_growth_drop_stale [OF d] no_growth_transfer [OF tree_ok_drop_stale [OF assms(1) d] t]]
    by (simp add: no_growth_def)
qed

lemma no_growth_deliver:
  assumes "pns_inv c s" "deliver c k buyer ls recipient s = Inr s'"
  shows "no_growth s s'"
proof (cases recipient)
  case None
  with assms(2) obtain s1 s2 where d: "drop_stale_primary c buyer s = Inr s1"
    and t: "do_transfer c (ls_seller ls) buyer k s1 = Inr s2" and "rt_registry s' = rt_registry s2"
    by (auto simp: deliver_None_iff transfer_name_iff update_ss58_iff record_origin_iff)
  then show ?thesis
    using no_growth_trans [OF no_growth_drop_stale [OF d] no_growth_transfer [OF tree_ok_drop_stale [OF assms(1) d] t]]
    by (simp add: no_growth_def)
next
  case (Some recip)
  with assms(2) obtain s2 where t: "do_transfer c (ls_seller ls) recip k s = Inr s2"
    and "rt_registry s' = rt_registry s2"
    by (auto simp: deliver_Some_iff offer_bought_name_iff)
  then show ?thesis
    using no_growth_transfer [OF pns_inv_parts(1) [OF assms(1)] t] by (simp add: no_growth_def)
qed

lemma no_growth_buy_name:
  assumes "pns_inv c s" "buy_name c org name recipient s = Inr s'"
  shows "no_growth s s'"
  using assms(2)
proof (rule buy_name_cases)
  let ?k = "name_node c name (cfg_base_node c)"
  fix buyer ls b1 b2
  assume d: "deliver c ?k buyer ls recipient
       (put_listings (\<lambda>l. l(?k := None)) (s\<lparr>rt_balances := b2\<rparr>)) = Inr s'"
  show ?thesis
    using no_growth_deliver [OF pns_inv_put_listings [OF pns_inv_writes(6) [OF assms(1)]] d]
    by (simp add: no_growth_def put_listings_def)
qed

lemma no_growth_release_name:
  assumes "pns_inv c s" "release_name org s = Inr s'"
  shows "no_growth s s'"
proof -
  obtain a k where b: "do_burn a k (primary_remove a s) = Inr s'"
    using assms(2) by (auto simp: release_name_iff)
  have "tree_ok (cfg_base_node c) (primary_remove a s)"
    by (rule tree_ok_cong [OF pns_inv_parts(1) [OF assms(1)]]) simp_all
  from no_growth_burn [OF this b] show ?thesis by (simp add: no_growth_def)
qed

lemma no_growth_other_calls:
  "set_exchange_rate c org rate s = Inr s' \<Longrightarrow> no_growth s s'"
  "set_base_price c org prices s = Inr s' \<Longrightarrow> no_growth s s'"
  "set_rent_price c org prices s = Inr s' \<Longrightarrow> no_growth s s'"
  "add_reserved c org name s = Inr s' \<Longrightarrow> no_growth s s'"
  "remove_reserved c org name s = Inr s' \<Longrightarrow> no_growth s s'"
  "renew c org s = Inr s' \<Longrightarrow> no_growth s s'"
  "set_record c v org name rt content s = Inr s' \<Longrightarrow> no_growth s s'"
  "set_text c v org name kind content s = Inr s' \<Longrightarrow> no_growth s s'"
  "create_listing org price t s = Inr s' \<Longrightarrow> no_growth s s'"
  "cancel_listing org s = Inr s' \<Longrightarrow> no_growth s s'"
  "accept_offered_name c org name s = Inr s' \<Longrightarrow> no_growth s s'"
  by (rule no_growth_same; auto simp: set_exchange_rate_def set_base_price_def set_rent_price_def
      add_reserved_def remove_reserved_def renew_iff set_record_def set_text_def create_listing_def
      cancel_listing_def put_listings_def accept_offered_name_def Let_def drop_stale_primary_iff
      result_simps update_ss58_iff record_origin_iff)+

lemma delegation_calls:
  "offer_subdomain c org lbl target s = Inr s' \<Longrightarrow>
     delegation_step (subname_records (rt_registry s) n) (subname_records (rt_registry s') n)"
  "accept_subdomain c org parent lbl s = Inr s' \<Longrightarrow>
     delegation_step (subname_records (rt_registry s) n) (subname_records (rt_registry s') n)"
  "reject_subdomain c org parent lbl s = Inr s' \<Longrightarrow>
     delegation_step (subname_records (rt_registry s) n) (subname_records (rt_registry s') n)"
  by (auto simp: offer_subdomain_iff offer_subname_iff accept_subdomain_def reject_subdomain_def
      accept_subname_offer_iff reject_subname_offer_iff result_simps update_ss58_iff registry_writes
      delegation_step_None intro: delegation_step.intros)

text \<open>
  C22: Every call moves every delegation by one step of its life cycle: absent to offered,
  offered to active or rejected, anything to absent.  In particular no call changes the
  parent, the label or the target of a delegation, reactivates a rejected one, or replaces
  one by another.
\<close>
theorem delegation_lifecycle:
  assumes "pns_inv c s" "dispatch c org call s = Inr s'"
  shows "delegation_step (subname_records (rt_registry s) n) (subname_records (rt_registry s') n)"
proof (cases call)
  case (Call_burn name)
  with assms show ?thesis
    by (auto simp: registry_burn_def result_simps
        intro: no_growth_step no_growth_burn [OF pns_inv_parts(1) [OF assms(1)]])
next
  case (Call_set_official new)
  with assms(2) show ?thesis
    by (auto simp: set_official_iff [OF pns_inv_parts(5) [OF assms(1)]] intro: delegation_step.kept)
next
  case (Call_revoke_subdomain lbl)
  with assms(2) show ?thesis
    by (auto simp: revoke_subdomain_def result_simps no_growth_step [OF no_growth_revoke])
next
  case (Call_release_subdomain parent lbl)
  with assms(2) show ?thesis
    by (auto simp: release_subdomain_def result_simps no_growth_step [OF no_growth_release])
qed (use assms in \<open>auto intro: delegation_calls no_growth_step no_growth_other_calls no_growth_register
      no_growth_transfer_call no_growth_buy_name no_growth_release_name\<close>)

theorem delegation_lifecycle_witness:
  "dispatch demo (Origin_Signed 3) (Call_accept_subdomain [97] [98]) demo_offer = Inr demo_sub
   \<and> delegation_step (Some (demo_sub_record Offered)) (Some (demo_sub_record Active))"
proof -
  have a: "dispatch demo (Origin_Signed 3) (Call_accept_subdomain [97] [98]) demo_offer = Inr demo_sub"
    using demo_accepted by simp
  have "subname_records (rt_registry demo_sub) 216 = Some (demo_sub_record Active)"
    by (simp add: demo_sub_def registry_writes)
  with delegation_lifecycle [OF demo_offer_inv a, of 216] a show ?thesis by (simp add: demo_offer_sel)
qed

end
