(* ===== verification/Market_Lifecycle.thy ===== *)
theory Market_Lifecycle
  imports Name_Lifecycle
begin

text \<open>
  What a sale on the marketplace does: who pays whom and how much is burned, to whom the name
  goes, which listings sell nothing, and what becomes of a name bought for somebody else.
\<close>

section \<open>The contract of a hand-over\<close>

text \<open>
  What the marketplace relies on in the registrar (the trait \<open>NameRegistry\<close>): handing a name
  over succeeds for its owner only, changes the owner of that name and of no other, and moves
  no money.  \<open>direct\<close> is the sale to the buyer, \<open>gift\<close> the sale to a recipient.
\<close>

locale name_handover =
  fixes inv :: "'s \<Rightarrow> bool"
    and own :: "'s \<Rightarrow> 'k \<Rightarrow> 'a option"
    and purse :: "'s \<Rightarrow> 'b"
    and give :: "'a \<Rightarrow> 'a \<Rightarrow> 'k \<Rightarrow> 's \<Rightarrow> 'e + 's"
  assumes give_owner: "inv s \<Longrightarrow> give a b k s = Inr s' \<Longrightarrow> own s k = Some a \<and> own s' = (own s)(k \<mapsto> b)"
    and give_purse: "inv s \<Longrightarrow> give a b k s = Inr s' \<Longrightarrow> purse s' = purse s"
begin

lemma supply_kept: "inv s \<Longrightarrow> give a b k s = Inr s' \<Longrightarrow> dom (own s') = dom (own s)"
  by (drule (1) give_owner) auto

lemma sold_once:
  assumes "inv s" "give a b k s = Inr s1" "inv s1" "give a d k s1 = Inr s2"
  shows "a = b"
  using give_owner [OF assms(1,2)] give_owner [OF assms(3,4)] by simp

end

interpretation direct: name_handover "pns_inv c" "\<lambda>s n. owner_of n s" rt_balances "transfer_name c"
  for c :: "('b, 'src) config"
proof unfold_locales
  fix s s' :: "'b runtime" and a b n
  assume inv: "pns_inv c s" and "transfer_name c a b n s = Inr s'"
  then obtain s1 s2 where d: "drop_stale_primary c b s = Inr s1" and t: "do_transfer c a b n s1 = Inr s2"
    and s': "rt_nft s' = rt_nft s2" "rt_balances s' = rt_balances s2" unfolding transfer_name_iff by auto
  note t = do_transfer_effect(1,4) [OF tree_ok_drop_stale [OF inv d] t]
    do_transfer_frame(4) [OF tree_ok_drop_stale [OF inv d] t]
  have own: "owner_of m s' = owner_of m s2" for m by (simp add: owner_of_def name_token_def s')
  show "owner_of n s = Some a \<and> (\<lambda>n. owner_of n s') = (\<lambda>n. owner_of n s)(n \<mapsto> b)"
    using t(1) t(2) own owner_of_drop_stale [OF d] by (simp add: fun_eq_iff)
  show "rt_balances s' = rt_balances s" using t(3) d s'(2) by (auto simp: drop_stale_primary_iff)
qed

interpretation gift: name_handover "pns_inv c" "\<lambda>s n. owner_of n s" rt_balances
  "\<lambda>seller. offer_bought_name c seller buyer" for c :: "('b, 'src) config" and buyer
proof unfold_locales
  fix s s' :: "'b runtime" and a b n
  assume inv: "pns_inv c s" and "offer_bought_name c a buyer b n s = Inr s'"
  then obtain s2 where t: "do_transfer c a b n s = Inr s2"
    and s': "rt_nft s' = rt_nft s2" "rt_balances s' = rt_balances s2" unfolding offer_bought_name_iff by auto
  note t = do_transfer_effect(1,4) [OF pns_inv_parts(1) [OF inv] t] do_transfer_frame(4) [OF pns_inv_parts(1) [OF inv] t]
  have own: "owner_of m s' = owner_of m s2" for m by (simp add: owner_of_def name_token_def s')
  show "owner_of n s = Some a \<and> (\<lambda>n. owner_of n s') = (\<lambda>n. owner_of n s)(n \<mapsto> b)"
    using t(1) t(2) own by (simp add: fun_eq_iff)
  show "rt_balances s' = rt_balances s" using t(3) s'(2) by simp
qed

text \<open>A delivery hands the name over in one of the two ways and writes records and events besides.\<close>

lemma deliver_effect:
  assumes "pns_inv c s" "deliver c k buyer ls recipient s = Inr s'"
  shows "rt_balances s' = rt_balances s" "owner_of k s = Some (ls_seller ls)"
    "(\<lambda>n. owner_of n s') = (\<lambda>n. owner_of n s)(k \<mapsto> (case recipient of None \<Rightarrow> buyer | Some recip \<Rightarrow> recip))"
proof -
  let ?to = "case recipient of None \<Rightarrow> buyer | Some recip \<Rightarrow> recip"
  obtain s1 where t: "if recipient = None then transfer_name c (ls_seller ls) buyer k s = Inr s1
      else offer_bought_name c (ls_seller ls) buyer ?to k s = Inr s1"
    and s': "rt_nft s' = rt_nft s1" "rt_balances s' = rt_balances s1"
    using assms(2)
    by (cases recipient) (auto simp: deliver_None_iff deliver_Some_iff update_ss58_iff record_origin_iff
        cleaner_except_ss58_def)
  have "rt_balances s1 = rt_balances s \<and> owner_of k s = Some (ls_seller ls)
      \<and> (\<lambda>n. owner_of n s1) = (\<lambda>n. owner_of n s)(k \<mapsto> ?to)"
    using t direct.give_owner [OF assms(1)] direct.give_purse [OF assms(1)]
      gift.give_owner [OF assms(1)] gift.give_purse [OF assms(1)]
    by (cases recipient) auto
  moreover have "(\<lambda>n. owner_of n s') = (\<lambda>n. owner_of n s1)" by (simp add: owner_of_def name_token_def s')
  ultimately show "rt_balances s' = rt_balances s" "owner_of k s = Some (ls_seller ls)"
    "(\<lambda>n. owner_of n s') = (\<lambda>n. owner_of n s)(k \<mapsto> ?to)" using s'(2) by simp_all
qed

section \<open>Payment\<close>

lemma buy_name_label:
  assumes "label_bytes name"
  shows "buy_name c (Origin_Signed buyer) name recipient s =
     (let node = name_node c name (cfg_base_node c) in
      and_then (ok_or (listings (rt_market s) node) (MarketError Market_NotListed)) (\<lambda>ls.
      and_then (ensure (buyer \<noteq> ls_seller ls) (MarketError Market_BuyerIsSeller)) (\<lambda>_.
      and_then (ensure (ls_expires_at ls > rt_now s) (MarketError Market_ListingExpired)) (\<lambda>_.
      and_then (ensure (Some (ls_seller ls) = owner_of node s) (MarketError Market_SellerNoLongerOwns))
        (\<lambda>_.
      and_then (settle c buyer ls s) (\<lambda>s.
        deliver c node buyer ls recipient (put_listings (\<lambda>l. l(node := None)) s)))))))"
proof -
  obtain lbl where l: "label_new (cfg_keccak c) name = Some lbl"
    using assms by (simp add: label_new_eq)
  then show ?thesis
    using label_new_name_node [OF l] by (simp add: buy_name_def ensure_signed_def Let_def)
qed

lemma buy_name_effect:
  assumes "pns_inv c s" "buy_name c (Origin_Signed buyer) name recipient s = Inr s'"
    "n = name_node c name (cfg_base_node c)"
  obtains ls b s1 where "listings (rt_market s) n = Some ls" "buyer \<noteq> ls_seller ls"
    "rt_now s < ls_expires_at ls" "owner_of n s = Some (ls_seller ls)"
    "cfg_transfer c buyer (ls_seller ls) (ls_price ls) (rt_balances s) = Inr b"
    "cfg_withdraw c (ls_seller ls) (protocol_fee c (ls_price ls)) b = Inr (rt_balances s')"
    "s1 = put_listings (\<lambda>l. l(n := None)) (s\<lparr>rt_balances := rt_balances s'\<rparr>)"
    "pns_inv c s1" "deliver c n buyer ls recipient s1 = Inr s'"
  using assms(2)
proof (rule buy_name_cases)
  fix who ls b1 b2
  assume "Origin_Signed buyer = Origin_Signed who"
    "listings (rt_market s) (name_node c name (cfg_base_node c)) = Some ls"
    "who \<noteq> ls_seller ls" "rt_now s < ls_expires_at ls"
    "owner_of (name_node c name (cfg_base_node c)) s = Some (ls_seller ls)"
    "cfg_transfer c who (ls_seller ls) (ls_price ls) (rt_balances s) = Inr b1"
    "cfg_withdraw c (ls_seller ls) (protocol_fee c (ls_price ls)) b1 = Inr b2"
    and d: "deliver c (name_node c name (cfg_base_node c)) who ls recipient
       (put_listings (\<lambda>l. l(name_node c name (cfg_base_node c) := None)) (s\<lparr>rt_balances := b2\<rparr>)) = Inr s'"
  moreover note inv = pns_inv_put_listings [OF pns_inv_writes(6) [OF assms(1)]]
  moreover have "rt_balances s' = b2"
    using deliver_effect(1) [OF inv d] by (simp add: put_listings_def)
  ultimately show thesis using that assms(3) by auto
qed

text \<open>
  C8: A sale pays the seller the price less the protocol fee and burns the fee.  With a
  currency whose transfers move and whose withdrawals burn, the buyer loses exactly the
  listed price, the seller gains the price less the fee, the total issuance falls by the
  fee, and no third balance changes.
\<close>
theorem sale_payment:
  assumes "withdraw_burns c free issuance" "transfer_moves c free issuance" "pns_inv c s"
    "buy_name c (Origin_Signed buyer) name recipient s = Inr s'"
    "listings (rt_market s) (name_node c name (cfg_base_node c)) = Some ls"
  shows "free (rt_balances s) buyer = free (rt_balances s') buyer + unat (ls_price ls)
     \<and> free (rt_balances s') (ls_seller ls) + unat (protocol_fee c (ls_price ls))
         = free (rt_balances s) (ls_seller ls) + unat (ls_price ls)
     \<and> issuance (rt_balances s) = issuance (rt_balances s') + unat (protocol_fee c (ls_price ls))
     \<and> (\<forall>x. x \<noteq> buyer \<and> x \<noteq> ls_seller ls \<longrightarrow> free (rt_balances s') x = free (rt_balances s) x)"
  using assms(3,4)
proof (rule buy_name_effect [OF _ _ refl])
  fix l b
  assume l: "listings (rt_market s) (name_node c name (cfg_base_node c)) = Some l"
    and ne: "buyer \<noteq> ls_seller l"
    and t: "cfg_transfer c buyer (ls_seller l) (ls_price l) (rt_balances s) = Inr b"
    and w: "cfg_withdraw c (ls_seller l) (protocol_fee c (ls_price l)) b = Inr (rt_balances s')"
  have eq: "l = ls" using l assms(5) by simp
  have "free (rt_balances s) buyer = free b buyer + unat (ls_price ls)
      \<and> free b (ls_seller ls) = free (rt_balances s) (ls_seller ls) + unat (ls_price ls)
      \<and> (\<forall>x. x \<noteq> buyer \<and> x \<noteq> ls_seller ls \<longrightarrow> free b x = free (rt_balances s) x)
      \<and> issuance b = issuance (rt_balances s)"
    using assms(2) t ne unfolding transfer_moves_def eq by blast
  moreover have "free b (ls_seller ls) = free (rt_balances s') (ls_seller ls) + unat (protocol_fee c (ls_price ls))
      \<and> (\<forall>x. x \<noteq> ls_seller ls \<longrightarrow> free (rt_balances s') x = free b x)
      \<and> issuance b = issuance (rt_balances s') + unat (protocol_fee c (ls_price ls))"
    using assms(1) w unfolding withdraw_burns_def eq by blast
  ultimately show ?thesis using ne eq by auto
qed

text \<open>
  The protocol fee never exceeds the price, for any fee rate up to one; and
  while the product fits 128 bits it is the rounded-down share.
\<close>
theorem protocol_fee_bounds:
  assumes "cfg_protocol_fee_bps c \<le> 10000"
  shows "protocol_fee c price \<le> price
    \<and> (unat price * unat (cfg_protocol_fee_bps c) < 2 ^ 128 \<longrightarrow>
        unat (protocol_fee c price) = unat price * unat (cfg_protocol_fee_bps c) div 10000)"
proof -
  let ?bps = "ucast (cfg_protocol_fee_bps c) :: u128"
  have "unat (cfg_protocol_fee_bps c) \<le> 10000" using assms by (simp add: word_le_nat_alt)
  moreover have bps: "unat ?bps = unat (cfg_protocol_fee_bps c)" 
    by (simp add: unsigned_ucast_eq unsigned_take_bit_eq take_bit_nat_eq_self order_less_le_trans [OF unsigned_less])
  ultimately have b: "unat ?bps \<le> 10000" by simp
  have div: "unat (protocol_fee c price) = unat (saturating_mul price ?bps) div 10000"
    by (simp add: protocol_fee_def unat_div)
  have "unat (saturating_mul price ?bps) div 10000 \<le> unat price * unat ?bps div 10000"
    by (rule div_le_mono) (rule unat_saturating_mul_le)
  also have "\<dots> \<le> unat price * 10000 div 10000" by (rule div_le_mono) (use b in simp)
  finally have "unat (protocol_fee c price) \<le> unat price" by (simp add: div)
  moreover have "unat (saturating_mul price ?bps) = unat price * unat ?bps"
    if "unat price * unat ?bps < 2 ^ 128"
    using that by (simp add: saturating_mul_def unat_word_ariths)
  ultimately show ?thesis by (simp add: word_le_nat_alt div bps)
qed

theorem protocol_fee_bounds_witness: "protocol_fee demo 50 = 1 \<and> protocol_fee demo 50 \<le> 50"
  using protocol_fee_bounds [of demo 50] by (simp add: protocol_fee_def saturating_mul_def)


section \<open>The example's sale\<close>

definition demo_listed :: "demo_balances runtime" where
  "demo_listed = deposit_event (Market_Listed 116 2 50 1000)
     (put_listings (\<lambda>l. l(116 \<mapsto> \<lparr>ls_seller = 2, ls_price = 50, ls_expires_at = 1000\<rparr>)) demo_alice)"

lemma demo_create_listing: "create_listing (Origin_Signed 2) 50 1000 demo_alice = Inr demo_listed"
  by (simp add: create_listing_def demo_listed_def demo_eval) (simp add: demo_alice_def)

lemma demo_listed_inv: "pns_inv demo demo_listed"
  using demo_create_listing by (rule pns_inv_listing_calls(1) [OF demo_alice_inv])

lemmas demo_market [demo_eval] = put_listings_def settle_def deliver_def protocol_fee_def
  saturating_mul_def transfer_name_def do_transfer_def cleaner_except_ss58_def
  clear_records_except_ss58_def nft_transfer_def buy_name_label check_expires_renewable_def
  clear_subnames_def reset_children_def

lemma demo_sale: "\<exists>s'. buy_name demo (Origin_Signed 5) [97] None demo_listed = Inr s'"
  by (simp add: demo_eval demo_listed_def demo_alice_def)


theorem sale_payment_witness:
  "\<exists>s'. buy_name demo (Origin_Signed 5) [97] None demo_listed = Inr s'
     \<and> demo_free (rt_balances s') 5 = 50 \<and> demo_free (rt_balances s') 2 = 144
     \<and> demo_issuance (rt_balances s') = 994"
proof -
  obtain s' where s': "buy_name demo (Origin_Signed 5) [97] None demo_listed = Inr s'"
    using demo_sale by blast
  have l: "listings (rt_market demo_listed) (name_node demo [97] (cfg_base_node demo))
      = Some \<lparr>ls_seller = 2, ls_price = 50, ls_expires_at = 1000\<rparr>"
    by (simp add: demo_listed_def put_listings_def)
  have "rt_balances demo_listed = ((\<lambda>_. 100)(2 := 95), 995)"
    by (simp add: demo_listed_def put_listings_def) (simp add: demo_alice_def)
  with sale_payment [OF demo_withdraw_burns demo_transfer_moves demo_listed_inv s' l] s' show ?thesis
    by (simp add: protocol_fee_def saturating_mul_def demo_free_def demo_issuance_def)
qed

section \<open>Delivery\<close>

text \<open>
  C9: A sale delivers the name.  The seller of the listing owned the name; afterwards the
  buyer owns it, it is the buyer's canonical name and no longer the seller's, it is no longer
  listed, its only records are the new SS58 and ORIGIN anchors, and no other name changes hands.
\<close>
theorem sale_delivery:
  assumes "pns_inv c s" "buy_name c (Origin_Signed buyer) name None s = Inr s'"
    "n = name_node c name (cfg_base_node c)"
  shows "\<exists>ls. listings (rt_market s) n = Some ls \<and> rt_now s < ls_expires_at ls
    \<and> owner_of n s = Some (ls_seller ls) \<and> owner_of n s' = Some buyer
    \<and> (\<forall>m. m \<noteq> n \<longrightarrow> owner_of m s' = owner_of m s)
    \<and> primary_name buyer s' = Some n \<and> primary_name (ls_seller ls) s' \<noteq> Some n
    \<and> listings (rt_market s') = (listings (rt_market s))(n := None)
    \<and> (\<forall>rt. get_record (rt_resolvers s') n rt = (if rt = RT_SS58 then h256_encode buyer
          else if rt = RT_ORIGIN then h256_encode (rt_parent_hash s) else []))"
  using assms
proof (rule buy_name_effect)
  fix ls b s1
  assume l: "listings (rt_market s) n = Some ls" "buyer \<noteq> ls_seller ls" "rt_now s < ls_expires_at ls"
      "owner_of n s = Some (ls_seller ls)"
    and s1: "s1 = put_listings (\<lambda>l. l(n := None)) (s\<lparr>rt_balances := rt_balances s'\<rparr>)"
    and inv: "pns_inv c s1" and deliver: "deliver c n buyer ls None s1 = Inr s'"
  then obtain s2 s3 s4 s5 where d: "drop_stale_primary c buyer s1 = Inr s2"
    and t: "do_transfer c (ls_seller ls) buyer n s2 = Inr s3"
    and u: "update_ss58 c n buyer (cleaner_except_ss58 n (primary_insert buyer n
       (if primary_name (ls_seller ls) s3 = Some n then primary_remove (ls_seller ls) s3 else s3))) = Inr s4"
    and o: "record_origin c n (rt_parent_hash s4) s4 = Inr s5"
    and s': "s' = deposit_event (Market_Sold n (ls_seller ls) buyer (ls_price ls) (protocol_fee c (ls_price ls))) s5"
    unfolding deliver_None_iff transfer_name_iff by blast
  note t = do_transfer_effect [OF tree_ok_drop_stale [OF inv d] t] do_transfer_frame [OF tree_ok_drop_stale [OF inv d] t]
  have "rt_parent_hash s4 = rt_parent_hash s"
    using u t(15) d by (auto simp: update_ss58_iff cleaner_except_ss58_def drop_stale_primary_iff s1 put_listings_def)
  then have recs: "get_record (rt_resolvers s') n rt = (if rt = RT_SS58 then h256_encode buyer
      else if rt = RT_ORIGIN then h256_encode (rt_parent_hash s) else [])" for rt
    using keeper.handover(1) [OF u o, of n rt] by (simp add: s')
  have s'': "rt_nft s' = rt_nft s3" "rt_market s' = rt_market s3" "rt_registrar s' = rt_registrar (primary_insert buyer n
       (if primary_name (ls_seller ls) s3 = Some n then primary_remove (ls_seller ls) s3 else s3))"
    using u o by (auto simp: s' update_ss58_iff record_origin_iff cleaner_except_ss58_def)
  have own: "owner_of m s' = (if m = n then Some buyer else owner_of m s)" for m
    using fun_cong [OF deliver_effect(3) [OF inv deliver], of m]
    by (simp add: owner_of_def name_token_def s1 put_listings_def)
  have "listings (rt_market s') = (listings (rt_market s))(n := None)"
    using d by (auto simp: s'' t(10) s1 put_listings_def drop_stale_primary_iff)
  with l own recs show ?thesis
    by (auto simp: primary_name_def s'' registrar_writes)
qed

theorem sale_delivery_witness:
  "\<exists>s'. buy_name demo (Origin_Signed 5) [97] None demo_listed = Inr s' \<and> owner_of 116 s' = Some 5
     \<and> primary_name 5 s' = Some 116 \<and> listings (rt_market s') 116 = None"
proof -
  obtain s' where s': "buy_name demo (Origin_Signed 5) [97] None demo_listed = Inr s'"
    using demo_sale by blast
  from sale_delivery [OF demo_listed_inv s', of 116] s' show ?thesis by auto
qed

text \<open>
  A stale listing sells nothing.  When the seller of a listing no longer owns the
  name, whatever the way it went, every purchase fails with the error for it and so moves no
  money.
\<close>

lemma stale_listing_refused:
  assumes "label_bytes name" "n = name_node c name (cfg_base_node c)"
    "listings (rt_market s) n = Some ls" "owner_of n s \<noteq> Some (ls_seller ls)"
    "buyer \<noteq> ls_seller ls" "rt_now s < ls_expires_at ls"
  shows "buy_name c (Origin_Signed buyer) name recipient s = Inl (MarketError Market_SellerNoLongerOwns)"
  using assms by (simp add: buy_name_label Let_def)

section \<open>Gifts\<close>

text \<open>
  C27: A name bought for someone else waits for its recipient.  The recipient, who held
  nothing, owns the token, the offer is recorded with its buyer, the name is no longer listed
  nor the seller's canonical name, and it is not the recipient's canonical name until the
  recipient accepts.
\<close>
theorem gift_delivery:
  assumes "pns_inv c s" "buy_name c (Origin_Signed buyer) name (Some recip) s = Inr s'"
    "n = name_node c name (cfg_base_node c)"
  shows "\<exists>ls. listings (rt_market s) n = Some ls \<and> owner_of n s = Some (ls_seller ls)
    \<and> recip \<noteq> buyer \<and> recip \<noteq> ls_seller ls
    \<and> \<not> has_valid_canonical_name c recip s \<and> \<not> has_active_subname recip s
    \<and> owner_of n s' = Some recip \<and> (\<forall>m. m \<noteq> n \<longrightarrow> owner_of m s' = owner_of m s)
    \<and> offered_name n s = None
    \<and> offered_name n s' = Some \<lparr>on_buyer = buyer, on_recipient = recip\<rparr>
    \<and> primary_name recip s' = primary_name recip s \<and> primary_name (ls_seller ls) s' \<noteq> Some n
    \<and> listings (rt_market s') = (listings (rt_market s))(n := None)
    \<and> get_record (rt_resolvers s') n RT_SS58 = h256_encode recip"
  using assms
proof (rule buy_name_effect)
  fix ls b s1
  assume l: "listings (rt_market s) n = Some ls" "owner_of n s = Some (ls_seller ls)"
    and s1: "s1 = put_listings (\<lambda>l. l(n := None)) (s\<lparr>rt_balances := rt_balances s'\<rparr>)"
    and inv: "pns_inv c s1" and d: "deliver c n buyer ls (Some recip) s1 = Inr s'"
  obtain s2 where t: "do_transfer c (ls_seller ls) recip n s1 = Inr s2"
    and g: "recip \<noteq> buyer" "recip \<noteq> ls_seller ls" "offered_name n s1 = None"
      "\<not> has_valid_canonical_name c recip s1" "\<not> has_active_subname recip s1"
    and s': "rt_nft s' = rt_nft s2" "rt_market s' = rt_market s2" "rt_resolvers s' = rt_resolvers s2"
      "rt_registrar s' = rt_registrar (offered_insert n \<lparr>on_buyer = buyer, on_recipient = recip\<rparr>
        (if primary_name (ls_seller ls) s2 = Some n then primary_remove (ls_seller ls) s2 else s2))"
    using d unfolding deliver_Some_iff offer_bought_name_iff by auto
  note t = do_transfer_effect [OF pns_inv_parts(1) [OF inv] t] do_transfer_frame [OF pns_inv_parts(1) [OF inv] t]
  have own: "owner_of m s' = (if m = n then Some recip else owner_of m s)" for m
    using fun_cong [OF deliver_effect(3) [OF inv d], of m]
    by (simp add: owner_of_def name_token_def s1 put_listings_def)
  have held: "has_valid_canonical_name c recip s1 = has_valid_canonical_name c recip s"
    "has_active_subname recip s1 = has_active_subname recip s" "offered_name n s1 = offered_name n s"
    "rt_registrar s2 = rt_registrar s"
    by (simp_all add: s1 put_listings_def has_valid_canonical_name_def still_valid_def get_info_def
        has_active_subname_def offered_name_def t(9) cong: option.case_cong)
  show ?thesis
    using l g [unfolded held] own t(7) [of n RT_SS58] t(10)
    by (auto simp: held(4) s' primary_name_def registrar_writes offered_name_def s1 put_listings_def)
qed

theorem gift_delivery_witness:
  "\<exists>s'. buy_name demo (Origin_Signed 5) [97] (Some 4) demo_listed = Inr s' \<and> owner_of 116 s' = Some 4
     \<and> offered_name 116 s' = Some \<lparr>on_buyer = 5, on_recipient = 4\<rparr>"
proof -
  obtain s' where s': "buy_name demo (Origin_Signed 5) [97] (Some 4) demo_listed = Inr s'"
    by (simp add: demo_eval offer_bought_name_def offered_name_def demo_listed_def demo_alice_def)
  from gift_delivery [OF demo_listed_inv s', of 116] s' show ?thesis by auto
qed

text \<open>
  A recipient with nothing else accepts a pending gift: the call succeeds, the offer is
  gone, the name becomes the recipient's canonical name and its anchors are written for the
  recipient.  It does so whoever owns the token by then: the owner is neither checked nor
  changed, so an offer left behind by a burned and registered again name makes the call
  overwrite the SS58 record of the new owner.
\<close>
theorem accept_gift_spec:
  assumes "label_bytes name" "n = name_node c name (cfg_base_node c)"
    "offered_name n s = Some offer" "get_info n s = Some info" "rt_now s < ri_expire info"
    "\<not> has_valid_canonical_name c (on_recipient offer) s" "\<not> has_active_subname (on_recipient offer) s"
    "32 \<le> cfg_max_content_len c"
  shows "\<exists>s'. accept_offered_name c (Origin_Signed (on_recipient offer)) name s = Inr s'
    \<and> offered_name n s' = None \<and> primary_name (on_recipient offer) s' = Some n
    \<and> owner_of n s' = owner_of n s
    \<and> get_record (rt_resolvers s') n RT_SS58 = h256_encode (on_recipient offer)
    \<and> get_record (rt_resolvers s') n RT_ORIGIN = h256_encode (rt_parent_hash s)"
proof -
  let ?r = "on_recipient offer" and ?s = "offered_remove n s"
  obtain s1 where d: "drop_stale_primary c ?r ?s = Inr s1" and s1: "rt_nft s1 = rt_nft s"
    "rt_registry s1 = rt_registry s" "rt_resolvers s1 = rt_resolvers s" "rt_parent_hash s1 = rt_parent_hash s"
    "offered_names (rt_registrar s1) = im_remove n (offered_names (rt_registrar s))"
    using assms(6) by (auto simp: drop_stale_primary_iff has_valid_canonical_name_def still_valid_def get_info_def
      registrar_writes split: option.splits)
  obtain s2 where u: "update_ss58 c n ?r (primary_insert ?r n s1) = Inr s2"
    and s2: "rt_nft s2 = rt_nft s" "rt_registrar s2 = rt_registrar (primary_insert ?r n s1)"
      "rt_parent_hash s2 = rt_parent_hash s"
    using assms(8) by (simp add: update_ss58_iff registrar_writes s1)
  obtain s3 where o: "record_origin c n (rt_parent_hash s) s2 = Inr s3"
    and s3: "rt_nft s3 = rt_nft s" "rt_registrar s3 = rt_registrar (primary_insert ?r n s1)"
    using assms(8) by (simp add: record_origin_iff s2)
  have "ensure_parent_live n ?s = Inr info" "ensure_no_subname ?r s1 = Inr ()"
    using assms(4,5,7) by (simp_all add: result_simps get_info_def registrar_writes ensure_no_subname_def
        has_active_subname_def s1)
  then have "accept_offered_name c (Origin_Signed ?r) name s =
      Inr (deposit_event (Registrar_OfferedNameAccepted n ?r) s3)"
    using assms(1,3) d u o s2(3)
    by (simp add: accept_offered_name_def ensure_signed_def label_node_under_eq assms(2) [symmetric])
  then show ?thesis
    using keeper.put_owner [OF u] keeper.put_origin [OF o]
    by (auto simp: s3 s1 owner_of_def name_token_def offered_name_def primary_name_def registrar_writes)
qed

text \<open>
  The pending offer can be stale: account 4 is offered the name \<open>a\<close>, which account 2 owns.
\<close>

theorem accept_gift_spec_witness:
  "\<exists>s s'. owner_of 116 s = Some 2 \<and> get_record (rt_resolvers s) 116 RT_SS58 = h256_encode 2
     \<and> accept_offered_name demo (Origin_Signed 4) [97] s = Inr s' \<and> owner_of 116 s' = Some 2
     \<and> get_record (rt_resolvers s') 116 RT_SS58 = h256_encode 4"
proof -
  let ?offer = "\<lparr>on_buyer = 5, on_recipient = 4\<rparr>"
  let ?s = "offered_insert 116 ?offer demo_alice"
  have f: "offered_name 116 ?s = Some ?offer" "get_info 116 ?s = Some demo_info"
    "rt_now ?s < ri_expire demo_info" "\<not> has_valid_canonical_name demo (on_recipient ?offer) ?s"
    "\<not> has_active_subname (on_recipient ?offer) ?s"
    by (simp_all add: registrar_writes offered_name_def get_info_def has_valid_canonical_name_def
        has_active_subname_def dm_iter_def) (simp_all add: demo_alice_def demo_info_def im_get_def)
  have o: "owner_of 116 ?s = Some 2" "get_record (rt_resolvers ?s) 116 RT_SS58 = h256_encode 2"
    by (simp_all add: registrar_writes owner_of_def name_token_def) (simp_all add: demo_alice_def get_record_def dm_get_def)
  show ?thesis
    using accept_gift_spec [of "[97]" 116 demo, OF _ _ f] o by fastforce
qed

end
