(* ===== verification/Call_Success.thy ===== *)
theory Call_Success
  imports Market_Lifecycle
begin

text \<open>
  When the calls succeed.  For registering, transferring and buying a name the conditions of
  success are given as an equivalence, so that a call is neither refused without a reason nor
  granted without its checks.
\<close>

section \<open>Steps that always succeed\<close>

lemma anchors_written:
  assumes "32 \<le> cfg_max_content_len c"
  shows "\<exists>s'. update_ss58 c n a s = Inr s'" "\<exists>s'. record_origin c n h s = Inr s'"
  using assms by (simp_all add: update_ss58_iff record_origin_iff)

lemma drop_stale_ok:
  assumes "\<not> has_valid_canonical_name c a s"
  obtains s1 where "drop_stale_primary c a s = Inr s1" "rt_nft s1 = rt_nft s" "rt_registry s1 = rt_registry s"
    "rt_oracle s1 = rt_oracle s" "rt_balances s1 = rt_balances s" "rt_now s1 = rt_now s"
    "\<And>n. get_info n s1 = get_info n s" "\<And>n. owner_of n s1 = owner_of n s"
proof
  let ?s1 = "if primary_name a s = None then s else primary_remove a s"
  show d: "drop_stale_primary c a s = Inr ?s1" using assms by (simp add: drop_stale_primary_iff)
  show "owner_of n ?s1 = owner_of n s" for n by (rule owner_of_drop_stale [OF d])
qed simp_all

lemma do_transfer_succeeds:
  assumes "tree_ok base s" "n \<noteq> base" "owner_of n s = Some a" "is_ok (check_expires_renewable c n s)"
    "32 \<le> cfg_max_content_len c"
  shows "\<exists>s'. do_transfer c a b n s = Inr s'"
proof -
  obtain info where i: "name_token n s = Some info" "ti_owner info = a"
    using assms(3) by (auto simp: owner_of_def)
  moreover have "runtime_origin (rt_registry s) n = Some Root"
    using assms(1,2) i by (simp add: tree_ok_def roots_ok_def)
  moreover have "owner_of n (clear_subnames n s) = Some a"
    using owner_of_clear_subnames [OF assms(1)] assms(3) by simp
  then obtain st where "nft_transfer a b (0, n) (rt_nft (clear_subnames n s)) = Inr st"
    by (auto simp: owner_of_def name_token_def nft_transfer_iff)
  moreover obtain s1 where "update_ss58 c n b (cleaner_except_ss58 n (upd_nft (\<lambda>_. st) (clear_subnames n s))) = Inr s1"
    using anchors_written(1) [OF assms(5)] by blast
  moreover obtain s2 where "record_origin c n (rt_parent_hash s1) s1 = Inr s2"
    using anchors_written(2) [OF assms(5)] by blast
  ultimately show ?thesis using assms(4) unfolding do_transfer_iff [OF assms(1)] by blast
qed

text \<open>The token pallet can issue a token as long as its 128-bit counter is not full.\<close>

lemma nft_mint_iff_room:
  assumes "nft_wf st" "tokens st (0, base) \<noteq> None"
  shows "(\<exists>st'. nft_mint k a (0, n) [] d st = Inr st') \<longleftrightarrow> card (class_tokens st 0) < 2 ^ 128 - 1"
proof -
  have "class_count_ok st 0" using assms(1) by (simp add: nft_wf_def nft_count_ok_def)
  moreover have "class_tokens st 0 \<noteq> {}" using assms(2) in_class_tokens by blast
  ultimately obtain info where "classes st 0 = Some info" "card (class_tokens st 0) = unat (ci_total_issuance info)"
    by (auto simp: class_count_ok_def split: option.splits)
  then show ?thesis by (simp add: nft_mint_iff checked_add_def less_diff_conv)
qed

section \<open>Minting under the base node\<close>

lemma mint_base_succeeds:
  assumes t: "tree_ok base s" and pay: "payments_frame pay"
    and own: "owner_of base s = Some off" "b \<noteq> off"
    and paid: "pay (owner_of n s) s = Inr s1"
    and room: "if owner_of n s = None then \<exists>st. nft_mint (cfg_max_token_metadata c) b (0, n) [] default_token_data (rt_nft s) = Inr st
      else is_ok (check_expires_registrable c n s)"
  shows "\<exists>s'. mint_subname c off [] base n b k pay s = Inr s'"
proof -
  have fr: "rt_nft s1 = rt_nft s" "rt_registry s1 = rt_registry s" using pay paid by (auto simp: payments_frame_def)
  have t1: "tree_ok base s1" by (rule tree_ok_cong [OF t fr])
  obtain binfo where b: "name_token base s = Some binfo" "ti_owner binfo = off"
    "runtime_origin (rt_registry s) base = None"
    using t own by (auto simp: tree_ok_def roots_ok_def owner_of_def)
  show ?thesis
  proof (cases "name_token n s")
    case None
    then have o: "owner_of n s = None" by (simp add: owner_of_def)
    with room obtain st where st: "nft_mint (cfg_max_token_metadata c) b (0, n) [] default_token_data (rt_nft s) = Inr st" by auto
    have "base \<noteq> n" using None b(1) by auto
    then have "tokens st (0, base) = Some binfo"
      using st b(1) by (auto simp: nft_mint_iff name_token_def)
    then show ?thesis
      using None o paid fr st b own(2)
      by (simp add: mint_subname_def verify_with_owner_def lift_nft_def attach_child_def add_children_def
          registry_writes name_token_def)
  next
    case (Some info)
    then have o: "owner_of n s = Some (ti_owner info)" by (simp add: owner_of_def)
    with room obtain u where u: "check_expires_registrable c n s = Inr u" by (auto simp: is_ok_iff)
    have "owner_of n (clear_subnames n s1) = Some (ti_owner info)"
      using owner_of_clear_subnames [OF t1] o fr by (simp add: owner_of_def name_token_def)
    then obtain st where "nft_transfer (ti_owner info) b (0, n) (rt_nft (clear_subnames n s1)) = Inr st"
      by (auto simp: owner_of_def name_token_def nft_transfer_iff)
    then show ?thesis
      using Some o paid b own(2) u
      by (simp add: mint_subname_def verify_with_owner_def lift_nft_def registry_writes)
  qed
qed

section \<open>Handing a name to a new holder\<close>

text \<open>
  The step that transfers, sales and gifts share: the receiver's stale canonical name is
  dropped, the receiver must hold no subname, and the token changes hands.
\<close>

lemma handover_exact:
  assumes "pns_inv c s" "32 \<le> cfg_max_content_len c"
  shows "(\<exists>s1 s2. drop_stale_primary c b s = Inr s1 \<and> \<not> has_active_subname b s1 \<and> do_transfer c a b n s1 = Inr s2) \<longleftrightarrow>
    \<not> has_valid_canonical_name c b s \<and> \<not> has_active_subname b s
    \<and> owner_of n s = Some a \<and> is_ok (check_expires_renewable c n s)" (is "?ok \<longleftrightarrow> ?conds")
proof
  assume ?ok
  then obtain s1 s2 where d: "drop_stale_primary c b s = Inr s1" "\<not> has_active_subname b s1"
    and t: "do_transfer c a b n s1 = Inr s2" by blast
  note e = do_transfer_effect(1,2,3) [OF tree_ok_drop_stale [OF assms(1) d(1)] t]
  show ?conds
    using d e by (auto simp: drop_stale_primary_iff has_active_subname_def check_expires_renewable_def
        owner_of_drop_stale [OF d(1)] split: if_splits)
next
  assume c: ?conds
  have "n \<noteq> cfg_base_node c"
    using c pns_inv_parts(3) [OF assms(1)] by (auto simp: infos_ok_def is_ok_iff result_simps)
  moreover obtain s1 where d: "drop_stale_primary c b s = Inr s1" "rt_registry s1 = rt_registry s"
      "rt_now s1 = rt_now s" "\<And>n. get_info n s1 = get_info n s" "\<And>n. owner_of n s1 = owner_of n s"
    using c drop_stale_ok by metis
  ultimately obtain s2 where "do_transfer c a b n s1 = Inr s2"
    using do_transfer_succeeds [OF tree_ok_drop_stale [OF assms(1) d(1)] _ _ _ assms(2), of n a b] c
    by (auto simp: check_expires_renewable_def)
  then show ?ok using c d by (auto simp: has_active_subname_def)
qed

section \<open>Registering\<close>

lemma register_succeeds_iff:
  assumes "pns_inv c s" "cfg_lookup c src = Inr owner" "32 \<le> cfg_max_content_len c"
    "n = name_node c name (cfg_base_node c)"
  shows "(\<exists>s'. register c (Origin_Signed a) name src None s = Inr s') \<longleftrightarrow>
    label_bytes name \<and> cfg_is_open c s \<and> reserved_list (rt_registrar s) n = None
    \<and> official (rt_registry s) \<noteq> Some owner
    \<and> \<not> has_valid_canonical_name c owner s \<and> \<not> has_active_subname owner s
    \<and> (\<exists>b. cfg_withdraw c a (base_price (rt_oracle s) ! min (length name - 1) 10) (rt_balances s) = Inr b)
    \<and> unat (rt_now s) + unat (cfg_max_registration_duration c) < 2 ^ 64
    \<and> (if owner_of n s = None then card (class_tokens (rt_nft s) 0) < 2 ^ 128 - 1
       else is_ok (check_expires_registrable c n s))" (is "?ok \<longleftrightarrow> ?conds")
proof -
  let ?base = "cfg_base_node c"
  note inv = pns_inv_parts [OF assms(1)]
  obtain off where off: "official (rt_registry s) = Some off" "owner_of ?base s = Some off"
    using inv(5) by (auto simp: official_ok_def)
  have room: "(\<exists>st. nft_mint (cfg_max_token_metadata c) owner (0, n) [] default_token_data (rt_nft s) = Inr st)
      \<longleftrightarrow> card (class_tokens (rt_nft s) 0) < 2 ^ 128 - 1"
    by (rule nft_mint_iff_room) (use inv(1) off(2) in \<open>auto simp: tree_ok_def owner_of_def name_token_def\<close>)
  have fee: "registration_fee (length name) (rt_oracle s) = Some (base_price (rt_oracle s) ! min (length name - 1) 10)"
    if "label_bytes name" using that by (intro registration_fee_Some inv(6)) (auto simp: label_bytes_def)
  have now: "(\<exists>e. checked_add (rt_now s) (cfg_max_registration_duration c) = Some e) \<longleftrightarrow>
      unat (rt_now s) + unat (cfg_max_registration_duration c) < 2 ^ 64" by (simp add: checked_add_def)
  show ?thesis
  proof
    assume ?ok
    then obtain s' where "register c (Origin_Signed a) name src None s = Inr s'" by blast
    then show ?conds
    proof (rule register_cases)
      fix caller o' s0 s1 s2 off' expire x
      assume r: "Origin_Signed a = Origin_Signed caller" "cfg_lookup c src = Inr o'"
        "reject_pending c caller None s = Inr s0" "cfg_is_open c s0" "label_bytes name"
        "official (rt_registry s0) = Some off'"
        "checked_add (rt_now s0) (cfg_max_registration_duration c) = Some expire"
        "reserved_list (rt_registrar s0) (name_node c name ?base) = None"
        and d: "drop_stale_primary c o' s0 = Inr s1" "\<not> has_active_subname o' s1"
        and x: "registration_fee (length name) (rt_oracle s1) = Some x"
        and m: "mint_subname c off' [] ?base (name_node c name ?base) o' 0
          (register_payments c caller (name_node c name ?base) (length name) expire x) s1 = Inr s2"
      have e: "s0 = s" "o' = owner" "caller = a" "off' = off"
        using r assms(2) off by (simp_all add: reject_pending_def)
      have v: "\<not> has_valid_canonical_name c owner s" using d(1) e by (simp add: drop_stale_primary_iff)
      have s1: "rt_nft s1 = rt_nft s" "rt_registry s1 = rt_registry s" "rt_oracle s1 = rt_oracle s"
        "rt_balances s1 = rt_balances s" "rt_now s1 = rt_now s" "\<And>m. get_info m s1 = get_info m s"
        using d(1) e by (auto simp: drop_stale_primary_iff)
      have tok: "name_token n s1 = name_token n s" by (simp add: name_token_def s1)
      have reg: "check_expires_registrable c n s1 = check_expires_registrable c n s"
        by (simp add: check_expires_registrable_def s1)
      have t1: "tree_ok ?base s1" by (rule tree_ok_drop_stale [OF assms(1) d(1) [unfolded e]])
      have pay: "x = base_price (rt_oracle s) ! min (length name - 1) 10" using x fee r(5) s1 by simp
      have "owner \<noteq> off \<and> (\<exists>b. cfg_withdraw c a x (rt_balances s) = Inr b)
          \<and> (if owner_of n s = None then \<exists>st. nft_mint (cfg_max_token_metadata c) owner (0, n) [] default_token_data (rt_nft s) = Inr st
             else is_ok (check_expires_registrable c n s))"
        using m [folded assms(4)] t1 register_payments_frame
      proof (cases rule: mint_base_cases)
        case (fresh s2' st bi)
        then show ?thesis using e s1 tok by (auto simp: register_payments_iff owner_of_def)
      next
        case (expired info s2' st)
        then show ?thesis using e s1 tok reg by (auto simp: register_payments_iff owner_of_def)
      qed
      then show ?conds
        using r e off d(2) s1 v now room pay assms(4) by (auto simp: has_active_subname_def)
    qed
  next
    assume c: ?conds
    then obtain b expire where b: "cfg_withdraw c a (base_price (rt_oracle s) ! min (length name - 1) 10) (rt_balances s) = Inr b"
      and expire: "checked_add (rt_now s) (cfg_max_registration_duration c) = Some expire" using now by auto
    let ?fee = "base_price (rt_oracle s) ! min (length name - 1) 10"
    have "\<not> has_valid_canonical_name c owner s" using c by blast
    then obtain s1 where d: "drop_stale_primary c owner s = Inr s1" and s1: "rt_nft s1 = rt_nft s"
        "rt_registry s1 = rt_registry s" "rt_oracle s1 = rt_oracle s" "rt_balances s1 = rt_balances s"
        "rt_now s1 = rt_now s" "\<And>n. get_info n s1 = get_info n s" "\<And>n. owner_of n s1 = owner_of n s"
      using drop_stale_ok by metis
    obtain s2 where p: "register_payments c a n (length name) expire ?fee (owner_of n s1) s1 = Inr s2"
      using b s1 by (auto simp: register_payments_iff)
    have "\<exists>s'. mint_subname c off [] ?base n owner 0 (register_payments c a n (length name) expire ?fee) s1 = Inr s'"
      by (rule mint_base_succeeds [OF tree_ok_drop_stale [OF assms(1) d] register_payments_frame _ _ p])
        (use c off s1 room in \<open>auto simp: check_expires_registrable_def\<close>)
    then obtain s3 where m: "mint_subname c off [] ?base n owner 0 (register_payments c a n (length name) expire ?fee) s1 = Inr s3" ..
    obtain s4 where u: "update_ss58 c n owner (primary_insert owner n s3) = Inr s4"
      using anchors_written(1) [OF assms(3)] by blast
    obtain s5 where o: "record_origin c n (rt_parent_hash s4) s4 = Inr s5"
      using anchors_written(2) [OF assms(3)] by blast
    have "name \<noteq> []" using c by (auto simp: label_bytes_def)
    then show ?ok
      using c off expire d m u o fee s1 assms(2,4)
      by (auto simp: register_def ensure_signed_def reject_pending_def label_node_under_eq is_registrable_def
          MIN_REGISTRABLE_LEN_def get_official_account_def ensure_no_subname_def has_active_subname_def label_bytes_def)
  qed
qed

section \<open>Properties\<close>



text \<open>
  C17: A canonical name can be transferred exactly when registration is open, its holder still
  owns it, it is within its grace period, and the receiver has neither a valid canonical name
  nor a subname.
\<close>
theorem transfer_exact:
  assumes "pns_inv c s" "cfg_lookup c src = Inr b" "32 \<le> cfg_max_content_len c"
  shows "(\<exists>s'. transfer c (Origin_Signed a) src s = Inr s') \<longleftrightarrow>
    cfg_is_open c s \<and> \<not> has_valid_canonical_name c b s \<and> \<not> has_active_subname b s
    \<and> (\<exists>n. primary_name a s = Some n \<and> owner_of n s = Some a \<and> is_ok (check_expires_renewable c n s))"
    (is "?ok \<longleftrightarrow> ?conds")
proof
  assume ?ok
  then obtain s' where "transfer c (Origin_Signed a) src s = Inr s'" by blast
  then show ?conds
  proof (rule transfer_cases)
    fix who receiver n s1 s2
    assume "Origin_Signed a = Origin_Signed who" "cfg_lookup c src = Inr receiver" "cfg_is_open c s"
      "primary_name who s = Some n" "drop_stale_primary c receiver s = Inr s1"
      "\<not> has_active_subname receiver s1" "do_transfer c who receiver n s1 = Inr s2"
    with assms(2) show ?conds using handover_exact [OF assms(1,3), of b a n] by auto
  qed
next
  assume c: ?conds
  then obtain n where n: "primary_name a s = Some n" "owner_of n s = Some a" "is_ok (check_expires_renewable c n s)" by blast
  obtain info where i: "get_info n s = Some info" "rt_now s < ri_expire info + cfg_grace_period c"
    using n(3) by (auto simp: is_ok_iff result_simps)
  obtain s1 s2 where "drop_stale_primary c b s = Inr s1" "\<not> has_active_subname b s1" "do_transfer c a b n s1 = Inr s2"
    using c n handover_exact [OF assms(1,3), of b a n] by blast
  then show ?ok
    using c n i assms(2) by (auto simp: transfer_def ensure_signed_def ensure_no_subname_def has_active_subname_def)
qed

theorem transfer_exact_witness:
  "(\<exists>s'. transfer demo (Origin_Signed 2) 3 demo_alice = Inr s')
   \<and> \<not> (\<exists>s'. transfer demo (Origin_Signed 3) 5 demo_alice = Inr s')"
  using transfer_exact [OF demo_alice_inv, of 3 3 2] transfer_exact [OF demo_alice_inv, of 5 5 3]
  by (auto simp: demo_eval demo_alice_def has_valid_canonical_name_def check_expires_renewable_def is_ok_def)

text \<open>
  C16: A listed name can be bought for oneself exactly when the label is valid, the listing
  still runs, the buyer is not the seller, the seller still owns the name and it is within its
  grace period, the buyer can pay the price and the seller the protocol fee out of it, and the
  buyer has neither a valid canonical name nor a subname.
\<close>
theorem sale_exact:
  assumes "pns_inv c s" "32 \<le> cfg_max_content_len c" "n = name_node c name (cfg_base_node c)"
  shows "(\<exists>s'. buy_name c (Origin_Signed buyer) name None s = Inr s') \<longleftrightarrow>
    label_bytes name \<and> (\<exists>ls b1 b2. listings (rt_market s) n = Some ls \<and> buyer \<noteq> ls_seller ls
      \<and> rt_now s < ls_expires_at ls \<and> owner_of n s = Some (ls_seller ls)
      \<and> is_ok (check_expires_renewable c n s)
      \<and> cfg_transfer c buyer (ls_seller ls) (ls_price ls) (rt_balances s) = Inr b1
      \<and> cfg_withdraw c (ls_seller ls) (protocol_fee c (ls_price ls)) b1 = Inr b2)
    \<and> \<not> has_valid_canonical_name c buyer s \<and> \<not> has_active_subname buyer s"
proof -
  have inv: "pns_inv c (put_listings (\<lambda>l. l(n := None)) (s\<lparr>rt_balances := b\<rparr>))" for b
    by (rule pns_inv_put_listings [OF pns_inv_writes(6) [OF assms(1)]])
  have deliver: "(\<exists>s'. deliver c n buyer ls None (put_listings (\<lambda>l. l(n := None)) (s\<lparr>rt_balances := b\<rparr>)) = Inr s') \<longleftrightarrow>
      \<not> has_valid_canonical_name c buyer s \<and> \<not> has_active_subname buyer s
      \<and> owner_of n s = Some (ls_seller ls) \<and> is_ok (check_expires_renewable c n s)" for ls b
  proof -
    have h: "(\<exists>s'. deliver c n buyer ls None s1 = Inr s') \<longleftrightarrow>
        (\<exists>s2 s3. drop_stale_primary c buyer s1 = Inr s2 \<and> \<not> has_active_subname buyer s2 \<and> do_transfer c (ls_seller ls) buyer n s2 = Inr s3)"
      for s1 unfolding deliver_None_iff transfer_name_iff using anchors_written [OF assms(2)] by metis
    show ?thesis
      unfolding h handover_exact [OF inv assms(2)]
      by (simp add: put_listings_def has_valid_canonical_name_def has_active_subname_def check_expires_renewable_def
          owner_of_def name_token_def get_info_def still_valid_def cong: option.case_cong)
  qed
  show ?thesis
  proof (cases "label_bytes name")
    case True
    have "(\<exists>s'. buy_name c (Origin_Signed buyer) name None s = Inr s') \<longleftrightarrow>
      (\<exists>ls b1 b2. listings (rt_market s) n = Some ls \<and> buyer \<noteq> ls_seller ls
        \<and> rt_now s < ls_expires_at ls \<and> owner_of n s = Some (ls_seller ls)
        \<and> cfg_transfer c buyer (ls_seller ls) (ls_price ls) (rt_balances s) = Inr b1
        \<and> cfg_withdraw c (ls_seller ls) (protocol_fee c (ls_price ls)) b1 = Inr b2
        \<and> (\<exists>s'. deliver c n buyer ls None (put_listings (\<lambda>l. l(n := None)) (s\<lparr>rt_balances := b2\<rparr>)) = Inr s'))"
      by (auto simp: buy_name_label [OF True] result_simps Let_def assms(3) [symmetric])
    then show ?thesis using True unfolding deliver by blast
  next
    case False
    then show ?thesis by (auto elim!: buy_name_cases)
  qed
qed

theorem sale_exact_witness:
  "(\<exists>s'. buy_name demo (Origin_Signed 5) [97] None demo_listed = Inr s')
   \<and> \<not> (\<exists>s'. buy_name demo (Origin_Signed 2) [97] None demo_listed = Inr s')"
  using sale_exact [OF demo_listed_inv, of 116 "[97]" 5] sale_exact [OF demo_listed_inv, of 116 "[97]" 2]
  by (auto simp: demo_eval demo_listed_def demo_alice_def has_valid_canonical_name_def is_ok_def)

end
