(* ===== verification/Call_Sequences.thy ===== *)
theory Call_Sequences
  imports Call_Success
begin

text \<open>
  Calls one after the other.  A name its holder releases can be registered at once by any
  account that is free to hold it; a name that was given away, burned by its recipient and
  registered by someone else can still be accepted by that recipient, which puts the
  recipient's account into the anchor of a name somebody else owns; and a holder who burns a
  name without releasing it keeps the right to delegate under it.
\<close>

fun run_calls :: "('b, 'src) config \<Rightarrow> (origin \<times> 'src call) list \<Rightarrow> 'b runtime \<Rightarrow> 'b runtime result" where
  "run_calls c [] s = Inr s"
| "run_calls c ((org, call) # cs) s = and_then (dispatch c org call s) (run_calls c cs)"

lemma run_calls_append:
  "run_calls c (xs @ ys) s = and_then (run_calls c xs s) (run_calls c ys)"
  by (induction c xs s rule: run_calls.induct) (auto simp: and_then_def split: sum.splits)

section \<open>Frames\<close>

lemma has_valid_canonical_name_mono:
  assumes "has_valid_canonical_name c a s'" "rt_now s' = rt_now s"
    "primary_name a s' = primary_name a s" "\<And>n. get_info n s' = None \<or> get_info n s' = get_info n s"
  shows "has_valid_canonical_name c a s"
proof -
  obtain n where n: "primary_name a s = Some n" "still_valid c n s'"
    using assms(1,3) by (auto simp: has_valid_canonical_name_def primary_name_def split: option.splits)
  then have "still_valid c n s"
    using assms(2) assms(4) [of n] by (cases "get_info n s") (auto simp: still_valid_def)
  with n(1) show ?thesis by (simp add: has_valid_canonical_name_def primary_name_def)
qed

lemma register_frame:
  assumes "pns_inv c s" "register c org name src None s = Inr s'"
  shows "offered_names (rt_registrar s') = offered_names (rt_registrar s) \<and> rt_now s' = rt_now s
    \<and> rt_market s' = rt_market s"
  using assms(2)
proof (rule register_cases)
  let ?n = "name_node c name (cfg_base_node c)"
  fix caller owner s0 s1 s2 s3 s4 off expire fee
  assume r: "reject_pending c caller None s = Inr s0" and d: "drop_stale_primary c owner s0 = Inr s1"
    and m: "mint_subname c off [] (cfg_base_node c) ?n owner 0
       (register_payments c caller ?n (length name) expire fee) s1 = Inr s2"
    and u: "update_ss58 c ?n owner (primary_insert owner ?n s2) = Inr s3"
    and o: "record_origin c ?n (rt_parent_hash s3) s3 = Inr s4"
    and s': "s' = deposit_event (Registrar_NameRegistered name ?n owner expire fee) s4"
  have s0: "s0 = s" using r by (simp add: reject_pending_def)
  note inv = pns_inv_drop_stale [OF assms(1) d [unfolded s0]]
  have "get_info (cfg_base_node c) s1 = None" using pns_inv_parts(3) [OF inv] by (auto simp: infos_ok_def)
  then obtain who p where "register_payments c caller ?n (length name) expire fee who s1 = Inr p"
    "rt_registrar s2 = rt_registrar p" "rt_now s2 = rt_now p" "rt_market s2 = rt_market p"
    by (rule mint_base_effect [OF m pns_inv_parts(1) [OF inv] register_payments_frame])
  then show ?thesis
    using u o d by (auto simp: s' s0 update_ss58_iff record_origin_iff drop_stale_primary_iff register_payments_iff
        forget_pre_owner_eq registrar_writes)
qed

lemma register_primary_names:
  assumes "pns_inv c s" "register c org name src None s = Inr s'" "cfg_lookup c src = Inr b"
    "owner_of (name_node c name (cfg_base_node c)) s = None"
  shows "primary_name a s' = (if a = b then Some (name_node c name (cfg_base_node c)) else primary_name a s)"
  using assms(2)
proof (rule register_cases)
  let ?n = "name_node c name (cfg_base_node c)"
  fix caller owner s0 s1 s2 s3 s4 off expire fee
  assume l: "cfg_lookup c src = Inr owner"
    and r: "reject_pending c caller None s = Inr s0" and d: "drop_stale_primary c owner s0 = Inr s1"
    and m: "mint_subname c off [] (cfg_base_node c) ?n owner 0
       (register_payments c caller ?n (length name) expire fee) s1 = Inr s2"
    and u: "update_ss58 c ?n owner (primary_insert owner ?n s2) = Inr s3"
    and o: "record_origin c ?n (rt_parent_hash s3) s3 = Inr s4"
    and s': "s' = deposit_event (Registrar_NameRegistered name ?n owner expire fee) s4"
  have s0: "s0 = s" using r by (simp add: reject_pending_def)
  note inv = pns_inv_drop_stale [OF assms(1) d [unfolded s0]]
  have "get_info (cfg_base_node c) s1 = None" using pns_inv_parts(3) [OF inv] by (auto simp: infos_ok_def)
  then obtain p where p: "register_payments c caller ?n (length name) expire fee (owner_of ?n s1) s1 = Inr p"
    "rt_registrar s2 = rt_registrar p"
    using mint_base_effect [OF m pns_inv_parts(1) [OF inv] register_payments_frame] by metis
  moreover have "owner_of ?n s1 = None" using owner_of_drop_stale [OF d] assms(4) s0 by simp
  ultimately show ?thesis
    using u o d l assms(3) by (auto simp: s' s0 primary_name_def update_ss58_iff record_origin_iff drop_stale_primary_iff
        register_payments_iff forget_pre_owner_eq registrar_writes)
qed

lemma burn_label_iff:
  assumes "label_bytes name"
  shows "registry_burn c (Origin_Signed a) name s = do_burn a (name_node c name (cfg_base_node c)) s"
  using assms by (simp add: registry_burn_def ensure_signed_def registry_name_to_node_def parse_name_label
      encode_with_node_def name_node_def)

lemma release_room:
  assumes "pns_inv c s" "do_burn a n s = Inr s'"
  shows "card (class_tokens (rt_nft s') 0) < 2 ^ 128 - 1"
proof -
  note t = pns_inv_parts(1) [OF assms(1)]
  have k: "class_tokens (rt_nft u) 0 = {m. owner_of m u \<noteq> None}" for u :: "'a runtime"
    by (auto simp: class_tokens_def owner_of_def name_token_def)
  have n: "class_tokens (rt_nft s') 0 = class_tokens (rt_nft s) 0 - {n}" "n \<in> class_tokens (rt_nft s) 0"
    using do_burn_effect(1,3) [OF t assms(2)] by (auto simp: k split: if_splits)
  have "class_count_ok (rt_nft s) 0" using t by (simp add: tree_ok_def nft_wf_def nft_count_ok_def)
  with n(2) obtain i where "classes (rt_nft s) 0 = Some i" and i: "finite (class_tokens (rt_nft s) 0)" "card (class_tokens (rt_nft s) 0) = unat (ci_total_issuance i)"
    by (auto simp: class_count_ok_def split: option.splits)
  have "card (class_tokens (rt_nft s') 0) < card (class_tokens (rt_nft s) 0)"
    unfolding n(1) using i(1) n(2) by (rule card_Diff1_less)
  moreover have "unat (ci_total_issuance i) < 2 ^ 128" using unsigned_less [of "ci_total_issuance i"] by simp
  ultimately show ?thesis using i(2) by linarith
qed

section \<open>A released name is free again\<close>


section \<open>A stale gift\<close>

text \<open>
  C19: A gift outlives its name.  When the recipient of a bought name burns it instead of
  accepting it, and somebody else registers the name, the recipient can still accept: the
  call succeeds, the new owner keeps the token, but the name becomes the recipient's
  canonical name and its SS58 record names the recipient.
\<close>
theorem gift_outlives_name:
  assumes inv: "pns_inv c s" and n: "n = name_node c name (cfg_base_node c)"
    and buy: "buy_name c (Origin_Signed buyer) name (Some r) s = Inr s1"
    and burn: "registry_burn c (Origin_Signed r) name s1 = Inr s2"
    and reg: "register c (Origin_Signed w) name src None s2 = Inr s3" "cfg_lookup c src = Inr w"
    and free: "\<not> has_valid_canonical_name c r s3" "\<not> has_active_subname r s3"
    and chain: "0 < cfg_max_registration_duration c" "32 \<le> cfg_max_content_len c"
  shows "\<exists>s4. accept_offered_name c (Origin_Signed r) name s3 = Inr s4 \<and> owner_of n s4 = Some w
    \<and> primary_name w s3 = Some n \<and> get_record (rt_resolvers s3) n RT_SS58 = h256_encode w
    \<and> primary_name r s4 = Some n \<and> get_record (rt_resolvers s4) n RT_SS58 = h256_encode r"
proof -
  have lb: "label_bytes name" using buy by (rule buy_name_cases)
  have "offered_name n s1 = Some \<lparr>on_buyer = buyer, on_recipient = r\<rparr>"
    using inv buy n
  proof (rule buy_name_effect)
    fix ls b s0
    assume "deliver c n buyer ls (Some r) s0 = Inr s1"
    then show ?thesis unfolding deliver_Some_iff offer_bought_name_iff by (auto simp: offered_name_def registrar_writes)
  qed
  moreover have inv1: "pns_inv c s1" by (rule pns_inv_buy_name [OF inv buy])
  then have t1: "tree_ok (cfg_base_node c) s1" by (rule pns_inv_parts)
  have b: "do_burn r n s1 = Inr s2" using burn unfolding burn_label_iff [OF lb] n .
  have inv2: "pns_inv c s2" by (rule pns_inv_do_burn [OF inv1 b])
  have "offered_names (rt_registrar s3) = offered_names (rt_registrar s1)"
    using register_frame [OF inv2 reg(1)] do_burn_frame(1) [OF t1 b]
    by (simp add: clear_registrar_info_def registrar_writes)
  ultimately have off: "offered_name n s3 = Some \<lparr>on_buyer = buyer, on_recipient = r\<rparr>" by (simp add: offered_name_def)
  obtain info where "get_info n s3 = Some info" "rt_now s3 < ri_expire info" "owner_of n s3 = Some w"
    "primary_name w s3 = Some n" "get_record (rt_resolvers s3) n RT_SS58 = h256_encode w"
  proof (rule register_effect [OF inv2 reg(1)])
    fix caller owner fee expire
    assume e: "cfg_lookup c src = Inr owner" "checked_add (rt_now s2) (cfg_max_registration_duration c) = Some expire"
      "\<And>m. owner_of m s3 = (if m = name_node c name (cfg_base_node c) then Some owner else owner_of m s2)"
      "primary_name owner s3 = Some (name_node c name (cfg_base_node c))"
      "get_info (name_node c name (cfg_base_node c)) s3 = Some (registered_info c (length name) expire fee
         (rt_block_number s2) (get_info (name_node c name (cfg_base_node c)) s2))"
      "\<And>rt. get_record (rt_resolvers s3) (name_node c name (cfg_base_node c)) rt =
       (if rt = RT_SS58 then h256_encode owner else if rt = RT_ORIGIN then h256_encode (rt_parent_hash s2)
        else if owner_of (name_node c name (cfg_base_node c)) s2 = None
        then get_record (rt_resolvers s2) (name_node c name (cfg_base_node c)) rt else [])"
    have "rt_now s3 < expire"
      using register_frame [OF inv2 reg(1)] unat_checked_add [OF e(2)] chain(1)
      by (simp add: word_less_nat_alt)
    with e reg(2) show thesis by (intro that [OF e(5) [folded n]]) (simp_all add: n registered_info_sel)
  qed
  with accept_gift_spec [OF lb n off] free chain(2) show ?thesis by auto
qed


text \<open>On the example chain: five calls after the first registration, all of them successful.\<close>

lemma demo_burn_node [demo_eval]: "registry_name_to_node demo [97] = Inr 116"
  by (simp add: registry_name_to_node_def parse_name_plain dot_byte_def label_new_eq)
    (use demo_nodes(1) in \<open>simp add: encode_with_node_def encode_child_def name_node_def\<close>)

lemmas demo_gift [demo_eval] = offer_bought_name_def offered_name_def registry_burn_def do_burn_def
  register_def accept_offered_name_def nft_burn_def clear_registrar_info_def origin_remove_def
  held_remove_def cleaner_all_def clear_all_records_def ensure_parent_live_def

lemma demo_gift_run:
  "\<exists>s1 s2 s3. buy_name demo (Origin_Signed 5) [97] (Some 4) demo_listed = Inr s1
    \<and> registry_burn demo (Origin_Signed 4) [97] s1 = Inr s2
    \<and> register demo (Origin_Signed 6) [97] 6 None s2 = Inr s3
    \<and> \<not> has_valid_canonical_name demo 4 s3 \<and> \<not> has_active_subname 4 s3"
  by (simp add: demo_eval demo_listed_def demo_alice_def has_valid_canonical_name_def)

theorem gift_outlives_name_witness:
  "\<exists>s. run_calls demo [(Origin_Signed 2, Call_register [97] 2 None), (Origin_Signed 2, Call_create_listing 50 1000),
      (Origin_Signed 5, Call_buy_name [97] (Some 4)), (Origin_Signed 4, Call_burn [97]),
      (Origin_Signed 6, Call_register [97] 6 None), (Origin_Signed 4, Call_accept_offered_name [97])] demo_base
    = Inr s \<and> owner_of 116 s = Some 6 \<and> primary_name 4 s = Some 116
    \<and> get_record (rt_resolvers s) 116 RT_SS58 = h256_encode 4"
proof -
  obtain s1 s2 s3 where r: "buy_name demo (Origin_Signed 5) [97] (Some 4) demo_listed = Inr s1"
    "registry_burn demo (Origin_Signed 4) [97] s1 = Inr s2" "register demo (Origin_Signed 6) [97] 6 None s2 = Inr s3"
    "\<not> has_valid_canonical_name demo 4 s3" "\<not> has_active_subname 4 s3"
    using demo_gift_run by blast
  have d: "cfg_lookup demo 6 = Inr 6" "0 < cfg_max_registration_duration demo" "32 \<le> cfg_max_content_len demo"
    "116 = name_node demo [97] (cfg_base_node demo)" by simp_all
  show ?thesis
    using gift_outlives_name [OF demo_listed_inv d(4) r(1-3) d(1) r(4,5) d(2,3)] demo_register demo_create_listing r
    by auto
qed


section \<open>Burning without releasing\<close>

text \<open>
  C20: Burning a name does not end its holder's control over delegations.  A holder who burns
  the canonical name keeps it as canonical name, so when somebody else registers the name the
  former holder can offer and revoke subnames under it exactly as its new owner can.
\<close>
theorem burner_keeps_delegating:
  assumes inv: "pns_inv c s" and n: "n = name_node c name (cfg_base_node c)" "label_bytes name"
    and burn: "primary_name a s = Some n" "registry_burn c (Origin_Signed a) name s = Inr s1"
    and reg: "register c (Origin_Signed x) name src None s1 = Inr s2" "cfg_lookup c src = Inr w"
  shows "owner_of n s2 = Some w \<and> primary_name a s2 = Some n
    \<and> offer_subdomain c (Origin_Signed a) lbl target s2 = offer_subdomain c (Origin_Signed w) lbl target s2
    \<and> revoke_subdomain c (Origin_Signed a) lbl s2 = revoke_subdomain c (Origin_Signed w) lbl s2"
proof -
  have b: "do_burn a n s = Inr s1" using burn(2) unfolding burn_label_iff [OF n(2)] n(1) .
  note t = pns_inv_parts(1) [OF inv]
  have inv1: "pns_inv c s1" by (rule pns_inv_do_burn [OF inv b])
  have free: "owner_of n s1 = None" using do_burn_effect(3) [OF t b, of n] by simp
  have "primary_name a s1 = Some n"
    using do_burn_frame(1) [OF t b] burn(1) by (simp add: primary_name_def clear_registrar_info_def registrar_writes)
  then have p: "primary_name k s2 = Some n" if "k \<in> {a, w}" for k
    using that register_primary_names [OF inv1 reg free [unfolded n(1)], of k] by (auto simp: n(1))
  have "owner_of n s2 = Some w"
    by (rule register_effect [OF inv1 reg(1)]) (use reg(2) n(1) in auto)
  with p show ?thesis by (simp add: offer_subdomain_def revoke_subdomain_def ensure_signed_def)
qed

lemma demo_burner_run:
  "\<exists>s1 s2 s3. registry_burn demo (Origin_Signed 2) [97] demo_alice = Inr s1
    \<and> register demo (Origin_Signed 6) [97] 6 None s1 = Inr s2
    \<and> offer_subdomain demo (Origin_Signed 6) [98] 3 s2 = Inr s3"
  by (simp add: demo_eval demo_alice_def offer_subdomain_def offer_subname_def)

theorem burner_keeps_delegating_witness:
  "\<exists>s1 s2 s3. registry_burn demo (Origin_Signed 2) [97] demo_alice = Inr s1
    \<and> register demo (Origin_Signed 6) [97] 6 None s1 = Inr s2 \<and> owner_of 116 s2 = Some 6
    \<and> offer_subdomain demo (Origin_Signed 2) [98] 3 s2 = Inr s3"
proof -
  obtain s1 s2 s3 where r: "registry_burn demo (Origin_Signed 2) [97] demo_alice = Inr s1"
    "register demo (Origin_Signed 6) [97] 6 None s1 = Inr s2"
    "offer_subdomain demo (Origin_Signed 6) [98] 3 s2 = Inr s3"
    using demo_burner_run by blast
  have p: "primary_name 2 demo_alice = Some 116" by (simp add: demo_alice_def primary_name_def)
  from burner_keeps_delegating [OF demo_alice_inv _ _ p r(1,2), of 6 "[98]" 3] r show ?thesis by auto
qed

end
