(* ===== verification/Name_Service.thy ===== *)
theory Name_Service
  imports Call_Sequences
begin

text \<open>
  What the pallets promise, as a machine on two tables: who holds which name until when, and
  which names are for sale by whom.  The machine has no tokens, indexes, counters, records or
  delegations.  Every call of the runtime does on these tables what at most two of its steps do.
\<close>

section \<open>The specification\<close>

record name_service =
  ns_names :: "domain_hash \<rightharpoonup> account_id \<times> u64"
  ns_sales :: "domain_hash \<rightharpoonup> listing"

text \<open>
  The steps, for a grace period, a duration, the time and the origin of the call.  A name is
  claimed only when it is free or past its grace period; it is extended within its grace period;
  it leaves its holder otherwise only by the holder's own call, or by a purchase from the holder's
  running offer.
\<close>

inductive service_step :: "u64 \<Rightarrow> u64 \<Rightarrow> u64 \<Rightarrow> origin \<Rightarrow> name_service \<Rightarrow> name_service \<Rightarrow> bool"
  for grace :: u64 and dur :: u64 and now :: u64 and org :: origin where
  claim: "(case ns_names st n of None \<Rightarrow> True | Some (_, e) \<Rightarrow> e + grace < now) \<Longrightarrow> checked_add now dur = Some e' \<Longrightarrow>
    service_step grace dur now org st (st\<lparr>ns_names := (ns_names st)(n \<mapsto> (b, e'))\<rparr>)"
| extend: "ns_names st n = Some (b, e) \<Longrightarrow> now \<le> e + grace \<Longrightarrow> checked_add now dur = Some e' \<Longrightarrow>
    service_step grace dur now org st (st\<lparr>ns_names := (ns_names st)(n \<mapsto> (b, e'))\<rparr>)"
| hand_over: "ns_names st n = Some (a, e) \<Longrightarrow> now < e + grace \<Longrightarrow> org = Origin_Signed a \<Longrightarrow>
    service_step grace dur now org st (st\<lparr>ns_names := (ns_names st)(n \<mapsto> (b, e))\<rparr>)"
| give_up: "ns_names st n = Some (a, e) \<Longrightarrow> org = Origin_Signed a \<Longrightarrow>
    service_step grace dur now org st (st\<lparr>ns_names := (ns_names st)(n := None)\<rparr>)"
| offer: "org = Origin_Signed a \<Longrightarrow> ns_sales st n = None \<Longrightarrow> now < t \<Longrightarrow>
    service_step grace dur now org st
      (st\<lparr>ns_sales := (ns_sales st)(n \<mapsto> \<lparr>ls_seller = a, ls_price = p, ls_expires_at = t\<rparr>)\<rparr>)"
| withdraw: "ns_sales st n \<noteq> None \<Longrightarrow>
    service_step grace dur now org st (st\<lparr>ns_sales := (ns_sales st)(n := None)\<rparr>)"
| sell: "ns_sales st n = Some l \<Longrightarrow> now < ls_expires_at l \<Longrightarrow> org = Origin_Signed x \<Longrightarrow> x \<noteq> ls_seller l \<Longrightarrow>
    ns_names st n = Some (ls_seller l, e) \<Longrightarrow> now < e + grace \<Longrightarrow>
    service_step grace dur now org st
      \<lparr>ns_names = (ns_names st)(n \<mapsto> (b, e)), ns_sales = (ns_sales st)(n := None)\<rparr>"

section \<open>The tables of a state\<close>

definition service_of :: "'b runtime \<Rightarrow> name_service" where
  "service_of s =
     \<lparr>ns_names = (\<lambda>n. case (owner_of n s, get_info n s) of
          (Some a, Some info) \<Rightarrow> Some (a, ri_expire info) | _ \<Rightarrow> None),
      ns_sales = listings (rt_market s)\<rparr>"

lemma service_of_sel:
  "ns_names (service_of s) n = (case (owner_of n s, get_info n s) of
     (Some a, Some info) \<Rightarrow> Some (a, ri_expire info) | _ \<Rightarrow> None)"
  "ns_sales (service_of s) = listings (rt_market s)"
  by (simp_all add: service_of_def)

lemma service_of_cong:
  assumes "\<And>n. owner_of n s' = owner_of n s" "\<And>n. get_info n s' = get_info n s" "rt_market s' = rt_market s"
  shows "service_of s' = service_of s"
  using assms by (simp add: service_of_def)

lemma service_of_upd:
  assumes "\<And>m. m \<noteq> n \<Longrightarrow> owner_of m s' = owner_of m s" "\<And>m. m \<noteq> n \<Longrightarrow> get_info m s' = get_info m s"
    "rt_market s' = rt_market s" "ns_names (service_of s') n = v"
  shows "service_of s' = (service_of s)\<lparr>ns_names := (ns_names (service_of s))(n := v)\<rparr>"
  using assms by (auto simp: service_of_def fun_eq_iff cong: option.case_cong)

section \<open>The calls that leave the tables alone\<close>

named_theorems tables_frame \<open>calls under which the registrations and the listings stay\<close>

lemma drop_delegation_tables [simp]:
  "rt_registrar (drop_delegation k rec s) = rt_registrar s" "rt_market (drop_delegation k rec s) = rt_market s"
  by (cases "sr_state rec"; simp add: drop_delegation_def registry_writes)+

lemma tables_delegation [tables_frame]:
  "offer_subname parent k lbl target capacity s = Inr s' \<Longrightarrow> rt_registrar s' = rt_registrar s \<and> rt_market s' = rt_market s"
  "accept_subname_offer c k acceptor s = Inr (parent, s') \<Longrightarrow> rt_registrar s' = rt_registrar s \<and> rt_market s' = rt_market s"
  "reject_subname_offer k caller s = Inr s' \<Longrightarrow> rt_registrar s' = rt_registrar s \<and> rt_market s' = rt_market s"
  "revoke_subname parent k s = Inr s' \<Longrightarrow> rt_registrar s' = rt_registrar s \<and> rt_market s' = rt_market s"
  "release_subname k caller s = Inr (parent, s') \<Longrightarrow> rt_registrar s' = rt_registrar s \<and> rt_market s' = rt_market s"
  by (auto simp: offer_subname_iff accept_subname_offer_iff reject_subname_offer_iff revoke_subname_iff
      release_subname_iff sub_children_iff registry_writes put_children_def)

lemma tables_subdomain_calls [tables_frame]:
  "offer_subdomain c org lbl target s = Inr s' \<Longrightarrow> rt_registrar s' = rt_registrar s \<and> rt_market s' = rt_market s"
  "accept_subdomain c org parent lbl s = Inr s' \<Longrightarrow> rt_registrar s' = rt_registrar s \<and> rt_market s' = rt_market s"
  "reject_subdomain c org parent lbl s = Inr s' \<Longrightarrow> rt_registrar s' = rt_registrar s \<and> rt_market s' = rt_market s"
  "revoke_subdomain c org lbl s = Inr s' \<Longrightarrow> rt_registrar s' = rt_registrar s \<and> rt_market s' = rt_market s"
  "release_subdomain c org parent lbl s = Inr s' \<Longrightarrow> rt_registrar s' = rt_registrar s \<and> rt_market s' = rt_market s"
  by (auto simp: offer_subdomain_iff accept_subdomain_def reject_subdomain_def revoke_subdomain_def
      release_subdomain_def result_simps update_ss58_iff dest: tables_delegation)

lemma tables_other_calls:
  "set_exchange_rate c org rate s = Inr s' \<Longrightarrow> get_info n s' = get_info n s \<and> rt_market s' = rt_market s"
  "set_base_price c org prices s = Inr s' \<Longrightarrow> get_info n s' = get_info n s \<and> rt_market s' = rt_market s"
  "set_rent_price c org prices s = Inr s' \<Longrightarrow> get_info n s' = get_info n s \<and> rt_market s' = rt_market s"
  "add_reserved c org name s = Inr s' \<Longrightarrow> get_info n s' = get_info n s \<and> rt_market s' = rt_market s"
  "remove_reserved c org name s = Inr s' \<Longrightarrow> get_info n s' = get_info n s \<and> rt_market s' = rt_market s"
  "set_record c u org name rt content s = Inr s' \<Longrightarrow> get_info n s' = get_info n s \<and> rt_market s' = rt_market s"
  "set_text c u org name kind content s = Inr s' \<Longrightarrow> get_info n s' = get_info n s \<and> rt_market s' = rt_market s"
  "accept_offered_name c org name s = Inr s' \<Longrightarrow> get_info n s' = get_info n s \<and> rt_market s' = rt_market s"
  by (auto simp: set_exchange_rate_def set_base_price_def set_rent_price_def add_reserved_def remove_reserved_def
      set_record_def set_text_def accept_offered_name_def Let_def drop_stale_primary_iff get_info_def
      result_simps update_ss58_iff record_origin_iff registrar_writes upd_registrar_def)

lemma tables_drop_stale:
  "drop_stale_primary c who s = Inr s1 \<Longrightarrow> service_of s1 = service_of s"
  by (rule service_of_cong) (auto simp: drop_stale_primary_iff owner_of_drop_stale)

section \<open>The calls that move names\<close>

lemma registered_has_info:
  assumes "pns_inv c s" "owner_of n s = Some a" "n \<noteq> cfg_base_node c"
  obtains info where "get_info n s = Some info" "ns_names (service_of s) n = Some (a, ri_expire info)"
  using assms pns_inv_parts(3) [OF assms(1)] by (auto simp: infos_ok_def service_of_sel)

lemma burn_gives_up:
  assumes "pns_inv c s" "do_burn a n s = Inr s'"
  shows "service_step g d now (Origin_Signed a) (service_of s) (service_of s')"
proof -
  note t = pns_inv_parts(1) [OF assms(1)]
  note e = do_burn_effect(1-3) [OF t assms(2)] and f = do_burn_frame [OF t assms(2)]
  obtain info where "get_info n s = Some info" and i: "ns_names (service_of s) n = Some (a, ri_expire info)"
    by (rule registered_has_info [OF assms(1) e(1,2)])
  have g: "get_info m s' = (if m = n then None else get_info m s)" for m
    using get_info_clear [of m n s] f(1) by (simp add: get_info_def)
  have "service_of s' = (service_of s)\<lparr>ns_names := (ns_names (service_of s))(n := None)\<rparr>"
    by (rule service_of_upd) (simp_all add: e(3) f(2) g service_of_sel)
  then show ?thesis using i by (simp add: service_step.give_up)
qed

lemma do_transfer_tables:
  assumes "pns_inv c s" "do_transfer c a b n s = Inr s'"
  obtains e where "ns_names (service_of s) n = Some (a, e)" "rt_now s < e + cfg_grace_period c"
    "service_of s' = (service_of s)\<lparr>ns_names := (ns_names (service_of s))(n \<mapsto> (b, e))\<rparr>"
proof -
  note t = pns_inv_parts(1) [OF assms(1)]
  note e = do_transfer_effect(1-4) [OF t assms(2)] and f = do_transfer_frame [OF t assms(2)]
  obtain info where i: "get_info n s = Some info" "ns_names (service_of s) n = Some (a, ri_expire info)"
    by (rule registered_has_info [OF assms(1) e(1,2)])
  have g: "get_info m s' = get_info m s" for m by (simp add: get_info_def f(1))
  have "service_of s' = (service_of s)\<lparr>ns_names := (ns_names (service_of s))(n \<mapsto> (b, ri_expire info))\<rparr>"
    by (rule service_of_upd) (simp_all add: e(4) f(2) g i(1) service_of_sel)
  moreover have "rt_now s < ri_expire info + cfg_grace_period c"
    using e(3) i(1) by (auto simp: is_ok_iff result_simps)
  ultimately show thesis using that i(2) by blast
qed

lemma register_claims:
  assumes "pns_inv c s" "register c org name src None s = Inr s'"
  shows "service_step (cfg_grace_period c) (cfg_max_registration_duration c) (rt_now s) org (service_of s) (service_of s')"
proof (rule register_effect [OF assms])
  let ?n = "name_node c name (cfg_base_node c)"
  fix caller owner fee expire
  assume e: "checked_add (rt_now s) (cfg_max_registration_duration c) = Some expire"
    and free: "owner_of ?n s = None \<or> is_ok (check_expires_registrable c ?n s)"
    and own: "\<And>m. owner_of m s' = (if m = ?n then Some owner else owner_of m s)"
    and info: "get_info ?n s' = Some (registered_info c (length name) expire fee (rt_block_number s) (get_info ?n s))"
      "\<And>m. m \<noteq> ?n \<Longrightarrow> get_info m s' = get_info m s"
  have "service_of s' = (service_of s)\<lparr>ns_names := (ns_names (service_of s))(?n \<mapsto> (owner, expire))\<rparr>"
    by (rule service_of_upd)
      (simp_all add: own info service_of_sel registered_info_sel register_frame [OF assms])
  moreover have "case ns_names (service_of s) ?n of None \<Rightarrow> True | Some (_, t) \<Rightarrow> t + cfg_grace_period c < rt_now s"
    using free by (auto simp: service_of_sel is_ok_iff result_simps split: option.splits)
  ultimately show ?thesis using e by (simp add: service_step.claim)
qed

lemma register_after_rejection:
  assumes "register c org name src rej s = Inr s'"
  obtains caller s0 where "org = Origin_Signed caller" "reject_pending c caller rej s = Inr s0"
    "register c org name src None s0 = Inr s'"
  using assms unfolding register_def by (auto simp: result_simps reject_pending_def [of _ _ None])

lemma rejection_tables:
  assumes "pns_inv c s" "reject_pending c a rej s = Inr s'"
  shows "rt_now s' = rt_now s \<and> (service_step g d now (Origin_Signed a))\<^sup>*\<^sup>* (service_of s) (service_of s')"
  using assms(2)
proof (cases rule: reject_pending_cases)
  case (gift n s1)
  have "service_of (offered_remove n s) = service_of s" "service_of s' = service_of s1"
    by (rule service_of_cong; simp add: gift(2))+
  then show ?thesis
    using burn_gives_up [OF pns_inv_writes(4) [OF assms(1)] gift(1)]
      do_burn_frame(5) [OF tree_ok_offered_remove [OF assms(1)] gift(1)] by (auto simp: gift(2))
next
  case (subname n rec s1)
  have "service_of s' = service_of s"
    by (rule service_of_cong)
      (use subname tables_delegation(4) [OF subname(2)] owner_of_delegation(4) [OF subname(2)] in \<open>auto simp: get_info_def\<close>)
  then show ?thesis using subname(3) revoke_subname_keeps(1) [OF subname(2)] by simp
qed simp

lemma register_tables:
  assumes "pns_inv c s" "register c org name src rej s = Inr s'"
  shows "(service_step (cfg_grace_period c) (cfg_max_registration_duration c) (rt_now s) org)\<^sup>*\<^sup>* (service_of s) (service_of s')"
  using assms(2)
proof (rule register_after_rejection)
  fix a s0
  assume org: "org = Origin_Signed a" and r: "reject_pending c a rej s = Inr s0"
    and reg: "register c org name src None s0 = Inr s'"
  note t = rejection_tables [OF assms(1) r]
  show ?thesis
    using register_claims [OF pns_inv_reject_pending [OF assms(1) r] reg] t org
    by (metis rtranclp.rtrancl_into_rtrancl)
qed

lemma renew_extends:
  assumes "pns_inv c s" "renew c org s = Inr s'"
  shows "service_step (cfg_grace_period c) (cfg_max_registration_duration c) (rt_now s) org (service_of s) (service_of s')"
proof -
  obtain n info b expire e where r: "get_info n s = Some info" "rt_now s \<le> ri_expire info + cfg_grace_period c"
    "checked_add (rt_now s) (cfg_max_registration_duration c) = Some expire"
    "s' = deposit_event e (info_insert n (info\<lparr>ri_expire := expire\<rparr>) (s\<lparr>rt_balances := b\<rparr>))"
    using assms(2) by (auto simp: renew_iff)
  obtain a where a: "owner_of n s = Some a" using pns_inv_parts(3) [OF assms(1)] r(1) by (auto simp: infos_ok_def)
  have own: "owner_of m s' = owner_of m s" for m by (rule owner_of_other_calls(6) [OF assms(2)])
  have "service_of s' = (service_of s)\<lparr>ns_names := (ns_names (service_of s))(n \<mapsto> (a, expire))\<rparr>"
    by (rule service_of_upd) (simp_all add: own a service_of_sel, simp_all add: r(4))
  then show ?thesis using service_step.extend [of "service_of s" n a] r(1-3) a by (simp add: service_of_sel)
qed

lemma transfer_hands_over:
  assumes "pns_inv c s" "transfer c org src s = Inr s'"
  shows "service_step (cfg_grace_period c) d (rt_now s) org (service_of s) (service_of s')"
  using assms(2)
proof (rule transfer_cases)
  fix who receiver n s1 s2
  assume org: "org = Origin_Signed who" and d: "drop_stale_primary c receiver s = Inr s1"
    and t: "do_transfer c who receiver n s1 = Inr s2"
    and s': "s' = primary_insert receiver n (primary_remove who s2)"
  have "service_of s' = service_of s2" by (rule service_of_cong) (simp_all add: s')
  moreover have "rt_now s1 = rt_now s" using d by (auto simp: drop_stale_primary_iff)
  ultimately show ?thesis
    using do_transfer_tables [OF pns_inv_drop_stale [OF assms(1) d] t] tables_drop_stale [OF d] org
    by (metis service_step.hand_over)
qed

section \<open>The marketplace\<close>

lemma deliver_tables:
  assumes "pns_inv c s" "deliver c n buyer ls recipient s = Inr s'"
  obtains b e where "ns_names (service_of s) n = Some (ls_seller ls, e)" "rt_now s < e + cfg_grace_period c"
    "service_of s' = (service_of s)\<lparr>ns_names := (ns_names (service_of s))(n \<mapsto> (b, e))\<rparr>"
proof -
  have "\<exists>s1 s2 b. pns_inv c s1 \<and> service_of s1 = service_of s \<and> rt_now s1 = rt_now s
      \<and> do_transfer c (ls_seller ls) b n s1 = Inr s2 \<and> service_of s' = service_of s2"
  proof (cases recipient)
    case None
    with assms(2) have "deliver c n buyer ls None s = Inr s'" by simp
    then obtain s1 s2 s3 s4 e where d: "drop_stale_primary c buyer s = Inr s1"
      and t: "do_transfer c (ls_seller ls) buyer n s1 = Inr s2"
      and w: "update_ss58 c n buyer (cleaner_except_ss58 n (primary_insert buyer n
          (if primary_name (ls_seller ls) s2 = Some n then primary_remove (ls_seller ls) s2 else s2))) = Inr s3"
        "record_origin c n (rt_parent_hash s3) s3 = Inr s4" "s' = deposit_event e s4"
      unfolding deliver_None_iff transfer_name_iff by blast
    have "service_of s' = service_of s2"
      by (rule service_of_cong)
        (use w in \<open>auto simp: update_ss58_iff record_origin_iff cleaner_except_ss58_def owner_of_def name_token_def
           get_info_def registrar_writes\<close>)
    moreover have "rt_now s1 = rt_now s" using d by (auto simp: drop_stale_primary_iff)
    ultimately show ?thesis using t tables_drop_stale [OF d] pns_inv_drop_stale [OF assms(1) d] by blast
  next
    case (Some recip)
    with assms(2) have "deliver c n buyer ls (Some recip) s = Inr s'" by simp
    then obtain s2 e e' where t: "do_transfer c (ls_seller ls) recip n s = Inr s2"
      and s': "s' = deposit_event e (deposit_event e' (offered_insert n \<lparr>on_buyer = buyer, on_recipient = recip\<rparr>
        (if primary_name (ls_seller ls) s2 = Some n then primary_remove (ls_seller ls) s2 else s2)))"
      unfolding deliver_Some_iff offer_bought_name_iff by blast
    have "service_of s' = service_of s2" by (rule service_of_cong) (simp_all add: s')
    with t assms(1) show ?thesis by blast
  qed
  then show thesis using that by (metis do_transfer_tables)
qed

lemma buy_name_sells:
  assumes "pns_inv c s" "buy_name c org name recipient s = Inr s'"
  shows "service_step (cfg_grace_period c) d (rt_now s) org (service_of s) (service_of s')"
proof -
  obtain buyer where org: "org = Origin_Signed buyer" using assms(2) by (rule buy_name_cases)
  let ?n = "name_node c name (cfg_base_node c)"
  have b: "buy_name c (Origin_Signed buyer) name recipient s = Inr s'" using assms(2) org by simp
  show ?thesis
  proof (rule buy_name_effect [OF assms(1) b refl])
    fix ls bal s1
    assume l: "listings (rt_market s) ?n = Some ls" "buyer \<noteq> ls_seller ls" "rt_now s < ls_expires_at ls"
      and s1: "s1 = put_listings (\<lambda>l. l(?n := None)) (s\<lparr>rt_balances := rt_balances s'\<rparr>)"
      and inv: "pns_inv c s1" and del: "deliver c ?n buyer ls recipient s1 = Inr s'"
    have t1: "service_of s1 = (service_of s)\<lparr>ns_sales := (ns_sales (service_of s))(?n := None)\<rparr>" "rt_now s1 = rt_now s"
      by (simp_all add: s1 put_listings_def service_of_def owner_of_def name_token_def get_info_def)
    obtain b e where "ns_names (service_of s1) ?n = Some (ls_seller ls, e)" "rt_now s1 < e + cfg_grace_period c"
      "service_of s' = (service_of s1)\<lparr>ns_names := (ns_names (service_of s1))(?n \<mapsto> (b, e))\<rparr>"
      by (rule deliver_tables [OF inv del])
    then have "service_of s' = \<lparr>ns_names = (ns_names (service_of s))(?n \<mapsto> (b, e)),
        ns_sales = (ns_sales (service_of s))(?n := None)\<rparr>"
      "ns_names (service_of s) ?n = Some (ls_seller ls, e)" "rt_now s < e + cfg_grace_period c"
      by (simp_all add: t1)
    moreover have "ns_sales (service_of s) ?n = Some ls" using l(1) by (simp add: service_of_sel)
    ultimately show ?thesis using l(2,3) org by (metis service_step.sell)
  qed
qed

lemma listing_calls_tables:
  "create_listing org price t s = Inr s' \<Longrightarrow> service_step g d (rt_now s) org (service_of s) (service_of s')"
  "cancel_listing org s = Inr s' \<Longrightarrow> service_step g d (rt_now s) org (service_of s) (service_of s')"
proof -
  have upd: "service_of (deposit_event e (put_listings f s)) = (service_of s)\<lparr>ns_sales := f (ns_sales (service_of s))\<rparr>" for e f
    by (simp add: put_listings_def service_of_def owner_of_def name_token_def get_info_def)
  show "service_step g d (rt_now s) org (service_of s) (service_of s')" if "create_listing org price t s = Inr s'"
    using that by (auto simp: create_listing_def result_simps upd) (rule service_step.offer; simp add: service_of_sel)
  show "service_step g d (rt_now s) org (service_of s) (service_of s')" if "cancel_listing org s = Inr s'"
    using that by (auto simp: cancel_listing_def result_simps upd) (rule service_step.withdraw; simp add: service_of_sel)
qed

section \<open>Refinement\<close>

lemma set_official_tables:
  assumes "pns_inv c s" "set_official c org new s = Inr s'"
  shows "service_of s' = service_of s"
proof -
  have i: "get_info n s' = get_info n s" "rt_market s' = rt_market s" for n
    using assms(2) by (auto simp: set_official_iff [OF pns_inv_parts(5) [OF assms(1)]] get_info_def upd_nft_def upd_registry_def)
  have "get_info (cfg_base_node c) s = None" using pns_inv_parts(3) [OF assms(1)] by (auto simp: infos_ok_def)
  then have "ns_names (service_of s') n = ns_names (service_of s) n" for n
    using loss_set_official [OF assms, of n] by (cases "n = cfg_base_node c") (auto simp: service_of_sel i split: option.splits)
  then show ?thesis by (auto simp: service_of_def i)
qed

lemma frame_tables:
  assumes "rt_registrar s' = rt_registrar s \<and> rt_market s' = rt_market s" "\<And>n. owner_of n s' = owner_of n s"
  shows "service_of s' = service_of s"
  by (rule service_of_cong) (use assms in \<open>simp_all add: get_info_def\<close>)

lemma other_call_tables:
  assumes "\<And>n. get_info n s' = get_info n s \<and> rt_market s' = rt_market s" "\<And>n. owner_of n s' = owner_of n s"
  shows "service_of s' = service_of s"
  by (rule service_of_cong) (use assms in simp_all)

text \<open>
  C2: The runtime implements the specification.  On the tables of holders and sales every call,
  successful or not, does what a sequence of steps of the specification does that the origin of
  the call may take at the time.
\<close>
theorem runtime_refines_service:
  assumes "pns_inv c s"
  shows "(service_step (cfg_grace_period c) (cfg_max_registration_duration c) (rt_now s) org)\<^sup>*\<^sup>*
    (service_of s) (service_of (execute c org call s))"
proof (cases "dispatch c org call s")
  case (Inl e)
  then show ?thesis by (simp add: execute_def)
next
  case (Inr s')
  let ?R = "service_step (cfg_grace_period c) (cfg_max_registration_duration c) (rt_now s) org"
  have step: "?R\<^sup>*\<^sup>* (service_of s) (service_of s')" if "?R (service_of s) (service_of s')" using that by blast
  have stay: "?R\<^sup>*\<^sup>* (service_of s) (service_of s')" if "service_of s' = service_of s" using that by simp
  have burn: "?R (service_of s) (service_of s')" if "org = Origin_Signed a" "do_burn a k t = Inr s'" "pns_inv c t"
    "service_of t = service_of s" for a k t
    using burn_gives_up [OF that(3,2)] that(1,4) by simp
  have "?R\<^sup>*\<^sup>* (service_of s) (service_of s')"
  proof (cases call)
    case (Call_burn name)
    with Inr obtain a k where "org = Origin_Signed a" "do_burn a k s = Inr s'" by (auto simp: registry_burn_def result_simps)
    then show ?thesis using burn assms by (intro step) blast
  next
    case Call_release_name
    with Inr obtain a k where "org = Origin_Signed a" "do_burn a k (primary_remove a s) = Inr s'"
      by (auto simp: release_name_iff)
    moreover have "service_of (primary_remove a s) = service_of s" by (rule service_of_cong) simp_all
    ultimately show ?thesis using burn pns_inv_writes(2) [OF assms] by (intro step) blast
  qed (use Inr in \<open>auto intro: step stay register_tables [OF assms] renew_extends [OF assms] transfer_hands_over [OF assms]
      buy_name_sells [OF assms] listing_calls_tables set_official_tables [OF assms]
      frame_tables [OF tables_subdomain_calls(1) owner_of_subdomain_calls(1)]
      frame_tables [OF tables_subdomain_calls(2) owner_of_subdomain_calls(2)]
      frame_tables [OF tables_subdomain_calls(3) owner_of_subdomain_calls(3)]
      frame_tables [OF tables_subdomain_calls(4) owner_of_subdomain_calls(4)]
      frame_tables [OF tables_subdomain_calls(5) owner_of_subdomain_calls(5)]
      other_call_tables [OF tables_other_calls(1) owner_of_other_calls(1)]
      other_call_tables [OF tables_other_calls(2) owner_of_other_calls(2)]
      other_call_tables [OF tables_other_calls(3) owner_of_other_calls(3)]
      other_call_tables [OF tables_other_calls(4) owner_of_other_calls(4)]
      other_call_tables [OF tables_other_calls(5) owner_of_other_calls(5)]
      other_call_tables [OF tables_other_calls(6) owner_of_other_calls(7)]
      other_call_tables [OF tables_other_calls(7) owner_of_other_calls(8)]
      other_call_tables [OF tables_other_calls(8) owner_of_other_calls(11)]\<close>)
  with Inr show ?thesis by (simp add: execute_def)
qed

theorem runtime_refines_service_witness:
  "(service_step (cfg_grace_period demo) (cfg_max_registration_duration demo) 0 (Origin_Signed 2))\<^sup>*\<^sup>*
     (service_of demo_alice) (service_of (execute demo (Origin_Signed 2) (Call_transfer 3) demo_alice))
   \<and> ns_names (service_of demo_alice) 116 = Some (2, 31536000000)
   \<and> ns_names (service_of (execute demo (Origin_Signed 2) (Call_transfer 3) demo_alice)) 116 = Some (3, 31536000000)"
proof -
  have "rt_now demo_alice = 0" by (simp add: demo_alice_def)
  moreover have "ns_names (service_of demo_alice) 116 = Some (2, 31536000000)"
    by (simp add: service_of_sel demo_eval demo_alice_def)
  moreover have "ns_names (service_of (execute demo (Origin_Signed 2) (Call_transfer 3) demo_alice)) 116 = Some (3, 31536000000)"
    by (simp add: service_of_sel execute_def transfer_def demo_eval demo_alice_def)
  ultimately show ?thesis
    using runtime_refines_service [OF demo_alice_inv, of "Origin_Signed 2" "Call_transfer 3"] by simp
qed

end
