(* ===== verification/Redeem_Lifecycle.thy ===== *)
theory Redeem_Lifecycle
  imports Name_Lifecycle
begin

text \<open>
  Redeem numbers and codes: which numbers the minting loops mark and when they end, what a
  signature binds, that a number works once, and what a name registered by a code lacks.
\<close>

section \<open>The minting loops\<close>

lemma unat_Suc_max: "w \<noteq> - 1 \<Longrightarrow> unat (w + 1 :: 'l::len word) = Suc (unat w)"
  by (rule unat_Suc_below [OF word_order.not_eq_extremum [THEN iffD1]])

text \<open>Both loops count up and mark what they pass; they differ in the test.\<close>

definition marked :: "u32 \<Rightarrow> u32 \<Rightarrow> redeem_map \<Rightarrow> redeem_map" where
  "marked start stop m = (\<lambda>x. if start \<le> x \<and> x < stop then Some () else m x)"

lemma marked_step:
  assumes "start < stop"
  shows "marked (start + 1) stop (m(start \<mapsto> ())) = marked start stop m"
proof -
  have next_nat: "unat (start + 1) = Suc (unat start)" using assms by (rule unat_Suc_below)
  have "marked (start + 1) stop (m(start \<mapsto> ())) x = marked start stop m x" for x
    using next_nat assms
    by (cases "x = start") (auto simp: marked_def word_le_nat_alt word_less_nat_alt word_unat_eq_iff Suc_le_eq le_less)
  then show ?thesis by blast
qed

lemma redeem_genesis_loop_eq:
  "redeem_genesis_loop start stop m = Some (max start stop, marked start stop m)"
proof (induction "unat stop - unat start" arbitrary: start m)
  case 0
  then have "\<not> start < stop" by (simp add: word_less_nat_alt)
  moreover from this have "marked start stop m = m" by (auto simp: marked_def fun_eq_iff)
  ultimately show ?case
    by (simp add: redeem_genesis_loop_def while_option_unfold [of _ _ "(start, m)"] max_def)
next
  case (Suc d)
  then have lt: "start < stop" by (simp add: word_less_nat_alt)
  have nx: "unat (start + 1) = Suc (unat start)" using lt by (rule unat_Suc_below)
  then have "max (start + 1) stop = max start stop"
    using lt by (simp add: max_def word_le_nat_alt word_less_nat_alt)
  moreover have "redeem_genesis_loop start stop m = redeem_genesis_loop (start + 1) stop (m(start \<mapsto> ()))"
    using lt by (simp add: redeem_genesis_loop_def while_option_unfold [of _ _ "(start, m)"])
  ultimately show ?case
    using Suc(1) [of "start + 1" "m(start \<mapsto> ())"] Suc(2) nx by (simp add: marked_step [OF lt])
qed

lemma mint_redeem_loop_eq:
  assumes "stop \<noteq> - 1"
  shows "mint_redeem_loop start stop m = redeem_genesis_loop start (stop + 1) m"
proof -
  have "unat (stop + 1) = Suc (unat stop)"
    using assms by (rule unat_Suc_max)
  then have "n \<le> stop \<longleftrightarrow> n < stop + 1" for n
    by (simp add: word_le_nat_alt word_less_nat_alt less_Suc_eq_le)
  then show ?thesis by (simp add: mint_redeem_loop_def redeem_genesis_loop_def)
qed

lemma mint_redeem_loop_diverges: "mint_redeem_loop start (- 1) m = None"
proof (rule ccontr)
  assume "mint_redeem_loop start (- 1) m \<noteq> None"
  then obtain t where "mint_redeem_loop start (- 1) m = Some t" by blast
  from while_option_stop [OF this [unfolded mint_redeem_loop_def]] show False
    by (simp add: split_beta)
qed

text \<open>
  C31: Minting redeem numbers marks exactly the numbers from the first to the last,
  both included, and returns, unless the last is the largest 32-bit number: then the loop never
  ends, because the counter wraps round below its bound.
\<close>
theorem mint_redeem_spec:
  assumes "cfg_manager_origin c s org = Inr who" "start < stop"
  shows "mint_redeem c org start stop s =
    (if stop = - 1 then None
     else Some (Inr (s\<lparr>rt_redeem := \<lparr>redeems =
       \<lambda>x. if start \<le> x \<and> x \<le> stop then Some () else redeems (rt_redeem s) x\<rparr>\<rparr>)))"
proof (cases "stop = - 1")
  case True
  then show ?thesis using assms by (simp add: mint_redeem_def mint_redeem_loop_diverges)
next
  case False
  then have "unat (stop + 1) = Suc (unat stop)"
    by (rule unat_Suc_max)
  then have "marked start (stop + 1) m = (\<lambda>x. if start \<le> x \<and> x \<le> stop then Some () else m x)" for m
    by (simp add: marked_def word_le_nat_alt word_less_nat_alt less_Suc_eq_le)
  then show ?thesis
    using assms False
    by (simp add: mint_redeem_def mint_redeem_loop_eq redeem_genesis_loop_eq)
qed

theorem mint_redeem_spec_witness:
  "mint_redeem demo Origin_Root 7 (- 1) demo_base = None
   \<and> (\<exists>s'. mint_redeem demo Origin_Root 7 9 demo_base = Some (Inr s') \<and> redeems (rt_redeem s') 9 = Some ())"
  using mint_redeem_spec [of demo demo_base Origin_Root 0 7 "- 1"] mint_redeem_spec [of demo demo_base Origin_Root 0 7 9]
  by (simp add: ensure_root_as_account_id_def ensure_root_def)

text \<open>
  The genesis builder's loop always ends, and marks the numbers from the first up to the
  last, the last excluded, which the call of the same purpose includes.
\<close>

lemma redeem_genesis_spec:
  "redeem_genesis_build (Some (start, stop)) =
     Some \<lparr>redeems = \<lambda>x. if start \<le> x \<and> x < stop then Some () else None\<rparr>"
  by (simp add: redeem_genesis_build_def redeem_genesis_loop_eq marked_def)

section \<open>Codes\<close>

lemma le_bytes_inject:
  assumes "LENGTH('l) \<le> 8 * n"
  shows "le_bytes n a = le_bytes n (b :: 'l::len word) \<longleftrightarrow> a = b"
proof
  assume eq: "le_bytes n a = le_bytes n b"
  show "a = b"
  proof (rule bit_word_eqI)
    fix k assume k: "k < LENGTH('l)"
    then have i: "k div 8 < n" using assms by linarith
    have bit: "bit (le_bytes n w ! (k div 8)) (k mod 8) = bit w k" for w :: "'l word"
      using i by (simp add: le_bytes_def bit_ucast_iff bit_drop_bit_eq)
    show "bit a k \<longleftrightarrow> bit b k" using bit [of a] bit [of b] eq by simp
  qed
qed simp

text \<open>
  A signature binds what it was given for: the data signed for a name, a duration and a
  number determine all three, the data signed for any name determine the duration and the
  number, and no code of one kind is a code of the other.
\<close>

lemma redeem_data_binding:
  "(redeem_data l d n = redeem_data l' d' n' \<longleftrightarrow> l = l' \<and> d = d' \<and> n = n')
   \<and> (redeem_any_data d n = redeem_any_data d' n' \<longleftrightarrow> d = d' \<and> n = n')
   \<and> redeem_data l d n \<noteq> redeem_any_data d' n'"
proof -
  have len: "length (le_bytes k w) = k" for k and w :: "'l::len word" by (simp add: le_bytes_def)
  have "redeem_data l d n \<noteq> redeem_any_data d' n'"
    by (rule notI, drule arg_cong [where f = length]) (simp add: redeem_data_def redeem_any_data_def len)
  then show ?thesis
    by (simp add: redeem_data_def redeem_any_data_def len le_bytes_inject)
qed

text \<open>
  A redeem number works once.  Whichever of the two calls used it, the number was
  unused before, and afterwards both calls refuse it, with any name, duration, code and owner.
\<close>
theorem redeem_single_use:
  assumes "name_redeem c verifies (Origin_Signed a) name duration nouce code owner s = Inr s'
    \<or> name_redeem_any c verifies (Origin_Signed a) name duration nouce code owner s = Inr s'"
  shows "redeems (rt_redeem s) nouce = Some ()
    \<and> name_redeem c verifies (Origin_Signed b) name' duration' nouce code' owner' s'
        = Inl (RedeemError Redeem_RedeemsHasBeenUsed)
    \<and> name_redeem_any c verifies (Origin_Signed b) name' duration' nouce code' owner' s'
        = Inl (RedeemError Redeem_RedeemsHasBeenUsed)"
proof -
  have "redeems (rt_redeem s) nouce \<noteq> None"
    using assms by (auto simp: name_redeem_def name_redeem_any_def result_simps)
  moreover have "redeems (rt_redeem s') nouce = None"
    using assms by (auto simp: name_redeem_def name_redeem_any_def result_simps Let_def redeem_remove_def split: prod.splits)
  ultimately show ?thesis
    by (simp add: name_redeem_def name_redeem_any_def ensure_signed_def)
qed


section \<open>What a redeemed name lacks\<close>

lemma name_redeem_runs:
  assumes "name_redeem c verifies (Origin_Signed a) name duration nouce code owner s = Inr s'"
    "n = name_node c name (cfg_base_node c)"
  obtains off expire s1 s2 where "official (rt_registry s) = Some off"
    "verifies code (redeem_data (cfg_keccak c (to_ascii_lowercase name)) duration nouce) off"
    "drop_stale_primary c owner s = Inr s1"
    "mint_subname c off [] (cfg_base_node c) n owner 0 (redeem_payments c name n expire) s1 = Inr s2"
    "rt_nft s' = rt_nft s2" "rt_balances s' = rt_balances s2" "primary_name owner s' = Some n"
    "\<And>rt. rt \<noteq> RT_ORIGIN \<Longrightarrow> get_record (rt_resolvers s') n rt = get_record (rt_resolvers s2) n rt"
  using assms(1)
  by (auto simp: name_redeem_def for_redeem_code_def result_simps Let_def label_new_with_len_eq
      get_official_account_def record_origin_iff redeem_remove_def registrar_writes primary_name_def assms(2)
      name_node_def encode_with_node_def split: if_splits intro!: that)


section \<open>The example's redeem code\<close>

definition demo_verifies :: "u8 list \<Rightarrow> u8 list \<Rightarrow> account_id \<Rightarrow> bool" where
  "demo_verifies code data signer \<longleftrightarrow> code = h256_encode signer @ data"

definition demo_minted :: "demo_balances runtime" where
  "demo_minted = demo_base\<lparr>rt_redeem := \<lparr>redeems = [7 \<mapsto> ()]\<rparr>\<rparr>"

lemma demo_redeem:
  "\<exists>s'. name_redeem demo demo_verifies (Origin_Signed 9) [97] 1000 7
     (h256_encode 1 @ redeem_data 98 1000 7) 2 demo_minted = Inr s'"
  by (simp add: name_redeem_def label_new_with_len_eq demo_eval to_ascii_lowercase_def ascii_lower_def
     sum_hash_def for_redeem_code_def demo_verifies_def encode_with_node_sum redeem_payments_def redeemed_info_def
     redeem_remove_def demo_minted_def demo_base_def)

lemma demo_minted_inv: "pns_inv demo demo_minted"
  unfolding demo_minted_def by (rule pns_inv_registrar_cong [OF demo_base_inv]) (simp_all add: get_info_def)


theorem redeem_single_use_witness:
  "\<exists>code s'. name_redeem demo demo_verifies (Origin_Signed 9) [97] 1000 7 code 2 demo_minted = Inr s'
     \<and> name_redeem demo demo_verifies (Origin_Signed 8) [98] 1000 7 code 3 s'
         = Inl (RedeemError Redeem_RedeemsHasBeenUsed)"
  using demo_redeem redeem_single_use by blast

end
