(* ===== verification/Pallet_Laws.thy ===== *)
theory Pallet_Laws
  imports Name_Lifecycle
begin

text \<open>
  Laws of single pallets: the accounts of the token pallet, the fee table, the managers, and
  the phases of a registration.
\<close>

section \<open>Tokens\<close>

text \<open>
  The token pallet's accounts balance after every history of its operations in which ids
  are minted fresh: an account is in the owner index of a token exactly when it owns the
  token, and the total issuance of a class is the number of its tokens.
\<close>
theorem nft_accounting:
  assumes "nft_reachable max_class max_token st"
  shows "(nft_is_owner a token st \<longleftrightarrow> nft_owner_of st token = Some a)
    \<and> (classes st c = Some info \<longrightarrow>
        finite (class_tokens st c) \<and> card (class_tokens st c) = unat (ci_total_issuance info))"
proof -
  have wf: "nft_wf st" by (rule nft_reachable_imp_wf [OF assms])
  then have "class_count_ok st c" by (simp add: nft_wf_def nft_count_ok_def)
  then show ?thesis
    using nft_store.holds_iff [OF wf] by (simp add: class_count_ok_def split: option.splits)
qed

theorem nft_accounting_witness:
  "\<exists>st. nft_reachable 0 0 st \<and> nft_is_owner 5 (0, 9) st \<and> card (class_tokens st 0) = 1"
proof -
  obtain st where c: "nft_create_class 0 4 [] nft_empty = Inr (0, st)"
    and st: "classes st 0 = Some \<lparr>ci_metadata = [], ci_total_issuance = 0, ci_owner = 4\<rparr>" "tokens st = Map.empty"
    by (simp add: nft_create_class_def nft_empty_def checked_add_def)
  obtain st' where m: "nft_mint 0 5 (0, 9) [] default_token_data st = Inr st'"
    and st': "tokens st' (0, 9) = Some \<lparr>ti_metadata = [], ti_owner = 5, ti_data = default_token_data\<rparr>"
      "classes st' 0 = Some \<lparr>ci_metadata = [], ci_total_issuance = 1, ci_owner = 4\<rparr>"
    by (simp add: nft_mint_def st checked_add_def)
  have r: "nft_reachable 0 0 st'"
    by (rule nft_reachable.nft_minted [OF nft_reachable.nft_create [OF nft_reachable.nft_start c] _ m]) (simp add: st)
  from nft_accounting [OF r, of 5 "(0, 9)" 0] r show ?thesis by (auto simp: st' nft_owner_of_def)
qed

text \<open>
  Exactly the owner of a token can transfer it, a transfer changes the owner of that
  token and of no other, and a transfer back restores every owner.
\<close>

lemma nft_transfer_owner:
  assumes "nft_wf st"
  shows "((\<exists>st'. nft_transfer a b token st = Inr st') \<longleftrightarrow> nft_is_owner a token st)
    \<and> (\<forall>st'. nft_transfer a b token st = Inr st' \<longrightarrow>
        nft_owner_of st' = (nft_owner_of st)(token \<mapsto> b) \<and> nft_wf st'
        \<and> (\<exists>st''. nft_transfer b a token st' = Inr st'' \<and> nft_owner_of st'' = nft_owner_of st))"
  using nft_store.only_owner_moves [OF assms] nft_store.move_owner nft_store.move_inv [OF assms]
    nft_store.move_there_and_back by blast

section \<open>Prices\<close>

text \<open>
  The fee of a name is the entry of the base price table for its length, the last
  entry for every longer name; only the empty name has none.  Registration and renewal of any
  duration cost the same.
\<close>
theorem fee_table:
  assumes "price_tables_ok st"
  shows "(registration_fee len st = None \<longleftrightarrow> len = 0)
    \<and> (0 < len \<longrightarrow> registration_fee len st = Some (base_price st ! (if len \<le> 11 then len - 1 else 10)))
    \<and> register_fee len d st = registration_fee len st \<and> renew_fee len d st = registration_fee len st"
  using assms by (auto simp: registration_fee_None_iff registration_fee_Some register_fee_def
      renew_fee_def min_def)

theorem fee_table_witness:
  "registration_fee 40 (oracle_genesis_build genesis_base_prices (replicate 11 0) 1) = Some 500000000000"
  using fee_table [of "oracle_genesis_build genesis_base_prices (replicate 11 0) 1" 40]
  by (simp add: price_tables_ok_def oracle_genesis_build_def genesis_base_prices_def UNIT_def)

text \<open>With the prices of the genesis a longer name never costs more than a shorter one.\<close>

lemma genesis_fees_antitone:
  assumes "0 < m" "m \<le> n" "st = oracle_genesis_build genesis_base_prices (replicate 11 0) 1"
  shows "\<exists>fm fn. registration_fee m st = Some fm \<and> registration_fee n st = Some fn \<and> fn \<le> fm"
proof -
  have ok: "price_tables_ok st" by (simp add: assms(3) price_tables_ok_def oracle_genesis_build_def genesis_base_prices_def)
  have "sorted_wrt (\<lambda>x y. y \<le> x) genesis_base_prices"
    by (simp add: genesis_base_prices_def UNIT_def)
  moreover have "min (n - 1) 10 < length genesis_base_prices" by (simp add: genesis_base_prices_def)
  moreover have "min (m - 1) 10 \<le> min (n - 1) 10" using assms(2) by simp
  ultimately have "genesis_base_prices ! min (n - 1) 10 \<le> genesis_base_prices ! min (m - 1) 10"
    by (metis order.refl le_less sorted_wrt_nth_less)
  then show ?thesis
    using assms ok by (simp add: registration_fee_Some) (simp add: oracle_genesis_build_def)
qed

section \<open>Managers\<close>

text \<open>
  Only a manager makes or removes a manager, apart from the root origin: a call that
  succeeds was signed by an account in the set, changes the membership of the named account only,
  and leaves the switch as it is.
\<close>

lemma managers_by_managers:
  assumes "set_origin c org src approved s = Inr s'"
  shows "\<exists>who a. org = Origin_Signed who \<and> origins (rt_origin s) who \<noteq> None \<and> cfg_lookup c src = Inr a
    \<and> origins (rt_origin s') = (origins (rt_origin s))(a := if approved then Some () else None)
    \<and> is_registrar_open (rt_origin s') = is_registrar_open (rt_origin s)"
  using assms by (auto simp: set_origin_def result_simps approve_origin_def)

section \<open>Phases of a registration\<close>

text \<open>
  A registered name goes through its phases in order.  While it is useable it is
  renewable, while it is renewable nobody else can register it, and once its grace period is over
  it is registrable; at the one instant at which the grace period ends it is neither renewable nor
  registrable, and the test used before an account is given a name still counts it as held.
\<close>
theorem expiry_phases_ordered:
  assumes "get_info n s = Some info" "unat (ri_expire info) + unat (cfg_grace_period c) < 2 ^ 64"
  shows "(is_ok (check_expires_useable n s) \<longrightarrow> is_ok (check_expires_renewable c n s))
    \<and> (is_ok (check_expires_renewable c n s) \<longrightarrow> \<not> is_ok (check_expires_registrable c n s))
    \<and> (\<not> is_ok (check_expires_renewable c n s) \<and> \<not> is_ok (check_expires_registrable c n s) \<longleftrightarrow>
         rt_now s = ri_expire info + cfg_grace_period c)
    \<and> (still_valid c n s \<longleftrightarrow> \<not> is_ok (check_expires_registrable c n s))"
proof -
  have "ri_expire info \<le> ri_expire info + cfg_grace_period c"
    using assms(2) by (simp add: word_le_nat_alt unat_word_ariths)
  then show ?thesis
    using expiry_phases(1,2) [OF assms(1), of c] expiry_phases(3) [OF assms(1)] assms(1) by (auto simp: still_valid_iff)
qed

theorem expiry_phases_ordered_witness:
  "is_ok (check_expires_useable 116 demo_alice) \<and> is_ok (check_expires_renewable demo 116 demo_alice)
   \<and> \<not> is_ok (check_expires_registrable demo 116 demo_alice)"
proof -
  have i: "get_info 116 demo_alice = Some demo_info"
    by (simp add: get_info_def im_get_def demo_alice_def demo_info_def)
  moreover have "is_ok (check_expires_useable 116 demo_alice)"
    by (simp add: expiry_phases(3) [OF i]) (simp add: demo_alice_def demo_info_def)
  ultimately show ?thesis
    using expiry_phases_ordered [OF i, of demo] by (simp add: demo_info_def)
qed

section \<open>The repository's label test\<close>

text \<open>
  The assertions of \<open>label_test\<close> in src/pallets/pns-registrar/src/tests.rs on ASCII input hold
  of the model.  The same rule rejects \<open>hello-world\<close>, which \<open>register_test\<close> in that file
  expects to register, and accepts \<open>hello\<close>, which it expects to be too short.
\<close>

lemma label_test:
  "list_all (\<lambda>name. label_new_with_len k (ascii_of name) = None)
     [''hello world'', ''hello.world'', ''-hello'', ''he-llo'', ''he--llo'', ''hello-'']"
  "list_all (\<lambda>name. label_new_with_len k (ascii_of name) \<noteq> None)
     [''hello'', ''111hello'', ''123455'', ''0x1241513'']"
  by (simp_all add: label_new_with_len_eq label_bytes_def ascii_of_def is_ascii_alphanumeric_def)

lemma register_test_names:
  "label_new_with_len k (ascii_of ''hello-world'') = None"
  "is_registrable (length (ascii_of ''hello''))"
  by (simp_all add: label_new_with_len_eq label_bytes_def ascii_of_def is_ascii_alphanumeric_def
      is_registrable_def MIN_REGISTRABLE_LEN_def)

end
