(* ===== verification/State_Queries.thy ===== *)
theory State_Queries
  imports Name_Lifecycle
begin

text \<open>
  What a reader of the chain gets: the records a lookup returns and a call may set, the
  queries by name and by node, and an account's dashboard.
\<close>

section \<open>Records\<close>

text \<open>
  C35: Setting a record needs the registry's permission and writes that one record of that one
  node; it can write neither trust anchor, on any name.
\<close>
theorem set_record_exact:
  assumes "set_record c useable (Origin_Signed a) name rt content s = Inr s'"
  shows "\<exists>n. resolvers_name_to_node c name = Inr n \<and> useable n a s
    \<and> (\<forall>m rt'. get_record (rt_resolvers s') m rt' =
         (if m = n \<and> rt' = rt then content else get_record (rt_resolvers s) m rt'))
    \<and> (\<forall>m. get_record (rt_resolvers s') m RT_SS58 = get_record (rt_resolvers s) m RT_SS58
         \<and> get_record (rt_resolvers s') m RT_ORIGIN = get_record (rt_resolvers s) m RT_ORIGIN)
    \<and> (\<forall>m k. get_text (rt_resolvers s') m k = get_text (rt_resolvers s) m k)"
  using assms by (auto simp: set_record_def result_simps Let_def)

theorem set_record_exact_witness:
  "\<exists>s'. set_record demo check_node_useable (Origin_Signed 2) [97] RT_TXT [1] demo_alice = Inr s'
     \<and> get_record (rt_resolvers s') 116 RT_SS58 = h256_encode 2"
proof -
  have n: "resolvers_name_to_node demo [97] = Inr 116"
    by (simp add: resolvers_name_to_node_def parse_name_plain dot_byte_def label_new_eq encode_with_node_sum label_of_def
        to_ascii_lowercase_def ascii_lower_def sum_hash_def)
  obtain s' where s': "set_record demo check_node_useable (Origin_Signed 2) [97] RT_TXT [1] demo_alice = Inr s'"
    using n by (simp add: set_record_def ensure_signed_def check_node_useable_def verify_def demo_eval demo_alice_def
        check_expires_useable_def)
  have "get_record (rt_resolvers demo_alice) 116 RT_SS58 = h256_encode 2"
    by (simp add: demo_alice_def get_record_def dm_get_def)
  with set_record_exact [OF s'] s' show ?thesis by auto
qed

section \<open>State queries\<close>

lemma resolve_name_eq:
  "api_resolve_name kusama hash name s =
     (if label_bytes name
      then api_get_info (encode_with_node hash (label_of hash name) (NATIVE_BASENODE kusama)) s else None)"
  by (simp add: api_resolve_name_def label_new_with_len_eq label_of_def api_get_info_def Let_def)

lemma get_info_iff:
  "api_get_info n s = Some r \<longleftrightarrow> offered_name n s = None \<and>
     (\<exists>info a. get_info n s = Some info \<and> rt_now s < ri_expire info \<and> owner_of n s = Some a
        \<and> r = \<lparr>nr_owner = a, nr_expire = ri_expire info, nr_capacity = ri_capacity info,
            nr_register_fee = ri_register_fee info, nr_for_sale = (listings (rt_market s) n \<noteq> None),
            nr_last_block = ri_last_block info, nr_read_block_number = 0, nr_read_block_hash = 0\<rparr>)"
  by (auto simp: api_get_info_def owner_of_def not_le split: option.splits)

text \<open>
  Resolving a name over RPC answers what the query by node answers at the name's node,
  for every valid label, and nothing otherwise: the two copies of the code agree.
\<close>
theorem resolve_name_is_get_info:
  "rpc_resolve_name kusama hash chain name s =
     (if label_bytes name
      then rpc_get_info chain (encode_with_node hash (label_of hash name) (NATIVE_BASENODE kusama)) s
      else None)"
  by (simp add: rpc_resolve_name_def rpc_get_info_def resolve_name_eq)

lemma lookup_anchor:
  assumes "pns_inv c s" "owner_of n s = Some a" "n \<noteq> cfg_base_node c"
  shows "(RT_SS58, v) \<in> set (api_lookup n rts s) \<longleftrightarrow> v = h256_encode a"
proof -
  have "get_record (rt_resolvers s) n RT_SS58 = h256_encode a"
    using pns_inv_parts(2) [OF assms(1)] assms(2,3) by (simp add: anchors_ok_def anchored_def ss58_def)
  then show ?thesis by (auto simp: api_lookup_def in_lookup)
qed

text \<open>
  C36: A lookup hides neither gifts nor expired names: it returns the SS58 record of an owned
  name also while the name waits for its recipient and after it has expired, when the query by node
  answers nothing.
\<close>
theorem lookup_shows_hidden_names:
  assumes "pns_inv c s" "owner_of n s = Some a" "n \<noteq> cfg_base_node c"
    "offered_name n s \<noteq> None \<or> (\<exists>info. get_info n s = Some info \<and> ri_expire info \<le> rt_now s)"
  shows "api_get_info n s = None \<and> (RT_SS58, h256_encode a) \<in> set (api_lookup n rts s)"
  using lookup_anchor [OF assms(1-3)] assms(4) by (auto simp: api_get_info_def)

theorem lookup_shows_hidden_names_witness:
  "api_get_info 116 (demo_alice\<lparr>rt_now := 31536000000\<rparr>) = None
   \<and> (RT_SS58, h256_encode 2) \<in> set (api_lookup 116 [] (demo_alice\<lparr>rt_now := 31536000000\<rparr>))"
proof -
  have "demo_alice\<lparr>rt_now := 31536000000\<rparr> = demo_alice\<lparr>rt_now := 31536000000,
      rt_block_number := rt_block_number demo_alice, rt_parent_hash := rt_parent_hash demo_alice,
      rt_balances := rt_balances demo_alice\<rparr>" by simp
  with pns_inv_block [OF demo_alice_inv] have "pns_inv demo (demo_alice\<lparr>rt_now := 31536000000\<rparr>)" by metis
  from lookup_shows_hidden_names [OF this, of 116 2] show ?thesis
    by (simp add: owner_of_def name_token_def get_info_def im_get_def) (simp add: demo_alice_def)
qed

text \<open>
  An account's dashboard shows its delegations: the pending offers are exactly the
  delegations offered to it, every subname it holds is listed, and the pending gifts are exactly those
  of which it is the recipient.
\<close>
theorem dashboard_exact:
  assumes "pns_inv c s"
  shows "set (ad_pending_subname_offers (api_account_dashboard a s)) =
      {n. \<exists>rec. subname_records (rt_registry s) n = Some rec \<and> sr_state rec = Offered \<and> sr_target rec = a}
    \<and> {n. \<exists>rec. subname_records (rt_registry s) n = Some rec \<and> sr_state rec = Active \<and> sr_target rec = a}
      \<subseteq> set (ad_subnames (api_account_dashboard a s))
    \<and> set (ad_pending_name_offers (api_account_dashboard a s)) =
      {n. \<exists>offer. (n, offer) \<in> set (offered_names (rt_registrar s)) \<and> on_recipient offer = a}"
  using pns_inv_parts(1) [OF assms]
  by (auto simp: api_account_dashboard_def set_dm_iter tree_ok_def deleg_defs image_iff)

theorem dashboard_exact_witness:
  "216 \<in> set (ad_pending_subname_offers (api_account_dashboard 3 demo_offer))"
  using dashboard_exact [OF demo_offer_inv, of 3] demo_offer_sel(1) by (simp add: demo_sub_record_def)

end
