(* ===== verification/Std_Text.thy ===== *)
theory Std_Text
  imports Pns_Types
begin

text \<open>
  What the DNS server uses of Rust's standard library: the parsers of IPv4 and IPv6
  addresses (\<open>core::net\<close>), the replacement of ill-formed UTF-8
  (\<open>String::from_utf8_lossy\<close>), suffixes of strings and big-endian numbers.  A string is
  its bytes; an address is its octets.
\<close>

section \<open>Strings and numbers\<close>

definition strip_suffix :: "u8 list \<Rightarrow> u8 list \<Rightarrow> u8 list option" where
  "strip_suffix suffix str =
     (let n = length str - length suffix in
      if length suffix \<le> length str \<and> drop n str = suffix then Some (take n str) else None)"

definition u16_from_be_bytes :: "u8 \<Rightarrow> u8 \<Rightarrow> u16" where
  "u16_from_be_bytes hi lo = ucast hi * 256 + ucast lo"

fun split_dots :: "u8 list \<Rightarrow> u8 list list" where
  "split_dots [] = [[]]"
| "split_dots (b # bs) =
     (if b = dot_byte then [] # split_dots bs
      else case split_dots bs of
        [] \<Rightarrow> [[b]]
      | l # ls \<Rightarrow> (b # l) # ls)"

text \<open>The length of the ill-formed prefix that one replacement character stands for.\<close>

definition second_byte_ok :: "u8 \<Rightarrow> u8 \<Rightarrow> bool" where
  "second_byte_ok b x \<longleftrightarrow>
     b = 0xE0 \<and> 0xA0 \<le> x \<and> x \<le> 0xBF
     \<or> 0xE1 \<le> b \<and> b \<le> 0xEC \<and> is_continuation x
     \<or> b = 0xED \<and> 0x80 \<le> x \<and> x \<le> 0x9F
     \<or> 0xEE \<le> b \<and> b \<le> 0xEF \<and> is_continuation x
     \<or> b = 0xF0 \<and> 0x90 \<le> x \<and> x \<le> 0xBF
     \<or> 0xF1 \<le> b \<and> b \<le> 0xF3 \<and> is_continuation x
     \<or> b = 0xF4 \<and> 0x80 \<le> x \<and> x \<le> 0x8F"

definition invalid_len :: "u8 \<Rightarrow> u8 list \<Rightarrow> nat" where
  "invalid_len b bs =
     (case bs of
        [] \<Rightarrow> 1
      | x # xs \<Rightarrow>
          if second_byte_ok b x
          then (case xs of
                  [] \<Rightarrow> 2
                | y # _ \<Rightarrow> if 0xF0 \<le> b \<and> is_continuation y then 3 else 2)
          else 1)"

function from_utf8_lossy :: "u8 list \<Rightarrow> u8 list" where
  "from_utf8_lossy [] = []"
| "from_utf8_lossy (b # bs) =
     (case utf8_next b bs of
        Some (c, r) \<Rightarrow> take (Suc (length bs) - length r) (b # bs) @ from_utf8_lossy r
      | None \<Rightarrow> [0xEF, 0xBF, 0xBD] @ from_utf8_lossy (drop (invalid_len b bs - 1) bs))"
  by pat_completeness auto
termination
  by (relation "measure length") (auto dest: utf8_next_shorter)

section \<open>Addresses\<close>

text \<open>
  A reader takes the bytes that are left and gives a value and the rest, or fails and leaves
  the bytes as they are.
\<close>

type_synonym 'a reader = "u8 list \<Rightarrow> ('a \<times> u8 list) option"

definition to_digit :: "nat \<Rightarrow> u8 \<Rightarrow> nat option" where
  "to_digit radix b =
     (let n = unat b;
          d = (if 48 \<le> n \<and> n \<le> 57 then n - 48
               else if 97 \<le> n \<and> n \<le> 122 then n - 87
               else if 65 \<le> n \<and> n \<le> 90 then n - 55
               else 36)
      in if d < radix then Some d else None)"

fun read_digits :: "nat \<Rightarrow> nat \<Rightarrow> nat \<Rightarrow> nat \<Rightarrow> u8 list \<Rightarrow> (nat \<times> nat \<times> u8 list) option" where
  "read_digits radix max_digits result digit_count [] = Some (result, digit_count, [])"
| "read_digits radix max_digits result digit_count (b # bs) =
     (case to_digit radix b of
        None \<Rightarrow> Some (result, digit_count, b # bs)
      | Some digit \<Rightarrow>
          if digit_count + 1 > max_digits then None
          else read_digits radix max_digits (result * radix + digit) (digit_count + 1) bs)"

definition read_number :: "nat \<Rightarrow> nat \<Rightarrow> bool \<Rightarrow> nat \<Rightarrow> nat reader" where
  "read_number radix max_digits allow_zero_prefix bound bs =
     (let has_leading_zero = (case bs of [] \<Rightarrow> False | b # _ \<Rightarrow> b = 48) in
      case read_digits radix max_digits 0 0 bs of
        None \<Rightarrow> None
      | Some (result, digit_count, rest) \<Rightarrow>
          if digit_count = 0 then None
          else if \<not> allow_zero_prefix \<and> has_leading_zero \<and> digit_count > 1 then None
          else if result < bound then Some (result, rest) else None)"

definition read_separator :: "u8 \<Rightarrow> nat \<Rightarrow> 'a reader \<Rightarrow> 'a reader" where
  "read_separator sep index inner bs =
     (if index > 0
      then (case bs of [] \<Rightarrow> None | b # rest \<Rightarrow> if b = sep then inner rest else None)
      else inner bs)"

fun read_octets :: "nat \<Rightarrow> nat \<Rightarrow> u8 list reader" where
  "read_octets 0 i bs = Some ([], bs)"
| "read_octets (Suc n) i bs =
     (case read_separator dot_byte i (read_number 10 3 False 256) bs of
        None \<Rightarrow> None
      | Some (octet, rest) \<Rightarrow>
          map_option (\<lambda>(octets, rest). (of_nat octet # octets, rest)) (read_octets n (Suc i) rest))"

definition read_ipv4_addr :: "u8 list reader" where
  "read_ipv4_addr = read_octets 4 0"

definition colon :: u8 where "colon = 58"

fun read_groups :: "nat \<Rightarrow> nat \<Rightarrow> u8 list \<Rightarrow> u16 list \<times> bool \<times> u8 list" where
  "read_groups 0 i bs = ([], False, bs)"
| "read_groups (Suc n) i bs =
     (case (if 0 < n then read_separator colon i read_ipv4_addr bs else None) of
        Some (octets, rest) \<Rightarrow>
          ([u16_from_be_bytes (octets ! 0) (octets ! 1), u16_from_be_bytes (octets ! 2) (octets ! 3)],
           True, rest)
      | None \<Rightarrow>
          (case read_separator colon i (read_number 16 4 True 65536) bs of
             None \<Rightarrow> ([], False, bs)
           | Some (g, rest) \<Rightarrow>
               (case read_groups n (Suc i) rest of
                  (groups, ipv4, rest) \<Rightarrow> (of_nat g # groups, ipv4, rest))))"

definition read_ipv6_addr :: "u16 list reader" where
  "read_ipv6_addr bs =
     (case read_groups 8 0 bs of
        (head, head_ipv4, rest) \<Rightarrow>
          if length head = 8 then Some (head, rest)
          else if head_ipv4 then None
          else (case rest of
                  a # b # rest \<Rightarrow>
                    if a = colon \<and> b = colon
                    then (case read_groups (8 - (length head + 1)) 0 rest of
                            (tail, _, rest) \<Rightarrow>
                              Some (head @ replicate (8 - length head - length tail) 0 @ tail, rest))
                    else None
                | _ \<Rightarrow> None))"

definition octets_of_groups :: "u16 list \<Rightarrow> u8 list" where
  "octets_of_groups groups = concat (map (\<lambda>g. [ucast (drop_bit 8 g), ucast g]) groups)"

definition parse_ipv4 :: "u8 list \<Rightarrow> u8 list option" where
  "parse_ipv4 text =
     (if 15 < length text then None
      else case read_ipv4_addr text of
        Some (octets, []) \<Rightarrow> Some octets
      | _ \<Rightarrow> None)"

definition parse_ipv6 :: "u8 list \<Rightarrow> u8 list option" where
  "parse_ipv6 text =
     (case read_ipv6_addr text of
        Some (groups, []) \<Rightarrow> Some (octets_of_groups groups)
      | _ \<Rightarrow> None)"

section \<open>Facts\<close>

lemma strip_suffix_iff: "strip_suffix suffix str = Some pre \<longleftrightarrow> str = pre @ suffix"
  by (auto simp: strip_suffix_def Let_def split: if_splits) (metis append_take_drop_id)

text \<open>Well-formed text is unchanged.\<close>

lemma utf8_next_suffix: "utf8_next b bs = Some (c, r) \<Longrightarrow> \<exists>p. bs = p @ r"
  by (auto simp: utf8_next_def split: if_splits list.splits)

lemma from_utf8_lossy_valid: "utf8_decode bs \<noteq> None \<Longrightarrow> from_utf8_lossy bs = bs"
proof (induction bs rule: utf8_decode.induct)
  case (2 b bs)
  then obtain c r where n: "utf8_next b bs = Some (c, r)" "utf8_decode r \<noteq> None"
    by (auto split: option.splits)
  then obtain p where "bs = p @ r" using utf8_next_suffix by blast
  with n 2(1) [OF n(1)] show ?case by (simp add: Suc_diff_le)
qed simp

lemma read_octets_length: "read_octets n i bs = Some (os, r) \<Longrightarrow> length os = n"
  by (induction n i bs arbitrary: os r rule: read_octets.induct) (auto split: option.splits)

lemma read_groups_length: "read_groups n i bs = (gs, v4, r) \<Longrightarrow> length gs \<le> n"
proof (induction n i bs arbitrary: gs v4 r rule: read_groups.induct)
  case (2 n i bs)
  then show ?case by (auto split: if_splits option.splits prod.splits)
qed simp

lemma parse_length:
  "parse_ipv4 text = Some os \<Longrightarrow> length os = 4"
  "parse_ipv6 text = Some os' \<Longrightarrow> length os' = 16"
proof -
  show "parse_ipv4 text = Some os \<Longrightarrow> length os = 4"
    by (auto simp: parse_ipv4_def read_ipv4_addr_def dest: read_octets_length split: if_splits option.splits list.splits)
  have groups: "length gs = 8" if "read_ipv6_addr bs = Some (gs, r)" for bs gs r
    using that by (auto simp: read_ipv6_addr_def dest!: read_groups_length split: if_splits option.splits list.splits prod.splits)
  have "length (octets_of_groups gs) = 2 * length gs" for gs
    by (induction gs) (simp_all add: octets_of_groups_def)
  then show "parse_ipv6 text = Some os' \<Longrightarrow> length os' = 16"
    by (auto simp: parse_ipv6_def dest!: groups split: option.splits list.splits)
qed

end
