(* ===== verification/Dns_Authority.thy ===== *)
theory Dns_Authority
  imports Std_Text Runtime_Api
begin

text \<open>
  The DNS zone served from the chain, src/pallets/pns-ddns/src/authority.rs, and the HTTP
  endpoints of src/pallets/pns-ddns/src/lib.rs.

  Domain names belong to the DNS library: the type \<open>'n\<close> stands for its names, and
  \<open>name_lib\<close> holds what the server calls, the parser, the printer and the class a new
  record has.  The runtime API is an argument, whose \<open>None\<close> is an API error.  A panic
  (\<open>unwrap\<close> of a name that does not parse, a record type the conversion does not name) is
  the value \<open>Lookup_Panic\<close>.
\<close>

section \<open>Data\<close>

definition MAX_CNAME_DEPTH :: nat where "MAX_CNAME_DEPTH = 8"

datatype response_code = NoError | FormErr | ServFail | NXDomain | NotImp | Refused

datatype dns_class = Class_IN | Class_Other u16

datatype 'n rdata =
    R_A "u8 list" | R_AAAA "u8 list" | R_CNAME 'n | R_TXT "u8 list list" | R_MX u16 'n | R_NS 'n
  | R_SRV u16 u16 u16 'n | R_SOA 'n 'n u32 int int int u32 | R_Unknown hickory_type "u8 list"

record 'n dns_record =
  dr_name :: 'n
  dr_ttl :: u32
  dr_class :: dns_class
  dr_data :: "'n rdata"

record 'n name_lib =
  name_from_str :: "u8 list \<Rightarrow> 'n option"
  name_to_string :: "'n \<Rightarrow> u8 list"
  default_class :: dns_class

datatype 'n lookup_result =
    Lookup_Records "'n dns_record list" | Lookup_NameExists | Lookup_Code response_code | Lookup_Panic

section \<open>Helpers\<close>

definition is_polkadot_only :: "record_type \<Rightarrow> bool" where
  "is_polkadot_only rt \<longleftrightarrow> rt \<in> set [RT_SS58, RT_VALIDATOR, RT_PARA, RT_PROXY, RT_PUBKEY1, RT_PUBKEY2,
     RT_PUBKEY3, RT_AVATAR, RT_CONTRACT, RT_CONTENT, RT_IPFS, RT_ORIGIN]"

definition extract_label :: "'n name_lib \<Rightarrow> 'n \<Rightarrow> 'n \<Rightarrow> u8 list option" where
  "extract_label lib name org =
     (if name = org then Some []
      else let name_s = name_to_string lib name;
               origin_s = name_to_string lib org;
               suffix = dot_byte # origin_s
           in strip_suffix suffix name_s)"

definition from_rdata :: "'n name_lib \<Rightarrow> 'n \<Rightarrow> u32 \<Rightarrow> 'n rdata \<Rightarrow> 'n dns_record" where
  "from_rdata lib name ttl rd =
     \<lparr>dr_name = name, dr_ttl = ttl, dr_class = default_class lib, dr_data = rd\<rparr>"

definition synthesize_soa :: "'n name_lib \<Rightarrow> 'n \<Rightarrow> u32 \<Rightarrow> 'n dns_record option" where
  "synthesize_soa lib org serial =
     (case (name_from_str lib (ascii_of ''ns1.dot.''), name_from_str lib (ascii_of ''hostmaster.dot.'')) of
        (Some mname, Some rname) \<Rightarrow>
          Some (from_rdata lib org 300 (R_SOA mname rname serial 3600 900 86400 300))
      | _ \<Rightarrow> None)"

definition synthesize_ns :: "'n name_lib \<Rightarrow> 'n \<Rightarrow> 'n dns_record option" where
  "synthesize_ns lib org =
     map_option (\<lambda>ns_name. from_rdata lib org 300 (R_NS ns_name))
       (name_from_str lib (ascii_of ''ns1.dot.''))"

text \<open>The name that stored bytes hold: well-formed UTF-8 that the library's parser accepts.\<close>

definition name_of_bytes :: "'n name_lib \<Rightarrow> u8 list \<Rightarrow> 'n option" where
  "name_of_bytes lib bytes =
     (case from_utf8 bytes of None \<Rightarrow> None | Some str \<Rightarrow> name_from_str lib str)"

definition rpc_rdata :: "'n name_lib \<Rightarrow> u8 list \<Rightarrow> hickory_type \<Rightarrow> 'n rdata option" where
  "rpc_rdata lib data queried_type =
     (case from_utf8 data of
        None \<Rightarrow> None
      | Some str \<Rightarrow>
          (case parse_ipv4 str of
             Some ip4 \<Rightarrow> if queried_type \<in> {H_A, H_ANY} then Some (R_A ip4) else None
           | None \<Rightarrow>
               (case parse_ipv6 str of
                  Some ip6 \<Rightarrow> if queried_type \<in> {H_AAAA, H_ANY} then Some (R_AAAA ip6) else None
                | None \<Rightarrow>
                    (case name_from_str lib str of
                       Some name \<Rightarrow>
                         if queried_type \<in> {H_CNAME, H_ANY} then Some (R_CNAME name) else None
                     | None \<Rightarrow> None))))"

fun rdata_of :: "'n name_lib \<Rightarrow> record_type \<Rightarrow> u8 list \<Rightarrow> hickory_type \<Rightarrow> 'n rdata option" where
  "rdata_of lib RT_A data queried_type = (if length data \<noteq> 4 then None else Some (R_A data))"
| "rdata_of lib RT_AAAA data queried_type = (if length data \<noteq> 16 then None else Some (R_AAAA data))"
| "rdata_of lib RT_CNAME data queried_type = map_option R_CNAME (name_of_bytes lib data)"
| "rdata_of lib RT_TXT data queried_type = Some (R_TXT [from_utf8_lossy data])"
| "rdata_of lib RT_MX data queried_type =
     (if length data < 3 then None
      else map_option (R_MX (u16_from_be_bytes (data ! 0) (data ! 1))) (name_of_bytes lib (drop 2 data)))"
| "rdata_of lib RT_NS data queried_type = map_option R_NS (name_of_bytes lib data)"
| "rdata_of lib RT_SRV data queried_type =
     (if length data < 7 then None
      else map_option (R_SRV (u16_from_be_bytes (data ! 0) (data ! 1))
             (u16_from_be_bytes (data ! 2) (data ! 3)) (u16_from_be_bytes (data ! 4) (data ! 5)))
             (name_of_bytes lib (drop 6 data)))"
| "rdata_of lib RT_RPC data queried_type = rpc_rdata lib data queried_type"
| "rdata_of lib pns_type data queried_type =
     (let htype = to_hickory pns_type in
      if htype \<noteq> queried_type \<and> queried_type \<noteq> H_ANY then None else Some (R_Unknown htype data))"

definition pns_record_to_dns ::
  "'n name_lib \<Rightarrow> 'n \<Rightarrow> record_type \<Rightarrow> u8 list \<Rightarrow> hickory_type \<Rightarrow> 'n dns_record option" where
  "pns_record_to_dns lib owner_name pns_type data queried_type =
     (if is_polkadot_only pns_type then None
      else map_option (\<lambda>rd. (from_rdata lib owner_name 300 rd)\<lparr>dr_class := Class_IN\<rparr>)
             (rdata_of lib pns_type data queried_type))"

section \<open>The authority\<close>

fun convert_records ::
  "'n name_lib \<Rightarrow> 'n \<Rightarrow> hickory_type \<Rightarrow> nat \<Rightarrow> (record_type \<times> u8 list) list \<Rightarrow> 'n dns_record list
    \<Rightarrow> 'n dns_record list" where
  "convert_records lib owner_name rtype cname_depth [] dns_records = dns_records"
| "convert_records lib owner_name rtype cname_depth ((pns_type, data) # raw_records) dns_records =
     (let cname_depth = (if pns_type = RT_CNAME then cname_depth + 1 else cname_depth) in
      if pns_type = RT_CNAME \<and> cname_depth > MAX_CNAME_DEPTH then dns_records
      else convert_records lib owner_name rtype cname_depth raw_records
             (case pns_record_to_dns lib owner_name pns_type data rtype of
                Some rec \<Rightarrow> dns_records @ [rec]
              | None \<Rightarrow> dns_records))"

definition apex_lookup :: "'n name_lib \<Rightarrow> 'n \<Rightarrow> u32 \<Rightarrow> hickory_type \<Rightarrow> 'n lookup_result" where
  "apex_lookup lib org serial rtype =
     (if rtype = H_SOA \<or> rtype = H_ANY
      then (case synthesize_soa lib org serial of
              None \<Rightarrow> Lookup_Panic | Some rec \<Rightarrow> Lookup_Records [rec])
      else if rtype = H_NS \<or> rtype = H_ANY
      then (case synthesize_ns lib org of
              None \<Rightarrow> Lookup_Panic | Some rec \<Rightarrow> Lookup_Records [rec])
      else Lookup_NameExists)"

definition authority_lookup ::
  "'n name_lib \<Rightarrow> 'n \<Rightarrow> u64 \<Rightarrow> (u8 list \<Rightarrow> record_type list \<Rightarrow> (record_type \<times> u8 list) list option)
    \<Rightarrow> 'n \<Rightarrow> hickory_type \<Rightarrow> 'n lookup_result" where
  "authority_lookup lib org block_number lookup_by_name name rtype =
     (let serial = ucast block_number in
      if name = org then apex_lookup lib org serial rtype
      else case extract_label lib name org of
        None \<Rightarrow> Lookup_Code NXDomain
      | Some lbl \<Rightarrow>
          if rtype = H_SOA then Lookup_NameExists
          else case (if rtype = H_ANY then Some all_record_types
                     else map_option (\<lambda>rt. [rt]) (from_hickory rtype)) of
            None \<Rightarrow> Lookup_Panic
          | Some rt_filter \<Rightarrow>
              (case lookup_by_name lbl rt_filter of
                 None \<Rightarrow> Lookup_Code ServFail
               | Some raw_records \<Rightarrow>
                   if raw_records = [] then Lookup_Code NXDomain
                   else let dns_records = convert_records lib name rtype 0 raw_records [] in
                     if dns_records = [] then Lookup_NameExists else Lookup_Records dns_records))"

definition authority_update :: "response_code + bool" where
  "authority_update = Inl NotImp"

definition is_axfr_allowed :: bool where
  "is_axfr_allowed = False"

section \<open>HTTP endpoints\<close>

definition http_get_info :: "(domain_hash \<Rightarrow> 'e + name_record option) \<Rightarrow> domain_hash \<Rightarrow> name_record option" where
  "http_get_info query node = (case query node of Inr res \<Rightarrow> res | Inl _ \<Rightarrow> None)"

definition http_get_info_from_name ::
  "keccak \<Rightarrow> domain_hash \<Rightarrow> (domain_hash \<Rightarrow> 'e + name_record option) \<Rightarrow> u8 list \<Rightarrow> name_record option" where
  "http_get_info_from_name hash basenode query name =
     (case map_option (\<lambda>(lbl, _). encode_with_node hash lbl basenode) (label_new_with_len hash name) of
        None \<Rightarrow> None
      | Some node \<Rightarrow> (case query node of Inr res \<Rightarrow> res | Inl _ \<Rightarrow> None))"

definition http_all ::
  "('e + (domain_hash \<times> registrar_info) list) \<Rightarrow> (domain_hash \<times> registrar_info) list" where
  "http_all answer = (case answer of Inr res \<Rightarrow> res | Inl _ \<Rightarrow> [])"

section \<open>What is served\<close>

text \<open>The type a piece of record data answers.\<close>

fun rdata_type :: "'n rdata \<Rightarrow> hickory_type" where
  "rdata_type (R_A _) = H_A"
| "rdata_type (R_AAAA _) = H_AAAA"
| "rdata_type (R_CNAME _) = H_CNAME"
| "rdata_type (R_TXT _) = H_TXT"
| "rdata_type (R_MX _ _) = H_MX"
| "rdata_type (R_NS _) = H_NS"
| "rdata_type (R_SRV _ _ _ _) = H_SRV"
| "rdata_type (R_SOA _ _ _ _ _ _ _) = H_SOA"
| "rdata_type (R_Unknown code _) = code"

text \<open>Apart from RPC records a record is served under its own type.\<close>

lemma rdata_of_type:
  "rdata_of lib t data q = Some rd \<Longrightarrow> t \<noteq> RT_RPC \<Longrightarrow> rdata_type rd = to_hickory t"
  by (induction lib t data q rule: rdata_of.induct) (auto simp: Let_def split: if_splits)

lemma pns_record_to_dns_Some:
  assumes "pns_record_to_dns lib owner t data q = Some rec"
  shows "\<not> is_polkadot_only t" "rdata_of lib t data q = Some (dr_data rec)"
    "dr_name rec = owner" "dr_class rec = Class_IN" "dr_ttl rec = 300"
  using assms by (auto simp: pns_record_to_dns_def from_rdata_def split: if_splits)

lemma set_convert_records:
  "rec \<in> set (convert_records lib owner q d raws acc) \<Longrightarrow>
     rec \<in> set acc \<or> (\<exists>t data. (t, data) \<in> set raws \<and> pns_record_to_dns lib owner t data q = Some rec)"
proof (induction lib owner q d raws acc rule: convert_records.induct)
  case (2 lib owner q d t data raws acc)
  then show ?case by (fastforce simp: Let_def split: if_splits option.splits)
qed simp

text \<open>
  With at most eight CNAME records the depth cap cuts nothing, and a lookup for one record
  type returns at most one.
\<close>

lemma convert_records_all:
  "d + length (filter (\<lambda>(t, _). t = RT_CNAME) raws) \<le> MAX_CNAME_DEPTH \<Longrightarrow>
     convert_records lib owner q d raws acc =
       acc @ List.map_filter (\<lambda>(t, data). pns_record_to_dns lib owner t data q) raws"
proof (induction lib owner q d raws acc rule: convert_records.induct)
  case (2 lib owner q d t data raws acc)
  then show ?case by (auto simp: Let_def map_filter_simps split: option.splits)
qed (simp add: map_filter_simps)

end
