(* ===== verification/Dns_Server.thy ===== *)
theory Dns_Server
  imports Dns_Authority
begin

text \<open>
  The hardened request handler of the DNS server, src/pallets/pns-ddns/src/dns_server.rs and
  src/pallets/pns-ddns/src/metrics.rs.

  The rate limiters, the expiring caches and the Bloom filter belong to libraries: their
  states are type parameters and \<open>server_lib\<close> holds the operations the handler calls, with
  the time of the call as an argument.  Times are milliseconds.  The zone's own answer (the
  inner handler) is an argument: a response code, or \<open>None\<close> when it takes longer than the
  timeout.

  A request is handled in two parts, before and after it waits in the response queue and in
  the inner handler: \<open>admit_request\<close> runs the checks and \<open>finish_request\<close> takes the zone's
  answer.  Other requests run in between.
\<close>

section \<open>Keys\<close>

datatype ip_addr = V4 "u8 list" | V6 "u8 list"

type_synonym subnet = "u8 list"

fun subnet_key :: "ip_addr \<Rightarrow> subnet" where
  "subnet_key (V4 octets) = [octets ! 0, octets ! 1, octets ! 2, 4]"
| "subnet_key (V6 octets) = [octets ! 0, octets ! 1, octets ! 2, 6]"

record request =
  rq_src :: ip_addr
  rq_queries :: "(u8 list \<times> hickory_type) list"

definition zone_key :: "request \<Rightarrow> u8 list option" where
  "zone_key req =
     (case rq_queries req of
        [] \<Rightarrow> None
      | (name, _) # _ \<Rightarrow> Some (case split_dots name of [] \<Rightarrow> [] | l # _ \<Rightarrow> l))"

definition labels_valid :: "request \<Rightarrow> bool" where
  "labels_valid req \<longleftrightarrow> list_all (\<lambda>(name, _). list_all (\<lambda>l. length l \<le> 63) (split_dots name)) (rq_queries req)"

definition query_name :: "request \<Rightarrow> u8 list" where
  "query_name req = (case rq_queries req of [] \<Rightarrow> [] | (name, _) # _ \<Rightarrow> name)"

section \<open>Libraries\<close>

record penalty_state =
  strikes :: u8
  blocked_until :: nat

record ('srl, 'zrl, 'drl, 'pc, 'uc, 'bf) server_lib =
  src_check :: "subnet \<Rightarrow> nat \<Rightarrow> 'srl \<Rightarrow> bool \<times> 'srl"
  zone_check :: "u8 list \<Rightarrow> nat \<Rightarrow> 'zrl \<Rightarrow> bool \<times> 'zrl"
  direct_check :: "nat \<Rightarrow> 'drl \<Rightarrow> bool \<times> 'drl"
  penalty_get :: "subnet \<Rightarrow> nat \<Rightarrow> 'pc \<Rightarrow> penalty_state option"
  penalty_put :: "subnet \<Rightarrow> penalty_state \<Rightarrow> nat \<Rightarrow> 'pc \<Rightarrow> 'pc"
  cache_has :: "u8 list \<Rightarrow> nat \<Rightarrow> 'uc \<Rightarrow> bool"
  cache_put :: "u8 list \<Rightarrow> nat \<Rightarrow> 'uc \<Rightarrow> 'uc"
  cache_drop :: "u8 list \<Rightarrow> nat \<Rightarrow> 'uc \<Rightarrow> 'uc"
  bloom_empty :: 'bf
  bloom_check :: "u8 list \<Rightarrow> 'bf \<Rightarrow> bool"
  bloom_insert :: "u8 list \<Rightarrow> 'bf \<Rightarrow> 'bf"
  bloom_clear :: "'bf \<Rightarrow> 'bf"

section \<open>Configuration\<close>

record dns_config =
  dns_port :: u16
  dns_workers :: nat
  dns_cores :: "nat list option"
  min_response_ms :: u64

definition dns_config_default :: dns_config where
  "dns_config_default = \<lparr>dns_port = 53, dns_workers = 2, dns_cores = None, min_response_ms = 5\<rparr>"

section \<open>Double-buffered Bloom filter\<close>

record 'bf double_bloom =
  bl_primary :: 'bf
  bl_secondary :: 'bf
  bl_primary_count :: u64
  bl_saturation_count :: u64

text \<open>
  The source computes the saturation count in floating point; for capacities below
  \<open>2 ^ 50\<close> it is four fifths of the capacity, rounded down.
\<close>

definition double_bloom_new ::
  "('srl, 'zrl, 'drl, 'pc, 'uc, 'bf) server_lib \<Rightarrow> nat \<Rightarrow> 'bf double_bloom" where
  "double_bloom_new lib capacity =
     \<lparr>bl_primary = bloom_empty lib, bl_secondary = bloom_empty lib, bl_primary_count = 0,
      bl_saturation_count = of_nat (capacity * 4 div 5)\<rparr>"

definition double_bloom_check ::
  "('srl, 'zrl, 'drl, 'pc, 'uc, 'bf) server_lib \<Rightarrow> u8 list \<Rightarrow> 'bf double_bloom \<Rightarrow> bool" where
  "double_bloom_check lib name bl \<longleftrightarrow> bloom_check lib name (bl_primary bl) \<or> bloom_check lib name (bl_secondary bl)"

definition double_bloom_set ::
  "('srl, 'zrl, 'drl, 'pc, 'uc, 'bf) server_lib \<Rightarrow> u8 list \<Rightarrow> 'bf double_bloom \<Rightarrow> 'bf double_bloom" where
  "double_bloom_set lib name bl =
     (let bl = bl\<lparr>bl_primary := bloom_insert lib name (bl_primary bl),
                 bl_primary_count := bl_primary_count bl + 1\<rparr> in
      if bl_primary_count bl \<ge> bl_saturation_count bl
      then bl\<lparr>bl_primary := bl_secondary bl, bl_secondary := bloom_clear lib (bl_primary bl),
             bl_primary_count := 0\<rparr>
      else bl)"

section \<open>Response queue\<close>

text \<open>
  An entry is the time at which a request began to wait and the request.  A tick releases
  from the front as long as the front has waited for the minimum.
\<close>

fun queue_tick :: "nat \<Rightarrow> nat \<Rightarrow> (nat \<times> 'a) list \<Rightarrow> 'a list \<times> (nat \<times> 'a) list" where
  "queue_tick min_ms now [] = ([], [])"
| "queue_tick min_ms now ((entry, x) # queue) =
     (if now \<ge> entry + min_ms
      then (case queue_tick min_ms now queue of (sent, rest) \<Rightarrow> (x # sent, rest))
      else ([], (entry, x) # queue))"

definition queue_push :: "nat \<Rightarrow> 'a \<Rightarrow> (nat \<times> 'a) list \<Rightarrow> (nat \<times> 'a) list" where
  "queue_push entry x queue = queue @ [(entry, x)]"

definition tick_interval :: "u64 \<Rightarrow> u64" where
  "tick_interval min_ms = max 1 (min_ms div 4)"

section \<open>Metrics and the handler's state\<close>

record dns_metrics =
  drop_inflight_cap :: u64
  drop_any_query :: u64
  drop_src_rate_limit :: u64
  drop_zone_rate_limit :: u64
  drop_penalty_backoff :: u64
  drop_bloom_pre_filter :: u64
  drop_storage_timeout :: u64
  drop_storage_rate_limit :: u64
  drop_label_validation :: u64
  drop_cname_depth :: u64
  neg_cache_hit :: u64
  first_seen_miss :: u64
  first_seen_hit :: u64
  storage_lookups :: u64
  storage_timeouts :: u64
  resp_noerror :: u64
  resp_nxdomain :: u64
  resp_refused :: u64
  resp_servfail :: u64
  resp_notimp :: u64

definition metrics_new :: dns_metrics where
  "metrics_new =
     \<lparr>drop_inflight_cap = 0, drop_any_query = 0, drop_src_rate_limit = 0, drop_zone_rate_limit = 0,
      drop_penalty_backoff = 0, drop_bloom_pre_filter = 0, drop_storage_timeout = 0,
      drop_storage_rate_limit = 0, drop_label_validation = 0, drop_cname_depth = 0,
      neg_cache_hit = 0, first_seen_miss = 0, first_seen_hit = 0, storage_lookups = 0,
      storage_timeouts = 0, resp_noerror = 0, resp_nxdomain = 0, resp_refused = 0,
      resp_servfail = 0, resp_notimp = 0\<rparr>"

record ('srl, 'zrl, 'drl, 'pc, 'uc, 'bf) handler =
  inflight :: u64
  max_inflight :: u64
  src_rl :: 'srl
  global_response_rl :: 'srl
  zone_rl :: 'zrl
  penalty_cache :: 'pc
  bloom :: "'bf double_bloom"
  neg_cache :: 'uc
  first_seen :: 'uc
  storage_rl :: 'drl
  metrics :: dns_metrics

definition count_metric ::
  "((u64 \<Rightarrow> u64) \<Rightarrow> dns_metrics \<Rightarrow> dns_metrics) \<Rightarrow> ('srl, 'zrl, 'drl, 'pc, 'uc, 'bf) handler
    \<Rightarrow> ('srl, 'zrl, 'drl, 'pc, 'uc, 'bf) handler" where
  "count_metric field h = h\<lparr>metrics := field (\<lambda>n. n + 1) (metrics h)\<rparr>"

definition handler_new ::
  "('srl, 'zrl, 'drl, 'pc, 'uc, 'bf) server_lib \<Rightarrow> 'srl \<Rightarrow> 'srl \<Rightarrow> 'zrl \<Rightarrow> 'pc \<Rightarrow> 'uc \<Rightarrow> 'uc \<Rightarrow> 'drl
    \<Rightarrow> ('srl, 'zrl, 'drl, 'pc, 'uc, 'bf) handler" where
  "handler_new lib src glob zone penalties neg seen storage =
     \<lparr>inflight = 0, max_inflight = 100, src_rl = src, global_response_rl = glob, zone_rl = zone,
      penalty_cache = penalties, bloom = double_bloom_new lib 100000, neg_cache = neg,
      first_seen = seen, storage_rl = storage, metrics = metrics_new\<rparr>"

section \<open>Penalties\<close>

definition record_penalty ::
  "('srl, 'zrl, 'drl, 'pc, 'uc, 'bf) server_lib \<Rightarrow> nat \<Rightarrow> subnet
    \<Rightarrow> ('srl, 'zrl, 'drl, 'pc, 'uc, 'bf) handler \<Rightarrow> ('srl, 'zrl, 'drl, 'pc, 'uc, 'bf) handler" where
  "record_penalty lib now key h =
     (let new_state =
        (case penalty_get lib key now (penalty_cache h) of
           Some existing \<Rightarrow>
             let n = saturating_add (strikes existing) 1;
                 block_dur = (if n = 1 then 1000 else if n = 2 then 10000 else 60000)
             in \<lparr>strikes = n, blocked_until = now + block_dur\<rparr>
         | None \<Rightarrow> \<lparr>strikes = 1, blocked_until = now + 1000\<rparr>)
      in h\<lparr>penalty_cache := penalty_put lib key new_state now (penalty_cache h)\<rparr>)"

definition is_penalised ::
  "('srl, 'zrl, 'drl, 'pc, 'uc, 'bf) server_lib \<Rightarrow> nat \<Rightarrow> subnet
    \<Rightarrow> ('srl, 'zrl, 'drl, 'pc, 'uc, 'bf) handler \<Rightarrow> bool" where
  "is_penalised lib now key h =
     (case penalty_get lib key now (penalty_cache h) of
        Some state \<Rightarrow> now < blocked_until state
      | None \<Rightarrow> False)"

section \<open>Handling a request\<close>

text \<open>\<open>Dropped\<close>: nothing is sent.  \<open>Replied\<close>: an error message is sent.  \<open>Admitted\<close>: the
  request goes on to the response queue and the zone.\<close>

datatype verdict = Dropped | Replied response_code | Admitted

definition check_storage ::
  "('srl, 'zrl, 'drl, 'pc, 'uc, 'bf) server_lib \<Rightarrow> nat \<Rightarrow> request
    \<Rightarrow> ('srl, 'zrl, 'drl, 'pc, 'uc, 'bf) handler \<Rightarrow> verdict \<times> ('srl, 'zrl, 'drl, 'pc, 'uc, 'bf) handler"
  where
  "check_storage lib now req h =
     (if cache_has lib (query_name req) now (neg_cache h)
      then (Replied NXDomain, count_metric neg_cache_hit_update h)
      else case direct_check lib now (storage_rl h) of
        (ok, storage) \<Rightarrow>
          let h = h\<lparr>storage_rl := storage\<rparr> in
          if \<not> ok then (Dropped, count_metric drop_storage_rate_limit_update h)
          else if \<not> labels_valid req then (Dropped, count_metric drop_label_validation_update h)
          else (Admitted, h))"

definition check_zone ::
  "('srl, 'zrl, 'drl, 'pc, 'uc, 'bf) server_lib \<Rightarrow> nat \<Rightarrow> request
    \<Rightarrow> ('srl, 'zrl, 'drl, 'pc, 'uc, 'bf) handler \<Rightarrow> bool \<times> ('srl, 'zrl, 'drl, 'pc, 'uc, 'bf) handler"
  where
  "check_zone lib now req h =
     (case zone_key req of
        None \<Rightarrow> (True, h)
      | Some zone \<Rightarrow>
          (case zone_check lib zone now (zone_rl h) of
             (ok, limiter) \<Rightarrow>
               let h = h\<lparr>zone_rl := limiter\<rparr> in
               if ok then (True, h)
               else (False, record_penalty lib now (subnet_key (rq_src req))
                              (count_metric drop_zone_rate_limit_update h))))"

definition run_checks ::
  "('srl, 'zrl, 'drl, 'pc, 'uc, 'bf) server_lib \<Rightarrow> nat \<Rightarrow> request
    \<Rightarrow> ('srl, 'zrl, 'drl, 'pc, 'uc, 'bf) handler \<Rightarrow> verdict \<times> ('srl, 'zrl, 'drl, 'pc, 'uc, 'bf) handler"
  where
  "run_checks lib now req h =
     (let src_key = subnet_key (rq_src req) in
      if list_ex (\<lambda>(_, query_type). query_type = H_ANY) (rq_queries req)
      then (Replied NotImp, count_metric drop_any_query_update h)
      else case src_check lib src_key now (src_rl h) of
        (ok, limiter) \<Rightarrow>
          let h = h\<lparr>src_rl := limiter\<rparr> in
          if \<not> ok then (Dropped, count_metric drop_src_rate_limit_update h)
          else case src_check lib src_key now (global_response_rl h) of
            (ok, limiter) \<Rightarrow>
              let h = h\<lparr>global_response_rl := limiter\<rparr> in
              if \<not> ok then (Dropped, h)
              else case check_zone lib now req h of
                (ok, h) \<Rightarrow>
                  if \<not> ok then (Dropped, h)
                  else if is_penalised lib now src_key h
                  then (Dropped, count_metric drop_penalty_backoff_update h)
                  else check_storage lib now req h)"

definition admit_request ::
  "('srl, 'zrl, 'drl, 'pc, 'uc, 'bf) server_lib \<Rightarrow> nat \<Rightarrow> request
    \<Rightarrow> ('srl, 'zrl, 'drl, 'pc, 'uc, 'bf) handler \<Rightarrow> verdict \<times> ('srl, 'zrl, 'drl, 'pc, 'uc, 'bf) handler"
  where
  "admit_request lib now req h =
     (let current = inflight h;
          h = h\<lparr>inflight := current + 1\<rparr> in
      if current \<ge> max_inflight h
      then (Dropped, count_metric drop_inflight_cap_update (h\<lparr>inflight := inflight h - 1\<rparr>))
      else case run_checks lib now req h of
        (v, h) \<Rightarrow> (v, if v = Admitted then h else h\<lparr>inflight := inflight h - 1\<rparr>))"

definition note_nxdomain ::
  "('srl, 'zrl, 'drl, 'pc, 'uc, 'bf) server_lib \<Rightarrow> nat \<Rightarrow> u8 list
    \<Rightarrow> ('srl, 'zrl, 'drl, 'pc, 'uc, 'bf) handler \<Rightarrow> ('srl, 'zrl, 'drl, 'pc, 'uc, 'bf) handler" where
  "note_nxdomain lib now name h =
     (if cache_has lib name now (first_seen h)
      then count_metric first_seen_hit_update
             (h\<lparr>neg_cache := cache_put lib name now (neg_cache h),
                bloom := double_bloom_set lib name (bloom h),
                first_seen := cache_drop lib name now (first_seen h)\<rparr>)
      else count_metric first_seen_miss_update
             (h\<lparr>first_seen := cache_put lib name now (first_seen h)\<rparr>))"

definition finish_request ::
  "('srl, 'zrl, 'drl, 'pc, 'uc, 'bf) server_lib \<Rightarrow> nat \<Rightarrow> request \<Rightarrow> response_code option
    \<Rightarrow> ('srl, 'zrl, 'drl, 'pc, 'uc, 'bf) handler \<Rightarrow> response_code \<times> ('srl, 'zrl, 'drl, 'pc, 'uc, 'bf) handler"
  where
  "finish_request lib now req inner_result h =
     (let h = count_metric storage_lookups_update h;
          (code, h) = (case inner_result of
             Some code \<Rightarrow>
               (code, if code = NXDomain
                      then count_metric resp_nxdomain_update (note_nxdomain lib now (query_name req) h)
                      else count_metric resp_noerror_update h)
           | None \<Rightarrow>
               (ServFail, count_metric storage_timeouts_update (count_metric drop_storage_timeout_update h)))
      in (code, h\<lparr>inflight := inflight h - 1\<rparr>))"

section \<open>CPU cores\<close>

definition determine_dns_cores :: "nat list option \<Rightarrow> nat list option \<Rightarrow> nat \<Rightarrow> nat list" where
  "determine_dns_cores core_ids requested workers =
     (case core_ids of
        None \<Rightarrow> []
      | Some all_cores \<Rightarrow>
          if all_cores = [] then []
          else if length all_cores < 3 then []
          else (case requested of
                  Some ids \<Rightarrow>
                    take workers (List.map_filter (\<lambda>i. find (\<lambda>c. c = i) all_cores) ids)
                | None \<Rightarrow> take workers (rev (sort all_cores))))"

end
