(* ===== verification/Genesis_Chain.thy ===== *)
theory Genesis_Chain
  imports Name_Lifecycle
begin

text \<open>
  The chain from its genesis: the invariant in every state, the reserved list, and an example
  that registers a name on the genesis state of the runtime.
\<close>

section \<open>Facts of every state\<close>

lemma chain_inv:
  assumes "testnet_genesis kusama c root balances parent = Some g"
    "cfg_base_node c = NATIVE_BASENODE kusama" "reachable c g s"
  shows "pns_inv c s"
  using reachable_inv [OF assms(3) testnet_genesis_inv [OF assms(1,2)]] .

lemma reserved_names_plain: "\<forall>bs\<in>set genesis_reserved_names. label_bytes bs \<and> dot_byte \<notin> set bs"
  by (simp add: genesis_reserved_names_def ascii_of_def label_bytes_def is_ascii_alphanumeric_def dot_byte_def)

lemma reject_pending_reserved:
  assumes "pns_inv c s" "reject_pending c caller rej s = Inr s0"
  shows "reserved_list (rt_registrar s0) = reserved_list (rt_registrar s)"
  using assms(2)
proof (cases rule: reject_pending_cases)
  case (gift k t)
  then show ?thesis
    using do_burn_frame(1) [OF tree_ok_offered_remove [OF assms(1)] gift(1)]
    by (simp add: clear_registrar_info_def registrar_writes)
next
  case (subname k rec t)
  then show ?thesis using revoke_subname_keeps [OF subname(2)] by simp
qed simp

section \<open>The example on the genesis\<close>

text \<open>
  The native configuration over a hash that keeps the last byte: the node of a name is its
  last character, and no reserved name ends in \<open>z\<close>.
\<close>

definition last_hash :: keccak where
  "last_hash bs = (if bs = [] then 0 else ucast (last bs))"

definition native :: "(demo_balances, account_id) config" where
  "native = pns_config False last_hash Inr demo_withdraw demo_pay"

lemma native_sel [simp]:
  "cfg_keccak native = last_hash" "cfg_base_node native = NATIVE_BASENODE False"
  "cfg_max_registration_duration native = 31536000000" "cfg_grace_period native = 2592000000"
  "cfg_default_capacity native = 10" "cfg_max_token_metadata native = 0" "cfg_max_class_metadata native = 0"
  "cfg_max_content_len native = 1024" "cfg_is_open native s" "cfg_lookup native = Inr"
  "cfg_withdraw native = demo_withdraw"
  by (simp_all add: native_def pns_config_def pns_is_open_def MaxRegistrationDuration_def GracePeriod_def
      DAYS_def HOURS_def MINUTES_def MILLI_SECS_PER_BLOCK_def)

lemma name_node_last:
  assumes "name \<noteq> []"
  shows "name_node native name p = ucast (ascii_lower (last name))"
proof -
  have "last (h256_encode w) = ucast w" for w
    by (simp add: h256_encode_def last_map)
  moreover have "ucast (ucast b :: h256) = b" for b :: u8
    by (rule bit_word_eqI) (simp add: bit_ucast_iff)
  ultimately show ?thesis
    using assms by (simp add: name_node_def last_hash_def to_ascii_lowercase_def last_map)
qed

definition native_balances :: demo_balances where
  "native_balances = (\<lambda>_. 2000000000000000, 9000000000000000)"

lemma native_genesis: "\<exists>g. testnet_genesis False native 1 native_balances 3 = Some g"
  by (simp add: testnet_genesis_def nft_create_class_def nft_mint_def nft_empty_def checked_add_def)


lemma native_base_large: "DOT_BASENODE \<noteq> 5" "DOT_BASENODE \<noteq> 122"
  by (simp_all add: DOT_BASENODE_def h256_of_bytes_def)

lemma native_z_free: "reserved_list (registrar_genesis_build native [] [] genesis_reserved_names) 122 = None"
proof -
  have "name_node native name (NATIVE_BASENODE False) \<noteq> 122" if "name \<in> set genesis_reserved_names" for name
    using that by (auto simp: genesis_reserved_names_def ascii_of_def name_node_last ascii_lower_def)
  then have "parse_name_to_node last_hash name (NATIVE_BASENODE False) \<noteq> Some 122" if "name \<in> set genesis_reserved_names" for name
    using that reserved_names_plain
    by (auto simp: parse_name_plain label_new_eq encode_with_node_def name_node_def native_def pns_config_def)
  then show ?thesis
    using registrar_genesis_reserved [of native genesis_reserved_names 122] by (auto simp del: not_None_eq)
qed


lemma registrar_genesis_primary:
  "owner_to_primary_name (registrar_genesis_build c [] [] names) = Map.empty
   \<and> offered_names (registrar_genesis_build c [] [] names) = []"
proof -
  let ?f = "\<lambda>st name. case parse_name_to_node (cfg_keccak c) name (cfg_base_node c) of
        None \<Rightarrow> st
      | Some node \<Rightarrow> st\<lparr>reserved_list := (reserved_list st)(node \<mapsto> ())\<rparr>"
  have "owner_to_primary_name (foldl ?f st names) = owner_to_primary_name st
    \<and> offered_names (foldl ?f st names) = offered_names st" for st :: registrar_storage
    by (induction names arbitrary: st) (auto split: option.splits)
  then show ?thesis by (simp add: registrar_genesis_build_def Let_def)
qed

lemma native_registered:
  assumes "testnet_genesis False native 1 native_balances 3 = Some g"
  shows "\<exists>s info. register native (Origin_Signed 2) [122] 2 None g = Inr s
    \<and> get_info 122 s = Some info \<and> ri_expire info = 31536000000
    \<and> owner_of 122 s = Some 2 \<and> rt_now s = 0 \<and> offered_name 122 s = None"
proof -
  have "label_bytes [122]" by (simp add: label_bytes_def is_ascii_alphanumeric_def)
  moreover have "name_node native [122] p = 122" for p by (simp add: name_node_last ascii_lower_def)
  ultimately show ?thesis
    using assms
    by (auto simp: testnet_genesis_def nft_create_class_def nft_empty_def native_z_free NATIVE_BASENODE_def native_base_large
       register_def demo_eval genesis_base_prices_def native_balances_def UNIT_def
       registrar_genesis_infos registrar_genesis_primary offered_name_def)
qed

text \<open>The chain after account 2 has registered the name \<open>z\<close>.\<close>

lemma native_chain:
  obtains g s info where "testnet_genesis False native 1 native_balances 3 = Some g" "reachable native g s"
    "get_info 122 s = Some info" "ri_expire info = 31536000000" "owner_of 122 s = Some 2" "rt_now s = 0"
    "offered_name 122 s = None"
proof -
  obtain g where g: "testnet_genesis False native 1 native_balances 3 = Some g"
    using native_genesis by blast
  obtain s info where r: "register native (Origin_Signed 2) [122] 2 None g = Inr s"
    and i: "get_info 122 s = Some info" "ri_expire info = 31536000000" "owner_of 122 s = Some 2"
      "rt_now s = 0" "offered_name 122 s = None"
    using native_registered [OF g] by blast
  have "execute native (Origin_Signed 2) (Call_register [122] 2 None) g = s"
    by (simp add: execute_def r)
  moreover have "subname_records (rt_registry g) 122 = None"
    using g by (auto simp: testnet_genesis_def registry_genesis_build_def)
  ultimately have "reachable native g s"
    using reachable.extrinsic [OF reachable.genesis, of native "Call_register [122] 2 None" "Origin_Signed 2" g]
    by (simp add: name_node_last ascii_lower_def)
  then show thesis using that g i by blast
qed

end
