(* ===== verification/Dns_Laws.thy ===== *)
theory Dns_Laws
  imports Dns_Server Genesis_Chain
begin

text \<open>
  What the DNS server guarantees: the pacing of answers, the Bloom filter's memory, the cap on
  requests in flight and the admission of denied names under every interleaving of requests, and,
  over the states of the chain, which names the zone denies and which records it serves.
\<close>

section \<open>The response queue\<close>

lemma queue_tick_eq:
  "queue_tick min_ms now q =
     (map snd (takeWhile (\<lambda>(entry, x). entry + min_ms \<le> now) q),
      dropWhile (\<lambda>(entry, x). entry + min_ms \<le> now) q)"
  by (induction min_ms now q rule: queue_tick.induct) auto

text \<open>
  The response queue never releases a request before it has waited for the minimum
  time.  A tick releases a front part of the queue in the order of arrival, each entry of which has
  waited long enough, and stops at one that has not; when the entries stand in the order of
  their times no request that has waited long enough is left behind.
\<close>
theorem queue_pacing:
  "\<exists>k. queue_tick min_ms now q = (map snd (take k q), drop k q)
     \<and> list_all (\<lambda>(entry, x). entry + min_ms \<le> now) (take k q)
     \<and> (drop k q = [] \<or> now < fst (hd (drop k q)) + min_ms)
     \<and> (sorted (map fst q) \<longrightarrow> list_all (\<lambda>(entry, x). now < entry + min_ms) (drop k q))"
proof -
  let ?P = "\<lambda>(entry, x). entry + min_ms \<le> now"
  let ?k = "length (takeWhile ?P q)"
  have tk: "take ?k q = takeWhile ?P q" by (metis takeWhile_eq_take)
  have dr: "drop ?k q = dropWhile ?P q" by (metis dropWhile_eq_drop)
  have hd: "dropWhile ?P q = [] \<or> \<not> ?P (hd (dropWhile ?P q))" using hd_dropWhile [of ?P q] by argo
  have "list_all (\<lambda>(entry, x). now < entry + min_ms) (dropWhile ?P q)" if "sorted (map fst q)"
    using that by (induction q) (fastforce simp: list_all_iff)+
  then show ?thesis
    using hd by (intro exI [of _ ?k]) (auto simp: queue_tick_eq tk dr list_all_iff dest: set_takeWhileD)
qed

theorem queue_pacing_witness: "fst (queue_tick 5 12 [(3, 1), (9, 2)]) = [1 :: nat]"
proof -
  let ?q = "[(3, 1), (9, 2)] :: (nat \<times> nat) list"
  obtain k where k: "queue_tick 5 12 ?q = (map snd (take k ?q), drop k ?q)"
    "list_all (\<lambda>(entry, x). entry + 5 \<le> 12) (take k ?q)"
    "drop k ?q = [] \<or> 12 < fst (hd (drop k ?q)) + 5"
    using queue_pacing [of 5 12 ?q] by blast
  then have "k = 1" by (auto simp: take_Cons' drop_Cons' split: if_splits)
  with k(1) show ?thesis by simp
qed

section \<open>The Bloom filter\<close>

text \<open>
  What the library documents: a new or cleared filter contains nothing, and an inserted key
  is found.
\<close>

definition bloom_laws :: "('srl, 'zrl, 'drl, 'pc, 'uc, 'bf) server_lib \<Rightarrow> bool" where
  "bloom_laws lib \<longleftrightarrow> (\<forall>n. \<not> bloom_check lib n (bloom_empty lib))
     \<and> (\<forall>n b. \<not> bloom_check lib n (bloom_clear lib b))
     \<and> (\<forall>n m b. n = m \<or> bloom_check lib n b \<longrightarrow> bloom_check lib n (bloom_insert lib m b))"

lemma bloom_filling:
  assumes "bloom_laws lib" "capacity < 2 ^ 60" "length names < capacity * 4 div 5"
    "bl = foldl (\<lambda>bl n. double_bloom_set lib n bl) (double_bloom_new lib capacity) names"
  shows "bl_primary_count bl = of_nat (length names) \<and> bl_secondary bl = bloom_empty lib
    \<and> bl_saturation_count bl = of_nat (capacity * 4 div 5)
    \<and> list_all (\<lambda>n. bloom_check lib n (bl_primary bl)) names"
  using assms(3,4)
proof (induction names arbitrary: bl rule: rev_induct)
  case Nil
  then show ?case by (simp add: double_bloom_new_def)
next
  case (snoc n names)
  let ?b = "foldl (\<lambda>bl n. double_bloom_set lib n bl) (double_bloom_new lib capacity) names"
  have ih: "bl_primary_count ?b = of_nat (length names)" "bl_secondary ?b = bloom_empty lib"
    "bl_saturation_count ?b = of_nat (capacity * 4 div 5)"
    "list_all (\<lambda>n. bloom_check lib n (bl_primary ?b)) names"
    using snoc by auto
  have "unat (of_nat (Suc (length names)) :: u64) = Suc (length names)"
    "unat (of_nat (capacity * 4 div 5) :: u64) = capacity * 4 div 5"
    using snoc(2) assms(2) by (auto simp: unat_of_nat simp del: of_nat_Suc)
  then have "\<not> (of_nat (capacity * 4 div 5) :: u64) \<le> of_nat (length names) + 1"
    using snoc(2) by (simp add: word_le_nat_alt add.commute)
  then show ?case
    using snoc(3) ih assms(1)
    by (auto simp: double_bloom_set_def Let_def bloom_laws_def list_all_iff add.commute)
qed

text \<open>
  C30: The double filter finds every name inserted until it fills up, and forgets all of
  them at the insertion that fills it: the filter that takes over has never been written, so no
  name is found in either.
\<close>
theorem bloom_promotion_forgets:
  assumes "bloom_laws lib" "capacity < 2 ^ 60"
    "bl = foldl (\<lambda>bl n. double_bloom_set lib n bl) (double_bloom_new lib capacity) names"
  shows "(length names < capacity * 4 div 5 \<longrightarrow> list_all (\<lambda>n. double_bloom_check lib n bl) names)
    \<and> (0 < length names \<and> length names = capacity * 4 div 5 \<longrightarrow> \<not> double_bloom_check lib n bl)"
proof (intro conjI impI)
  assume "length names < capacity * 4 div 5"
  from bloom_filling [OF assms(1,2) this assms(3)] show "list_all (\<lambda>n. double_bloom_check lib n bl) names"
    by (auto simp: double_bloom_check_def list_all_iff)
next
  assume full: "0 < length names \<and> length names = capacity * 4 div 5"
  then obtain ns m where names: "names = ns @ [m]" by (metis length_greater_0_conv rev_exhaust)
  let ?b = "foldl (\<lambda>bl n. double_bloom_set lib n bl) (double_bloom_new lib capacity) ns"
  have eq: "capacity * 4 div 5 = Suc (length ns)" using full names by simp
  then have "length ns < capacity * 4 div 5" by simp
  from bloom_filling [OF assms(1,2) this refl]
  have b: "bl_primary_count ?b = of_nat (length ns)" "bl_secondary ?b = bloom_empty lib"
    "bl_saturation_count ?b = of_nat (length ns) + 1"
    by (simp_all add: eq add.commute)
  then have "bl = double_bloom_set lib m ?b" "bl_secondary bl = bloom_clear lib (bloom_insert lib m (bl_primary ?b))"
      "bl_primary bl = bloom_empty lib"
    by (simp_all add: assms(3) names double_bloom_set_def Let_def)
  then show "\<not> double_bloom_check lib n bl"
    using assms(1) by (simp add: double_bloom_check_def bloom_laws_def)
qed


section \<open>Interleaved requests\<close>

text \<open>
  A server at work: its handler, the requests that wait for the zone's answer, and the names
  the zone has denied so far.  Requests arrive and finish in any order and at any time.
\<close>

inductive server_run ::
  "('srl, 'zrl, 'drl, 'pc, 'uc, 'bf) server_lib \<Rightarrow> ('srl, 'zrl, 'drl, 'pc, 'uc, 'bf) handler
    \<Rightarrow> ('srl, 'zrl, 'drl, 'pc, 'uc, 'bf) handler \<Rightarrow> request list \<Rightarrow> u8 list list \<Rightarrow> bool"
  for lib :: "('srl, 'zrl, 'drl, 'pc, 'uc, 'bf) server_lib"
    and h0 :: "('srl, 'zrl, 'drl, 'pc, 'uc, 'bf) handler" where
  started: "server_run lib h0 h0 [] []"
| arrived: "server_run lib h0 h pending denied \<Longrightarrow> admit_request lib now req h = (v, h')
    \<Longrightarrow> server_run lib h0 h' (if v = Admitted then pending @ [req] else pending) denied"
| answered: "server_run lib h0 h (before @ req # after) denied
    \<Longrightarrow> finish_request lib now req answer h = (code, h')
    \<Longrightarrow> server_run lib h0 h' (before @ after)
          (if answer = Some NXDomain then query_name req # denied else denied)"

text \<open>The checks change neither the counter nor the caches of names.\<close>

lemma run_checks_frame:
  assumes "run_checks lib now req h = (v, h')"
  shows "inflight h' = inflight h \<and> max_inflight h' = max_inflight h
    \<and> neg_cache h' = neg_cache h \<and> first_seen h' = first_seen h \<and> bloom h' = bloom h"
  using assms
  by (auto simp: run_checks_def check_zone_def check_storage_def record_penalty_def count_metric_def Let_def
      split: if_splits prod.splits option.splits)

lemma admit_request_frame:
  assumes "admit_request lib now req h = (v, h')"
  shows "max_inflight h' = max_inflight h" "neg_cache h' = neg_cache h" "first_seen h' = first_seen h"
    "inflight h' = (if v = Admitted then inflight h + 1 else inflight h)"
    "v = Admitted \<Longrightarrow> inflight h < max_inflight h"
  using assms
  by (auto simp: admit_request_def count_metric_def Let_def dest!: run_checks_frame split: if_splits prod.splits)

lemma finish_request_frame:
  assumes "finish_request lib now req answer h = (code, h')"
  shows "max_inflight h' = max_inflight h" "inflight h' = inflight h - 1"
    "neg_cache h' = (if answer = Some NXDomain \<and> cache_has lib (query_name req) now (first_seen h)
       then cache_put lib (query_name req) now (neg_cache h) else neg_cache h)"
    "first_seen h' = (if answer \<noteq> Some NXDomain then first_seen h
       else if cache_has lib (query_name req) now (first_seen h)
       then cache_drop lib (query_name req) now (first_seen h)
       else cache_put lib (query_name req) now (first_seen h))"
  using assms
  by (auto simp: finish_request_def note_nxdomain_def count_metric_def Let_def split: option.splits if_splits)

text \<open>
  C29: At most a hundred requests are in the server at a time, whatever their order: the
  counter of requests in flight is the number of requests that wait for the zone, it returns to
  zero when they are answered, and it never exceeds the cap.
\<close>
theorem inflight_bounded:
  assumes "server_run lib (handler_new lib src glob zone penalties neg seen storage) h pending denied"
  shows "unat (inflight h) = length pending \<and> length pending \<le> 100"
proof -
  have "unat (inflight h) = length pending \<and> length pending \<le> 100 \<and> max_inflight h = 100"
    using assms
  proof (induction rule: server_run.induct)
    case started
    then show ?case by (simp add: handler_new_def)
  next
    case (arrived h pending denied now req v h')
    note f = admit_request_frame [OF arrived(2)]
    show ?case
    proof (cases "v = Admitted")
      case True
      then have lt: "inflight h < 100" using f(5) arrived(3) by simp
      then have "unat (inflight h + 1) = Suc (unat (inflight h))" by (rule unat_Suc_below)
      then show ?thesis using True f lt arrived(3) by (simp add: word_less_nat_alt)
    qed (use f arrived(3) in simp)
  next
    case (answered h before req "after" denied now answer code h')
    then have "unat (inflight h - 1) = unat (inflight h) - 1"
      by (simp add: unat_sub word_le_nat_alt)
    then show ?case
      using finish_request_frame [OF answered(2)] answered(3) by simp
  qed
  then show ?thesis by simp
qed

text \<open>
  What the library documents of its caches: an insertion adds its key only, and a removal
  adds nothing.
\<close>

definition cache_laws :: "('srl, 'zrl, 'drl, 'pc, 'uc, 'bf) server_lib \<Rightarrow> bool" where
  "cache_laws lib \<longleftrightarrow>
     (\<forall>n m t t' c. cache_has lib n t (cache_put lib m t' c) \<longrightarrow> n = m \<or> cache_has lib n t c)
     \<and> (\<forall>n m t t' c. cache_has lib n t (cache_drop lib m t' c) \<longrightarrow> cache_has lib n t c)"

lemma cache_lawsD:
  assumes "cache_laws lib"
  shows "cache_has lib n t (cache_put lib m t' c) \<Longrightarrow> n = m \<or> cache_has lib n t c"
    "cache_has lib n t (cache_drop lib m t' c) \<Longrightarrow> cache_has lib n t c"
  using assms unfolding cache_laws_def by blast+

text \<open>Where an entry of a cache after an answer comes from.\<close>

lemma finish_request_caches:
  assumes "cache_laws lib" "finish_request lib now req answer h = (code, h')"
  shows "cache_has lib n t (neg_cache h') \<Longrightarrow> cache_has lib n t (neg_cache h)
      \<or> n = query_name req \<and> answer = Some NXDomain \<and> cache_has lib n now (first_seen h)"
    "cache_has lib n t (first_seen h') \<Longrightarrow> cache_has lib n t (first_seen h)
      \<or> n = query_name req \<and> answer = Some NXDomain"
proof -
  note f = finish_request_frame(3,4) [OF assms(2)]
  show "cache_has lib n t (neg_cache h') \<Longrightarrow> cache_has lib n t (neg_cache h)
      \<or> n = query_name req \<and> answer = Some NXDomain \<and> cache_has lib n now (first_seen h)"
    unfolding f(1) by (auto dest: cache_lawsD(1) [OF assms(1)] split: if_splits)
  show "cache_has lib n t (first_seen h') \<Longrightarrow> cache_has lib n t (first_seen h)
      \<or> n = query_name req \<and> answer = Some NXDomain"
    unfolding f(2) by (auto dest: cache_lawsD [OF assms(1)] split: if_splits)
qed

text \<open>
  C28: A name enters the negative cache only after the zone has denied it twice: on a server
  that starts with empty caches, whatever requests arrive and finish in whatever order, every
  name the cache answers for has at least two NXDOMAIN answers of the zone behind it.
\<close>
theorem negative_cache_admission:
  assumes "server_run lib (handler_new lib src glob zone penalties neg seen storage) h pending denied"
    "cache_laws lib" "\<forall>n t. \<not> cache_has lib n t neg" "\<forall>n t. \<not> cache_has lib n t seen"
    "cache_has lib name now (neg_cache h)"
  shows "2 \<le> count_list denied name"
proof -
  have "(\<forall>n t. cache_has lib n t (neg_cache h) \<longrightarrow> 2 \<le> count_list denied n)
      \<and> (\<forall>n t. cache_has lib n t (first_seen h) \<longrightarrow> 1 \<le> count_list denied n)"
    using assms(1)
  proof (induction rule: server_run.induct)
    case started
    then show ?case using assms(3,4) by (simp add: handler_new_def)
  next
    case (arrived h pending denied now req v h')
    then show ?case using admit_request_frame(2,3) [OF arrived(2)] by simp
  next
    case (answered h before req "after" denied now answer code h')
    let ?d = "if answer = Some NXDomain then query_name req # denied else denied"
    have ih: "cache_has lib n t (neg_cache h) \<Longrightarrow> 2 \<le> count_list denied n"
      "cache_has lib n t (first_seen h) \<Longrightarrow> 1 \<le> count_list denied n" for n t
      using answered(3) by blast+
    have mono: "count_list denied n \<le> count_list ?d n" for n by simp
    have "2 \<le> count_list ?d n" if "cache_has lib n t (neg_cache h')" for n t
      using finish_request_caches(1) [OF assms(2) answered(2) that]
    proof
      assume "cache_has lib n t (neg_cache h)"
      then show ?thesis using ih(1) mono order_trans by blast
    next
      assume "n = query_name req \<and> answer = Some NXDomain \<and> cache_has lib n now (first_seen h)"
      then show ?thesis using ih(2) [of n now] by auto
    qed
    moreover have "1 \<le> count_list ?d n" if "cache_has lib n t (first_seen h')" for n t
      using finish_request_caches(2) [OF assms(2) answered(2) that]
    proof
      assume "cache_has lib n t (first_seen h)"
      then show ?thesis using ih(2) mono order_trans by blast
    qed simp
    ultimately show ?case by blast
  qed
  with assms(5) show ?thesis by blast
qed


section \<open>The zone and the chain\<close>

lemma to_hickory_of: "from_hickory q = Some t \<Longrightarrow> to_hickory t = q"
  by (cases q) (auto simp: to_hickory_from_unknown)

lemma rpc_not_served: "from_hickory q = Some RT_RPC \<Longrightarrow> rdata_of lib RT_RPC data q = None"
  using to_hickory_of [of q RT_RPC] by (auto simp: rpc_rdata_def split: option.splits)

lemma any_not_admitted:
  "admit_request lib now req h = (Admitted, h') \<Longrightarrow> (txt, q) \<in> set (rq_queries req) \<Longrightarrow> q \<noteq> H_ANY"
  by (auto simp: admit_request_def run_checks_def Let_def list_ex_iff split: if_splits prod.splits)

text \<open>
  C10: A DNS answer is a stored record of the type the client asked for.  When the server
  admits a query and the zone answers it with records from the chain, the question was for a
  type that DNS may serve, which is never a chain-only type and never RPC, and each record has the
  queried name, the queried type and the data stored for that type at the name's node.
\<close>
theorem dns_answers_the_question:
  assumes "admit_request slib now req h = (Admitted, h')" "(txt, q) \<in> set (rq_queries req)"
    "authority_lookup lib org block (\<lambda>l rts. Some (api_lookup_by_name kusama hash l rts s)) name q
       = Lookup_Records recs" "name \<noteq> org" "rec \<in> set recs"
  shows "\<exists>lbl t. extract_label lib name org = Some lbl \<and> from_hickory q = Some t
    \<and> \<not> is_polkadot_only t \<and> t \<noteq> RT_RPC
    \<and> dr_name rec = name \<and> rdata_type (dr_data rec) = q
    \<and> rdata_of lib t (get_record (rt_resolvers s)
          (case parse_name_to_node hash lbl (NATIVE_BASENODE kusama) of None \<Rightarrow> 0 | Some n \<Rightarrow> n) t) q
        = Some (dr_data rec)"
proof -
  have q: "q \<noteq> H_ANY" by (rule any_not_admitted [OF assms(1,2)])
  obtain lbl t where l: "extract_label lib name org = Some lbl" and t: "from_hickory q = Some t"
    and recs: "recs = convert_records lib name q 0 (api_lookup_by_name kusama hash lbl [t] s) []"
    using assms(3,4) q
    by (auto simp: authority_lookup_def Let_def split: option.splits if_splits)
  obtain t' data where m: "(t', data) \<in> set (api_lookup_by_name kusama hash lbl [t] s)"
    and c: "pns_record_to_dns lib name t' data q = Some rec"
    using set_convert_records [OF assms(5) [unfolded recs]] by auto
  note r = pns_record_to_dns_Some [OF c]
  have t': "t' = t" and d: "data = get_record (rt_resolvers s)
      (case parse_name_to_node hash lbl (NATIVE_BASENODE kusama) of None \<Rightarrow> 0 | Some n \<Rightarrow> n) t"
    using m r(1) by (auto simp: api_lookup_by_name_def in_lookup is_polkadot_only_def)
  have "t \<noteq> RT_RPC" using rpc_not_served [of q lib data] t r(2) t' by auto
  then show ?thesis
    using l t r t' d rdata_of_type [OF r(2)] to_hickory_of [OF t] by auto
qed



section \<open>An example server\<close>

text \<open>Limiters that always agree, caches and filters that are sets, and names that are their text.\<close>

definition demo_server_lib ::
  "(unit, unit, unit, subnet \<rightharpoonup> penalty_state, u8 list set, u8 list set) server_lib" where
  "demo_server_lib =
     \<lparr>src_check = \<lambda>_ _ u. (True, u), zone_check = \<lambda>_ _ u. (True, u), direct_check = \<lambda>_ u. (True, u),
      penalty_get = \<lambda>k _ m. m k, penalty_put = \<lambda>k p _ m. m(k \<mapsto> p),
      cache_has = \<lambda>n _ c. n \<in> c, cache_put = \<lambda>n _ c. insert n c, cache_drop = \<lambda>n _ c. c - {n},
      bloom_empty = {}, bloom_check = \<lambda>n b. n \<in> b, bloom_insert = insert, bloom_clear = \<lambda>_. {}\<rparr>"

definition demo_handler ::
  "(unit, unit, unit, subnet \<rightharpoonup> penalty_state, u8 list set, u8 list set) handler" where
  "demo_handler = handler_new demo_server_lib () () () Map.empty {} {} ()"

definition demo_names :: "u8 list name_lib" where
  "demo_names = \<lparr>name_from_str = Some, name_to_string = (\<lambda>n. n), default_class = Class_IN\<rparr>"

definition demo_zone :: "u8 list" where "demo_zone = [100, 111, 116, 46]"

definition demo_name :: "u8 list" where "demo_name = [122, 46, 100, 111, 116, 46]"

definition demo_query :: "hickory_type \<Rightarrow> request" where
  "demo_query q = \<lparr>rq_src = V4 [10, 0, 0, 1], rq_queries = [(demo_name, q)]\<rparr>"

lemma demo_admitted:
  assumes "q \<noteq> H_ANY" "n < 100"
  shows "admit_request demo_server_lib 0 (demo_query q) (demo_handler\<lparr>inflight := n\<rparr>)
    = (Admitted, demo_handler\<lparr>inflight := n + 1\<rparr>)"
  using assms
  by (simp add: admit_request_def run_checks_def Let_def not_le [symmetric] check_zone_def check_storage_def is_penalised_def
      demo_query_def demo_handler_def handler_new_def demo_server_lib_def demo_name_def query_name_def zone_key_def
      labels_valid_def dot_byte_def)

lemma demo_server_laws: "bloom_laws demo_server_lib" "cache_laws demo_server_lib"
  by (auto simp: bloom_laws_def cache_laws_def demo_server_lib_def)

lemma demo_label: "demo_name \<noteq> demo_zone" "extract_label demo_names demo_name demo_zone = Some [122]"
  by (simp_all add: extract_label_def demo_names_def demo_name_def demo_zone_def strip_suffix_def dot_byte_def)

lemma demo_z_node: "parse_name_to_node last_hash [122] (NATIVE_BASENODE False) = Some 122"
proof -
  have "label_bytes [122]" by (simp add: label_bytes_def is_ascii_alphanumeric_def)
  then have "parse_name_to_node last_hash [122] (NATIVE_BASENODE False) = Some (name_node native [122] (NATIVE_BASENODE False))"
    by (simp add: parse_name_plain label_new_eq encode_with_node_def name_node_def dot_byte_def)
  then show ?thesis by (simp add: name_node_last ascii_lower_def)
qed

theorem bloom_promotion_forgets_witness:
  "\<not> double_bloom_check demo_server_lib [97] (foldl (\<lambda>bl n. double_bloom_set demo_server_lib n bl)
      (double_bloom_new demo_server_lib 3) [[97], [98]])"
  using bloom_promotion_forgets [OF demo_server_laws(1) _ refl, of 3 "[[97], [98]]" "[97]"] by simp

lemma demo_start: "demo_handler\<lparr>inflight := 0\<rparr> = demo_handler"
  by (simp add: demo_handler_def handler_new_def)

lemma demo_waiting:
  "server_run demo_server_lib demo_handler (demo_handler\<lparr>inflight := 1\<rparr>) [demo_query H_A] []"
  "server_run demo_server_lib demo_handler (demo_handler\<lparr>inflight := 2\<rparr>) [demo_query H_A, demo_query H_A] []"
proof -
  show 1: "server_run demo_server_lib demo_handler (demo_handler\<lparr>inflight := 1\<rparr>) [demo_query H_A] []"
    using server_run.arrived [OF server_run.started demo_admitted [of H_A 0, unfolded demo_start]] by simp
  show "server_run demo_server_lib demo_handler (demo_handler\<lparr>inflight := 2\<rparr>) [demo_query H_A, demo_query H_A] []"
    using server_run.arrived [OF 1 demo_admitted] by simp
qed

theorem inflight_bounded_witness:
  "server_run demo_server_lib demo_handler (demo_handler\<lparr>inflight := 1\<rparr>) [demo_query H_A] []
   \<and> unat (inflight (demo_handler\<lparr>inflight := 1\<rparr>)) = length [demo_query H_A]"
  using demo_waiting(1) inflight_bounded [OF demo_waiting(1) [unfolded demo_handler_def]]
  by (simp add: demo_handler_def)

theorem negative_cache_admission_witness:
  "\<exists>h. server_run demo_server_lib demo_handler h [] [demo_name, demo_name]
     \<and> cache_has demo_server_lib demo_name 0 (neg_cache h) \<and> 2 \<le> count_list [demo_name, demo_name] demo_name"
proof -
  let ?h2 = "demo_handler\<lparr>inflight := 2\<rparr>" and ?q = "demo_query H_A"
  have q: "query_name ?q = demo_name" by (simp add: demo_query_def query_name_def)
  obtain c3 h3 where f3: "finish_request demo_server_lib 0 ?q (Some NXDomain) ?h2 = (c3, h3)" by fastforce
  obtain c4 h4 where f4: "finish_request demo_server_lib 0 ?q (Some NXDomain) h3 = (c4, h4)" by fastforce
  have "first_seen h3 = {demo_name}"
    using finish_request_frame(4) [OF f3] by (simp add: q demo_handler_def handler_new_def demo_server_lib_def)
  then have n: "cache_has demo_server_lib demo_name 0 (neg_cache h4)"
    using finish_request_frame(3) [OF f4] by (simp add: q demo_server_lib_def)
  have "server_run demo_server_lib demo_handler h3 [?q] [demo_name]"
    using server_run.answered [of demo_server_lib demo_handler ?h2 "[]" ?q "[?q]", OF _ f3] demo_waiting(2) by (simp add: q)
  then have r: "server_run demo_server_lib demo_handler h4 [] [demo_name, demo_name]"
    using server_run.answered [of demo_server_lib demo_handler h3 "[]" ?q "[]", OF _ f4] by (simp add: q)
  then show ?thesis
    using negative_cache_admission [OF r [unfolded demo_handler_def] demo_server_laws(2) _ _ n] n
    by (auto simp: demo_server_lib_def)
qed


definition demo_text :: "demo_balances runtime" where
  "demo_text = demo_base\<lparr>rt_resolvers := \<lparr>texts = \<lambda>_. [], records = (\<lambda>_. [])(122 := [(RT_TXT, [104, 105])])\<rparr>\<rparr>"

theorem dns_answers_the_question_witness:
  "\<exists>rec. authority_lookup demo_names demo_zone 7 (\<lambda>l rts. Some (api_lookup_by_name False last_hash l rts demo_text))
       demo_name H_TXT = Lookup_Records [rec]
     \<and> rdata_type (dr_data rec) = H_TXT"
proof -
  let ?rec = "\<lparr>dr_name = demo_name, dr_ttl = 300, dr_class = Class_IN, dr_data = R_TXT [[104, 105]]\<rparr>"
  have "utf8_decode [104, 105] \<noteq> None" by (simp add: utf8_next_ascii)
  then have "pns_record_to_dns demo_names demo_name RT_TXT [104, 105] H_TXT = Some ?rec"
    by (simp add: pns_record_to_dns_def is_polkadot_only_def from_rdata_def from_utf8_lossy_valid del: from_utf8_lossy.simps)
  moreover have "api_lookup_by_name False last_hash [122] [RT_TXT] demo_text = [(RT_TXT, [104, 105])]"
    by (simp add: api_lookup_by_name_def demo_z_node lookup_eq lookup_blocked_def get_record_def dm_get_def demo_text_def)
  ultimately have a: "authority_lookup demo_names demo_zone 7
      (\<lambda>l rts. Some (api_lookup_by_name False last_hash l rts demo_text)) demo_name H_TXT = Lookup_Records [?rec]"
    by (simp add: authority_lookup_def demo_label)
  have "(demo_name, H_TXT) \<in> set (rq_queries (demo_query H_TXT))" by (simp add: demo_query_def)
  from dns_answers_the_question [OF demo_admitted [of H_TXT 0, simplified] this a demo_label(1), of ?rec] a show ?thesis
    by auto
qed

end
