(* ===== verification/Template_Pallet.thy ===== *)
theory Template_Pallet
  imports Prelude
begin

text \<open>
  The template pallet that the runtime still composes, src/pallets/template/src/lib.rs: one
  stored number, a call that sets it and a call that increments it.
\<close>

section \<open>Storage and errors\<close>

datatype template_error = Template_BadOrigin | Template_NoneValue | Template_StorageOverflow

datatype 'a template_event = SomethingStored u32 'a

record 'a template_storage =
  something :: "u32 option"
  template_events :: "'a template_event list"

section \<open>Calls\<close>

text \<open>The origin is the signing account, \<open>None\<close> for an origin that is not signed.\<close>

definition do_something ::
  "'a option \<Rightarrow> u32 \<Rightarrow> 'a template_storage \<Rightarrow> template_error + 'a template_storage" where
  "do_something org new st =
     and_then (ok_or org Template_BadOrigin) (\<lambda>who.
       Inr (st\<lparr>something := Some new, template_events := template_events st @ [SomethingStored new who]\<rparr>))"

definition cause_error ::
  "'a option \<Rightarrow> 'a template_storage \<Rightarrow> template_error + 'a template_storage" where
  "cause_error org st =
     and_then (ok_or org Template_BadOrigin) (\<lambda>_.
       case something st of
         None \<Rightarrow> Inl Template_NoneValue
       | Some old \<Rightarrow>
           and_then (ok_or (checked_add old 1) Template_StorageOverflow) (\<lambda>new.
             Inr (st\<lparr>something := Some new\<rparr>)))"

section \<open>Facts\<close>

text \<open>The increment fails exactly without a value and at the largest one.\<close>

lemma cause_error_ok:
  "(\<exists>st'. cause_error (Some who) st = Inr st') \<longleftrightarrow>
     (\<exists>old. something st = Some old \<and> unat old + 1 < 2 ^ 32)"
  by (cases "something st") (simp_all add: cause_error_def checked_add_def)

end
