(* ===== verification/Auction.thy ===== *)
theory Auction
  imports Runtime_State
begin

text \<open>
  The auction pallet, src/pallets/pns-registrar/src/auction.rs.  It is not part of the runtime
  (the module is commented out in src/pallets/pns-registrar/src/lib.rs) and it refers to a
  domain-name type and to registrar and registry operations that are not in the repository;
  these, the currency and the randomness source are fields of \<open>auction_config\<close> over an opaque
  rest of the chain \<open>'w\<close>.

  A bid opens an auction of its name or raises the leading bid of the current sample.  The
  hook \<open>on_initialize\<close> carries the leading bid over to the next sample at every block and,
  once the randomness is known late enough, draws the sample whose leading bid wins.

  The hook can panic, on a missing bid (\<open>expect\<close>) and on the remainder by a zero ending
  period; \<open>None\<close> stands for a panic.  The weight it returns is not modelled.
\<close>

section \<open>Status, events and errors\<close>

datatype AuctionStatus =
    StartingPeriod
  | AuctionNotExist
  | EndingPeriod u32 u32
  | VrfDelay u32

definition is_in_progress :: "AuctionStatus \<Rightarrow> bool" where
  "is_in_progress st = (st \<noteq> AuctionNotExist)"

definition is_starting :: "AuctionStatus \<Rightarrow> bool" where
  "is_starting st = (st = StartingPeriod)"

definition is_ending :: "AuctionStatus \<Rightarrow> (u32 \<times> u32) option" where
  "is_ending st = (case st of EndingPeriod sample sub_sample \<Rightarrow> Some (sample, sub_sample) | _ \<Rightarrow> None)"

definition is_vrf :: "AuctionStatus \<Rightarrow> bool" where
  "is_vrf st = (case st of VrfDelay _ \<Rightarrow> True | _ \<Rightarrow> False)"

type_synonym winner_data = "account_id \<times> u128"

datatype auction_event =
    ControllerAdded account_id
  | AuctionStarted u32 domain_hash
  | WinningOffset domain_hash u32
  | Reserved account_id u128 u128
  | Unreserved account_id u128
  | BidAccepted account_id domain_hash u128
  | ReserveConfiscated domain_hash account_id u128

datatype auction_error =
    NameHasRegistered | Auction_NotExist | AuctionEnded | BidNotEnough | DomainBuildFailed
  | UnAnctionable | GetNodeFailed

text \<open>An error of the pallet, or one that a call into another pallet returned.\<close>

datatype auction_failure = AuctionError auction_error | AuctionDispatch dispatch_error

section \<open>Storage and configuration\<close>

text \<open>
  \<open>ongoing_auctions\<close> is a \<open>BTreeSet\<close>: an ascending list without repetitions.  \<open>au_block\<close> is
  the block number of frame-system.
\<close>

record 'w auction_state =
  auction_info :: "domain_hash \<rightharpoonup> u32"
  ongoing_auctions :: "domain_hash list"
  reserved_amounts :: "(domain_hash, account_id, u128) dmap"
  winning :: "(domain_hash, u32, winner_data) dmap"
  au_world :: 'w
  au_block :: u32
  au_events :: "auction_event list"

text \<open>
  A call that fails in the hook is not rolled back: \<open>ac_mint\<close> returns the chain it leaves
  behind together with its result.  The currency changes nothing when it refuses.
\<close>

record ('w, 'd) auction_config =
  ac_ending_period :: u32
  ac_sample_length :: u32
  ac_minimal_auction_price :: u128
  ac_offical :: account_id
  ac_reserve :: "account_id \<Rightarrow> u128 \<Rightarrow> 'w \<Rightarrow> 'w result"
  ac_unreserve :: "account_id \<Rightarrow> u128 \<Rightarrow> 'w \<Rightarrow> 'w"
  ac_transfer :: "account_id \<Rightarrow> account_id \<Rightarrow> u128 \<Rightarrow> 'w \<Rightarrow> 'w result"
  ac_is_registered :: "domain_hash \<Rightarrow> 'w \<Rightarrow> bool"
  ac_domain_new :: "u8 list \<Rightarrow> 'd option"
  ac_is_anctionable :: "'d \<Rightarrow> 'w \<Rightarrow> bool"
  ac_last_node :: "'d \<Rightarrow> domain_hash option"
  ac_set_expires :: "domain_hash \<Rightarrow> 'w \<Rightarrow> 'w"
  ac_mint :: "account_id \<Rightarrow> domain_hash \<Rightarrow> 'w \<Rightarrow> unit result \<times> 'w"
  ac_random :: "'w \<Rightarrow> h256 \<times> u32"

definition auction_deposit :: "auction_event \<Rightarrow> 'w auction_state \<Rightarrow> 'w auction_state" where
  "auction_deposit e s = s\<lparr>au_events := au_events s @ [e]\<rparr>"

definition sample_len :: "('w, 'd) auction_config \<Rightarrow> u32" where
  "sample_len c = max (ac_sample_length c) 1"

text \<open>\<open>BlockNumber::decode\<close> on the bytes of the seed: four bytes, the least significant first.\<close>

definition decode_block_number :: "h256 \<Rightarrow> u32" where
  "decode_block_number h = (case h256_encode h of
     b0 # b1 # b2 # b3 # _ \<Rightarrow> ucast b0 + 2 ^ 8 * ucast b1 + 2 ^ 16 * ucast b2 + 2 ^ 24 * ucast b3
   | _ \<Rightarrow> 0)"

section \<open>Bids\<close>

definition ongoing_insert :: "domain_hash \<Rightarrow> domain_hash list \<Rightarrow> domain_hash list" where
  "ongoing_insert node nodes = (if node \<in> set nodes then nodes else insort node nodes)"

definition do_new_auction ::
  "('w, 'd) auction_config \<Rightarrow> domain_hash \<Rightarrow> u128 \<Rightarrow> 'w auction_state
    \<Rightarrow> auction_failure + 'w auction_state" where
  "do_new_auction c node amount s =
     and_then (ensure (amount > ac_minimal_auction_price c) (AuctionError BidNotEnough)) (\<lambda>_.
     let now = au_block s in
     Inr (auction_deposit (AuctionStarted now node)
       (s\<lparr>auction_info := (auction_info s)(node \<mapsto> now),
          ongoing_auctions := ongoing_insert node (ongoing_auctions s)\<rparr>)))"

definition auction_status ::
  "('w, 'd) auction_config \<Rightarrow> u32 \<Rightarrow> domain_hash \<Rightarrow> 'w auction_state \<Rightarrow> AuctionStatus" where
  "auction_status c now node s =
     (case auction_info s node of
        None \<Rightarrow> AuctionNotExist
      | Some start \<Rightarrow>
          (case checked_sub now start of
             None \<Rightarrow> StartingPeriod
           | Some duration \<Rightarrow>
               if duration < ac_ending_period c
               then EndingPeriod (duration div sample_len c) (duration mod sample_len c)
               else VrfDelay (duration - ac_ending_period c)))"

definition winning_before :: "domain_hash \<Rightarrow> u32 \<Rightarrow> 'w auction_state \<Rightarrow> winner_data option" where
  "winning_before node offset s =
     (case checked_sub offset 1 of None \<Rightarrow> None | Some sub_one \<Rightarrow> dm_get (winning s) node sub_one)"

definition current_winning :: "domain_hash \<Rightarrow> u32 \<Rightarrow> 'w auction_state \<Rightarrow> winner_data option" where
  "current_winning node offset s =
     (case dm_get (winning s) node offset of None \<Rightarrow> winning_before node offset s | Some w \<Rightarrow> Some w)"

definition reserve_bid ::
  "('w, 'd) auction_config \<Rightarrow> account_id \<Rightarrow> domain_hash \<Rightarrow> u128 \<Rightarrow> 'w auction_state
    \<Rightarrow> auction_failure + 'w auction_state" where
  "reserve_bid c bidder node amount s =
     (let already_reserved = (case dm_get (reserved_amounts s) node bidder of None \<Rightarrow> 0 | Some r \<Rightarrow> r) in
      case checked_sub amount already_reserved of
        None \<Rightarrow> Inr s
      | Some additional \<Rightarrow>
          and_then (map_err AuctionDispatch (ac_reserve c bidder additional (au_world s))) (\<lambda>w.
          Inr (auction_deposit (Reserved bidder additional amount)
            (s\<lparr>au_world := w, reserved_amounts := dm_insert node bidder amount (reserved_amounts s)\<rparr>))))"

definition place_bid ::
  "('w, 'd) auction_config \<Rightarrow> account_id \<Rightarrow> domain_hash \<Rightarrow> u128 \<Rightarrow> u32 \<Rightarrow> 'w auction_state
    \<Rightarrow> auction_failure + 'w auction_state" where
  "place_bid c bidder node amount offset s =
     (if (case current_winning node offset s of None \<Rightarrow> True | Some leader \<Rightarrow> amount > snd leader)
      then and_then (reserve_bid c bidder node amount s) (\<lambda>s.
        Inr (auction_deposit (BidAccepted bidder node amount)
          (s\<lparr>winning := dm_insert node offset (bidder, amount) (winning s)\<rparr>)))
      else Inr s)"

definition handle_bid ::
  "('w, 'd) auction_config \<Rightarrow> account_id \<Rightarrow> domain_hash \<Rightarrow> u128 \<Rightarrow> 'w auction_state
    \<Rightarrow> auction_failure + 'w auction_state" where
  "handle_bid c bidder node amount s =
     and_then (ensure (\<not> ac_is_registered c node (au_world s)) (AuctionError NameHasRegistered)) (\<lambda>_.
     and_then (case auction_status c (au_block s) node s of
         AuctionNotExist \<Rightarrow> and_then (do_new_auction c node amount s) (\<lambda>s. Inr (0, s))
       | StartingPeriod \<Rightarrow> Inr (0, s)
       | EndingPeriod offset _ \<Rightarrow> Inr (offset, s)
       | VrfDelay _ \<Rightarrow> Inl (AuctionError AuctionEnded)) (\<lambda>(offset, s).
       place_bid c bidder node amount offset s))"

definition bid ::
  "('w, 'd) auction_config \<Rightarrow> origin \<Rightarrow> u8 list \<Rightarrow> u128 \<Rightarrow> 'w auction_state
    \<Rightarrow> auction_failure + 'w auction_state" where
  "bid c org name amount s =
     and_then (map_err AuctionDispatch (ensure_signed org)) (\<lambda>who.
     and_then (ok_or (ac_domain_new c name) (AuctionError DomainBuildFailed)) (\<lambda>domain.
     and_then (ensure (ac_is_anctionable c domain (au_world s)) (AuctionError UnAnctionable)) (\<lambda>_.
     and_then (ok_or (ac_last_node c domain) (AuctionError GetNodeFailed)) (\<lambda>node.
       handle_bid c who node amount s))))"

section \<open>The end of an auction\<close>

definition drawn_offset :: "('w, 'd) auction_config \<Rightarrow> h256 \<Rightarrow> u32" where
  "drawn_offset c raw_offset = (decode_block_number raw_offset mod ac_ending_period c) div sample_len c"

definition check_auction_end ::
  "('w, 'd) auction_config \<Rightarrow> u32 \<Rightarrow> domain_hash \<Rightarrow> 'w auction_state
    \<Rightarrow> (winner_data option \<times> 'w auction_state) option" where
  "check_auction_end c now node s =
     (case auction_info s node of
        None \<Rightarrow> Some (None, s)
      | Some start_time \<Rightarrow>
          let late_end = saturating_add start_time (ac_ending_period c) in
          if now \<ge> late_end then
            (case ac_random c (au_world s) of (raw_offset, known_since) \<Rightarrow>
               if late_end \<le> known_since then
                 if ac_ending_period c = 0 then None
                 else let offset = drawn_offset c raw_offset;
                          s = auction_deposit (WinningOffset node offset) s
                      in Some (dm_get (winning s) node offset,
                           s\<lparr>winning := dm_clear node (winning s),
                             auction_info := (auction_info s)(node := None)\<rparr>)
               else Some (None, s))
          else Some (None, s))"

definition release_reserves ::
  "('w, 'd) auction_config \<Rightarrow> domain_hash \<Rightarrow> 'w auction_state \<Rightarrow> 'w auction_state" where
  "release_reserves c node s =
     s\<lparr>au_world := fold (\<lambda>(bidder, amount). ac_unreserve c bidder amount) (reserved_amounts s node) (au_world s),
       reserved_amounts := dm_clear node (reserved_amounts s)\<rparr>"

definition manage_auction_end ::
  "('w, 'd) auction_config \<Rightarrow> domain_hash \<Rightarrow> winner_data \<Rightarrow> 'w auction_state
    \<Rightarrow> unit result \<times> 'w auction_state" where
  "manage_auction_end c node winner_data s =
     (let s = release_reserves c node s;
          (winner, bid_value) = winner_data
      in case ac_transfer c winner (ac_offical c) bid_value (au_world s) of
           Inl e \<Rightarrow> (Inl e, s)
         | Inr w \<Rightarrow>
             let (res, w) = ac_mint c winner node (ac_set_expires c node w)
             in (res, s\<lparr>au_world := w\<rparr>))"

section \<open>The hook\<close>

definition carry_winning ::
  "('w, 'd) auction_config \<Rightarrow> u32 \<Rightarrow> domain_hash \<Rightarrow> 'w auction_state \<Rightarrow> 'w auction_state option" where
  "carry_winning c n node s =
     (case auction_status c n node s of
        EndingPeriod offset _ \<Rightarrow>
          if dm_contains (winning s) node offset then Some s
          else map_option (\<lambda>winning_data. s\<lparr>winning := dm_insert node offset winning_data (winning s)\<rparr>)
            (winning_before node offset s)
      | _ \<Rightarrow> Some s)"

definition on_initialize_node ::
  "('w, 'd) auction_config \<Rightarrow> u32 \<Rightarrow> domain_hash \<Rightarrow> 'w auction_state \<Rightarrow> 'w auction_state option" where
  "on_initialize_node c n node s =
     Option.bind (carry_winning c n node s) (\<lambda>s.
     Option.bind (check_auction_end c n node s) (\<lambda>(winner_data, s).
       case winner_data of
         None \<Rightarrow> Some s
       | Some winner_data \<Rightarrow> Some (snd (manage_auction_end c node winner_data s))))"

fun on_initialize_nodes ::
  "('w, 'd) auction_config \<Rightarrow> u32 \<Rightarrow> domain_hash list \<Rightarrow> 'w auction_state \<Rightarrow> 'w auction_state option" where
  "on_initialize_nodes c n [] s = Some s"
| "on_initialize_nodes c n (node # nodes) s =
     Option.bind (on_initialize_node c n node s) (on_initialize_nodes c n nodes)"

definition on_initialize ::
  "('w, 'd) auction_config \<Rightarrow> u32 \<Rightarrow> 'w auction_state \<Rightarrow> 'w auction_state option" where
  "on_initialize c n s = on_initialize_nodes c n (ongoing_auctions s) s"

section \<open>The rows of one name\<close>

text \<open>
  The operations touch the rows of one name only; \<open>same_auction\<close> says that two states have the
  same rows for a name.
\<close>

definition same_auction :: "domain_hash \<Rightarrow> 'w auction_state \<Rightarrow> 'w auction_state \<Rightarrow> bool" where
  "same_auction node s s' \<longleftrightarrow> auction_info s' node = auction_info s node
     \<and> dm_get (winning s') node = dm_get (winning s) node
     \<and> dm_get (reserved_amounts s') node = dm_get (reserved_amounts s) node"

lemma same_auction_refl [simp, intro]: "same_auction node s s"
  by (simp add: same_auction_def)

lemma same_auction_trans [trans]:
  "same_auction node s s' \<Longrightarrow> same_auction node s' s'' \<Longrightarrow> same_auction node s s''"
  by (simp add: same_auction_def)

lemma same_auction_simps [simp]:
  "same_auction node s (s'\<lparr>au_world := w\<rparr>) = same_auction node s s'"
  "same_auction node s (s'\<lparr>au_block := n\<rparr>) = same_auction node s s'"
  "same_auction node s (auction_deposit e s') = same_auction node s s'"
  by (simp_all add: same_auction_def auction_deposit_def)

lemma auction_deposit_sel [simp]:
  "auction_info (auction_deposit e s) = auction_info s"
  "ongoing_auctions (auction_deposit e s) = ongoing_auctions s"
  "reserved_amounts (auction_deposit e s) = reserved_amounts s"
  "winning (auction_deposit e s) = winning s"
  "au_world (auction_deposit e s) = au_world s"
  "au_block (auction_deposit e s) = au_block s"
  by (simp_all add: auction_deposit_def)

lemma set_ongoing_insert [simp]: "set (ongoing_insert node nodes) = insert node (set nodes)"
  by (auto simp: ongoing_insert_def set_insort_key)

lemma distinct_ongoing_insert [simp]: "distinct (ongoing_insert node nodes) = distinct nodes"
  by (simp add: ongoing_insert_def distinct_insort)

lemma sorted_ongoing_insert [simp]: "sorted nodes \<Longrightarrow> sorted (ongoing_insert node nodes)"
  by (simp add: ongoing_insert_def sorted_insort)

subsection \<open>Frames\<close>

lemma reserve_bid_frame:
  assumes "reserve_bid c bidder node amount s = Inr s'"
  shows "auction_info s' = auction_info s" "winning s' = winning s" "au_block s' = au_block s"
    "ongoing_auctions s' = ongoing_auctions s" "m \<noteq> node \<Longrightarrow> same_auction m s s'"
  using assms
  by (auto simp: reserve_bid_def Let_def result_simps same_auction_def fun_eq_iff dm_simps split: option.splits)

lemma place_bid_frame:
  assumes "place_bid c bidder node amount offset s = Inr s'"
  shows "auction_info s' = auction_info s" "au_block s' = au_block s"
    "ongoing_auctions s' = ongoing_auctions s" "m \<noteq> node \<Longrightarrow> same_auction m s s'"
  using assms
  by (auto simp: place_bid_def result_simps same_auction_def fun_eq_iff dm_simps split: if_splits
      dest: reserve_bid_frame)

text \<open>What a bidder has on record never falls, and it covers the bid.\<close>

lemma reserve_bid_covers:
  assumes "reserve_bid c bidder node amount s = Inr s'"
  shows "\<exists>r\<ge>amount. dm_get (reserved_amounts s') node bidder = Some r"
    "dm_get (reserved_amounts s) m b = Some r \<Longrightarrow> \<exists>r'\<ge>r. dm_get (reserved_amounts s') m b = Some r'"
  using assms
  by (auto simp: reserve_bid_def Let_def result_simps dm_simps checked_sub_def not_le
      split: option.splits if_splits intro: less_imp_le)

lemma carry_winning_frame:
  assumes "carry_winning c n node s = Some s'"
  shows "auction_info s' = auction_info s" "au_block s' = au_block s" "au_world s' = au_world s"
    "ongoing_auctions s' = ongoing_auctions s" "reserved_amounts s' = reserved_amounts s"
    "m \<noteq> node \<Longrightarrow> same_auction m s s'"
  using assms
  by (auto simp: carry_winning_def same_auction_def fun_eq_iff dm_simps
      split: AuctionStatus.splits if_splits)

lemma check_auction_end_frame:
  assumes "check_auction_end c n node s = Some (res, s')"
  shows "au_block s' = au_block s" "au_world s' = au_world s"
    "ongoing_auctions s' = ongoing_auctions s" "reserved_amounts s' = reserved_amounts s"
    "m \<noteq> node \<Longrightarrow> same_auction m s s'"
  using assms
  by (auto simp: check_auction_end_def Let_def same_auction_def fun_eq_iff dm_simps
      split: option.splits if_splits prod.splits)

lemma manage_auction_end_frame:
  assumes "manage_auction_end c node d s = (r, s')"
  shows "au_block s' = au_block s" "auction_info s' = auction_info s" "winning s' = winning s"
    "ongoing_auctions s' = ongoing_auctions s"
    "reserved_amounts s' = dm_clear node (reserved_amounts s)"
    "m \<noteq> node \<Longrightarrow> same_auction m s s'"
  using assms
  by (auto simp: manage_auction_end_def release_reserves_def Let_def same_auction_def fun_eq_iff dm_simps
      split: sum.splits prod.splits)

lemma on_initialize_node_frame:
  assumes "on_initialize_node c n node s = Some s'"
  shows "au_block s' = au_block s" "ongoing_auctions s' = ongoing_auctions s"
    "m \<noteq> node \<Longrightarrow> same_auction m s s'"
proof -
  obtain s1 res s2 where c: "carry_winning c n node s = Some s1"
    and e: "check_auction_end c n node s1 = Some (res, s2)"
    and s': "s' = (case res of None \<Rightarrow> s2 | Some d \<Rightarrow> snd (manage_auction_end c node d s2))"
    using assms by (auto simp: on_initialize_node_def bind_eq_Some_conv split: option.splits)
  have m: "au_block s' = au_block s2" "ongoing_auctions s' = ongoing_auctions s2"
    "m \<noteq> node \<Longrightarrow> same_auction m s2 s'" for m
    using manage_auction_end_frame [of c node "the res" s2 "fst (manage_auction_end c node (the res) s2)" s']
    by (auto simp: s' split: option.splits)
  note f = carry_winning_frame [OF c] check_auction_end_frame [OF e]
  show "au_block s' = au_block s" "ongoing_auctions s' = ongoing_auctions s" using m f by simp_all
  show "same_auction m s s'" if "m \<noteq> node"
    using that m(3) f(6,11) by (blast intro: same_auction_trans)
qed

lemma on_initialize_nodes_frame:
  assumes "on_initialize_nodes c n nodes s = Some s'"
  shows "au_block s' = au_block s" "ongoing_auctions s' = ongoing_auctions s"
    "m \<notin> set nodes \<Longrightarrow> same_auction m s s'"
  using assms
proof (induction nodes arbitrary: s)
  case (Cons node nodes)
  {
    case 1
    then show ?case using Cons(1) by (auto simp: bind_eq_Some_conv dest: on_initialize_node_frame(1))
  next
    case 2
    then show ?case using Cons(2) by (auto simp: bind_eq_Some_conv dest: on_initialize_node_frame(2))
  next
    case 3
    then show ?case using Cons(3)
      by (auto simp: bind_eq_Some_conv dest!: on_initialize_node_frame(3) intro: same_auction_trans)
  }
qed auto

end
