(* ===== verification/Auction_Laws.thy ===== *)
theory Auction_Laws
  imports Auction
begin

text \<open>
  What the auction pallet promises.  \<open>auction_run\<close> is a run of the chain as the pallet sees it:
  bids, blocks whose hook does not panic, and arbitrary changes of the rest of the chain.  It
  carries the bids placed in each running auction, with the block of each.  The invariant
  relates the stored leading bids to them: the entry of a sample is the first of the highest
  bids placed up to the end of that sample, and what its bidder has reserved covers it.
\<close>

section \<open>The highest bid\<close>

definition better :: "winner_data option \<Rightarrow> winner_data \<Rightarrow> winner_data option" where
  "better l x = (case l of None \<Rightarrow> Some x | Some y \<Rightarrow> if snd y < snd x then Some x else Some y)"

definition leading :: "winner_data list \<Rightarrow> winner_data option" where
  "leading bs = foldl better None bs"

lemma leading_Nil [simp]: "leading [] = None"
  by (simp add: leading_def)

lemma leading_snoc [simp]: "leading (bs @ [x]) = better (leading bs) x"
  by (simp add: leading_def)

lemma leading_None_iff [simp]: "leading bs = None \<longleftrightarrow> bs = []"
  by (induction bs rule: rev_induct) (auto simp: better_def split: option.splits)

lemma leading_ex: "bs \<noteq> [] \<Longrightarrow> \<exists>x. leading bs = Some x"
  by (metis leading_None_iff not_None_eq)

text \<open>The leading bid is the highest, and the earliest of those as high.\<close>

lemma leading_Some:
  assumes "leading bs = Some x"
  shows "\<exists>us vs. bs = us @ x # vs \<and> (\<forall>y\<in>set us. snd y < snd x) \<and> (\<forall>y\<in>set vs. snd y \<le> snd x)"
  using assms
proof (induction bs arbitrary: x rule: rev_induct)
  case (snoc z bs)
  show ?case
  proof (cases "leading bs")
    case None
    with snoc.prems have "bs @ [z] = [] @ x # []" by (auto simp: better_def)
    then show ?thesis by fastforce
  next
    case (Some y)
    from snoc.IH [OF this] obtain us vs where bs: "bs = us @ y # vs"
      and us: "\<forall>u\<in>set us. snd u < snd y" and vs: "\<forall>v\<in>set vs. snd v \<le> snd y" by blast
    show ?thesis
    proof (cases "snd y < snd z")
      case True
      with Some snoc.prems have "x = z" by (simp add: better_def)
      moreover have "\<forall>u\<in>set bs. snd u < snd z" using bs us vs True by fastforce
      ultimately have "bs @ [z] = bs @ x # [] \<and> (\<forall>u\<in>set bs. snd u < snd x)" by simp
      then show ?thesis by fastforce
    next
      case False
      with Some snoc.prems have "x = y" by (simp add: better_def)
      then have "bs @ [z] = us @ x # (vs @ [z]) \<and> (\<forall>v\<in>set (vs @ [z]). snd v \<le> snd x)"
        using bs vs False by auto
      with us \<open>x = y\<close> show ?thesis by blast
    qed
  qed
qed simp

section \<open>Samples\<close>

abbreviation en :: "('w, 'd) auction_config \<Rightarrow> nat" where
  "en c \<equiv> unat (ac_ending_period c)"

abbreviation sl :: "('w, 'd) auction_config \<Rightarrow> nat" where
  "sl c \<equiv> unat (sample_len c)"

text \<open>The sample of a block, and the last one that a block has entered.\<close>

definition sample_at :: "('w, 'd) auction_config \<Rightarrow> u32 \<Rightarrow> nat \<Rightarrow> nat" where
  "sample_at c start t = (t - unat start) div sl c"

definition last_sample :: "('w, 'd) auction_config \<Rightarrow> u32 \<Rightarrow> nat \<Rightarrow> nat" where
  "last_sample c start n = min (n - unat start) (en c - 1) div sl c"

definition bids_until ::
  "('w, 'd) auction_config \<Rightarrow> u32 \<Rightarrow> nat \<Rightarrow> (nat \<times> winner_data) list \<Rightarrow> winner_data list" where
  "bids_until c start k bs = map snd (filter (\<lambda>b. sample_at c start (fst b) \<le> k) bs)"

lemma sl_pos [simp]: "0 < sl c"
proof -
  have "(1 :: u32) \<le> sample_len c" by (simp add: sample_len_def)
  then have "unat (1 :: u32) \<le> sl c" by (simp only: word_le_nat_alt)
  then show ?thesis by simp
qed

lemma last_sample_Suc:
  assumes "unat start \<le> n"
  shows "last_sample c start (Suc n) = last_sample c start n
    \<or> last_sample c start (Suc n) = Suc (last_sample c start n) \<and> Suc n - unat start < en c"
proof (cases "Suc n - unat start < en c")
  case True
  then have "min (Suc n - unat start) (en c - 1) = Suc (n - unat start)"
    "min (n - unat start) (en c - 1) = n - unat start" using assms by auto
  moreover have "Suc (n - unat start) div sl c \<in> {(n - unat start) div sl c, Suc ((n - unat start) div sl c)}"
    by (simp add: div_Suc)
  ultimately show ?thesis using True unfolding last_sample_def by (metis insert_iff empty_iff)
next
  case False
  then have "min (Suc n - unat start) (en c - 1) = min (n - unat start) (en c - 1)" using assms by auto
  then show ?thesis unfolding last_sample_def by simp
qed

lemma status_ending:
  assumes "auction_info s node = Some start" "unat start \<le> unat now" "unat now - unat start < en c"
  obtains offset r where "auction_status c now node s = EndingPeriod offset r"
    "unat offset = last_sample c start (unat now)"
proof
  have le: "start \<le> now" using assms(2) by (simp add: word_le_nat_alt)
  then have d: "unat (now - start) = unat now - unat start" by (simp add: unat_sub)
  then have "now - start < ac_ending_period c" using assms(3) by (simp add: word_less_nat_alt)
  with assms(1) le show "auction_status c now node s
      = EndingPeriod ((now - start) div sample_len c) ((now - start) mod sample_len c)"
    by (simp add: auction_status_def checked_sub_def)
  show "unat ((now - start) div sample_len c) = last_sample c start (unat now)"
    using d assms(3) by (simp add: unat_div last_sample_def min_def)
qed

lemma status_vrf:
  assumes "auction_info s node = Some start" "unat start \<le> unat now" "\<not> unat now - unat start < en c"
  obtains d where "auction_status c now node s = VrfDelay d"
proof
  have le: "start \<le> now" using assms(2) by (simp add: word_le_nat_alt)
  then have "\<not> now - start < ac_ending_period c" using assms(3) by (simp add: word_less_nat_alt unat_sub)
  with assms(1) le show "auction_status c now node s = VrfDelay (now - start - ac_ending_period c)"
    by (simp add: auction_status_def checked_sub_def)
qed

lemma unat_late_end:
  assumes "unat start + en c < 2 ^ 32"
  shows "unat (saturating_add start (ac_ending_period c)) = unat start + en c"
  using assms by (simp add: saturating_add_def unat_word_ariths)

lemma drawn_offset_le:
  assumes "0 < en c"
  shows "unat (drawn_offset c raw) \<le> (en c - 1) div sl c"
proof -
  have "unat (decode_block_number raw) mod en c \<le> en c - 1" using assms
    by (metis Suc_pred' less_Suc_eq_le mod_less_divisor)
  then show ?thesis by (simp add: drawn_offset_def unat_div unat_mod div_le_mono)
qed

section \<open>The invariant of one auction\<close>

definition auction_ok ::
  "('w, 'd) auction_config \<Rightarrow> (nat \<times> winner_data) list \<Rightarrow> nat \<Rightarrow> 'w auction_state \<Rightarrow> domain_hash \<Rightarrow> bool" where
  "auction_ok c bs n s node \<longleftrightarrow>
     (case auction_info s node of
        None \<Rightarrow> bs = [] \<and> (\<forall>k. dm_get (winning s) node k = None)
      | Some start \<Rightarrow> unat start \<le> n \<and> unat start + en c < 2 ^ 32
          \<and> (\<exists>b\<in>set bs. fst b = unat start)
          \<and> (\<forall>b\<in>set bs. sample_at c start (fst b) \<le> last_sample c start n)
          \<and> (\<forall>k. dm_get (winning s) node k =
               (if unat k \<le> last_sample c start n then leading (bids_until c start (unat k) bs) else None)))
     \<and> (\<forall>k b x. dm_get (winning s) node k = Some (b, x) \<longrightarrow>
          (\<exists>r\<ge>x. dm_get (reserved_amounts s) node b = Some r))"

lemma auction_ok_same:
  "same_auction node s s' \<Longrightarrow> auction_ok c bs n s' node = auction_ok c bs n s node"
  by (simp add: auction_ok_def same_auction_def cong: option.case_cong)

text \<open>A sample that has been entered has a leading bid, the first bid of the auction at least.\<close>

lemma bids_until_nonempty:
  assumes "\<exists>b\<in>set bs. fst b = unat start"
  shows "bids_until c start k bs \<noteq> []"
  using assms by (force simp: bids_until_def sample_at_def filter_empty_conv)

lemma bids_until_all:
  assumes "\<forall>b\<in>set bs. sample_at c start (fst b) \<le> k" "k \<le> k'"
  shows "bids_until c start k' bs = map snd bs"
proof -
  have "filter (\<lambda>b. sample_at c start (fst b) \<le> k') bs = bs"
    using assms by (intro filter_True) (auto intro: order_trans)
  then show ?thesis by (simp add: bids_until_def)
qed

lemma bids_until_snoc:
  "bids_until c start k (bs @ [(t, x)]) =
     (if sample_at c start t \<le> k then bids_until c start k bs @ [x] else bids_until c start k bs)"
  by (simp add: bids_until_def)

lemma auction_ok_None:
  assumes "auction_info s node = None"
  shows "auction_ok c bs n s node \<longleftrightarrow> bs = [] \<and> (\<forall>k. dm_get (winning s) node k = None)"
  using assms by (auto simp: auction_ok_def)

lemma auction_ok_SomeD:
  assumes "auction_ok c bs n s node" "auction_info s node = Some start"
  shows "unat start \<le> n" "unat start + en c < 2 ^ 32" "\<exists>b\<in>set bs. fst b = unat start"
    "\<forall>b\<in>set bs. sample_at c start (fst b) \<le> last_sample c start n"
    "dm_get (winning s) node k =
       (if unat k \<le> last_sample c start n then leading (bids_until c start (unat k) bs) else None)"
    "dm_get (winning s) node k = Some (b, x) \<Longrightarrow> \<exists>r\<ge>x. dm_get (reserved_amounts s) node b = Some r"
  using assms by (auto simp: auction_ok_def)

lemma auction_ok_SomeI:
  assumes "auction_info s node = Some start" "unat start \<le> n" "unat start + en c < 2 ^ 32"
    "\<exists>b\<in>set bs. fst b = unat start"
    "\<forall>b\<in>set bs. sample_at c start (fst b) \<le> last_sample c start n"
    "\<And>k. dm_get (winning s) node k =
       (if unat k \<le> last_sample c start n then leading (bids_until c start (unat k) bs) else None)"
    "\<And>k b x. dm_get (winning s) node k = Some (b, x) \<Longrightarrow> \<exists>r\<ge>x. dm_get (reserved_amounts s) node b = Some r"
  shows "auction_ok c bs n s node"
  unfolding auction_ok_def using assms by auto

section \<open>The hook keeps the invariant\<close>

text \<open>The entry before the current sample is the one the hook copies.\<close>

lemma winning_before_Suc:
  assumes "unat offset = Suc k"
  obtains j where "unat j = k" "winning_before node offset s = dm_get (winning s) node j"
proof
  have le: "1 \<le> offset" using assms by (simp add: word_le_nat_alt)
  then show "winning_before node offset s = dm_get (winning s) node (offset - 1)"
    by (simp add: winning_before_def checked_sub_def)
  show "unat (offset - 1) = k" using le assms by (simp add: unat_sub)
qed

lemma carry_winning_ok:
  assumes ok: "auction_ok c bs n s node" and now: "unat now = Suc n"
  shows "\<exists>s'. carry_winning c now node s = Some s' \<and> auction_ok c bs (Suc n) s' node"
proof (cases "auction_info s node")
  case None
  with ok show ?thesis by (simp add: carry_winning_def auction_status_def auction_ok_None)
next
  case (Some start)
  note ok = auction_ok_SomeD [OF ok Some]
  have le: "unat start \<le> unat now" using ok(1) now by simp
  let ?l = "last_sample c start n" and ?l' = "last_sample c start (Suc n)"
  have same: "auction_ok c bs (Suc n) s node" if "?l' = ?l"
    using ok that by (intro auction_ok_SomeI [OF Some]) auto
  show ?thesis
  proof (cases "unat now - unat start < en c")
    case False
    then have "?l' = ?l" using last_sample_Suc [OF ok(1), of c] now by simp
    moreover obtain d where "auction_status c now node s = VrfDelay d" by (rule status_vrf [OF Some le False])
    ultimately show ?thesis using same by (simp add: carry_winning_def)
  next
    case True
    then obtain offset r where st: "auction_status c now node s = EndingPeriod offset r"
      and o: "unat offset = ?l'" using status_ending [OF Some le] now by metis
    consider "?l' = ?l" | "?l' = Suc ?l" using last_sample_Suc [OF ok(1), of c] by auto
    then show ?thesis
    proof cases
      case 1
      then have "dm_contains (winning s) node offset"
        using ok(5) [of offset] o bids_until_nonempty [OF ok(3)] by (simp add: dm_contains_def)
      with 1 same st show ?thesis by (simp add: carry_winning_def)
    next
      case 2
      with o obtain j where j: "unat j = ?l"
        and w: "winning_before node offset s = dm_get (winning s) node j" by (metis winning_before_Suc)
      have all: "bids_until c start k bs = map snd bs" if "?l \<le> k" for k
        using bids_until_all [OF ok(4) that] .
      have lead: "dm_get (winning s) node j = leading (map snd bs)" using ok(5) [of j] j all by simp
      have "bs \<noteq> []" using ok(3) by auto
      then obtain d where d: "leading (map snd bs) = Some d" using leading_ex by fastforce
      let ?s' = "s\<lparr>winning := dm_insert node offset d (winning s)\<rparr>"
      have "\<not> dm_contains (winning s) node offset" using ok(5) [of offset] o 2 by (simp add: dm_contains_def)
      with st w lead d have "carry_winning c now node s = Some ?s'" by (simp add: carry_winning_def)
      moreover have "auction_ok c bs (Suc n) ?s' node"
      proof (rule auction_ok_SomeI)
        fix k b x
        show "dm_get (winning ?s') node k =
            (if unat k \<le> ?l' then leading (bids_until c start (unat k) bs) else None)"
          using ok(5) [of k] 2 o d all by (auto simp: dm_simps word_unat_eq_iff le_Suc_eq)
        show "\<exists>r\<ge>x. dm_get (reserved_amounts ?s') node b = Some r"
          if "dm_get (winning ?s') node k = Some (b, x)"
          using that ok(6) [of k b x] ok(6) [of j b x] lead d by (auto simp: dm_simps split: if_splits)
      qed (use Some ok 2 in auto)
      ultimately show ?thesis by blast
    qed
  qed
qed

text \<open>
  The end of an auction: the seed draws a sample that has been entered, so that there is a
  winner, the first of the highest bids placed up to the end of that sample.
\<close>

lemma check_auction_end_ok:
  assumes ok: "auction_ok c bs n s node" and now: "unat now = n" and en: "0 < en c"
  shows "\<exists>res s'. check_auction_end c now node s = Some (res, s')
    \<and> (if auction_info s' node = auction_info s node then res = None \<and> s' = s
       else \<exists>start d. auction_info s node = Some start \<and> auction_info s' node = None
         \<and> unat start + en c \<le> n \<and> res = Some d \<and> (\<forall>k. dm_get (winning s') node k = None)
         \<and> leading (bids_until c start (unat (drawn_offset c (fst (ac_random c (au_world s))))) bs) = Some d)"
proof (cases "auction_info s node")
  case None
  then show ?thesis by (simp add: check_auction_end_def)
next
  case (Some start)
  note ok = auction_ok_SomeD [OF ok Some]
  obtain raw known where r: "ac_random c (au_world s) = (raw, known)" by fastforce
  have late: "saturating_add start (ac_ending_period c) \<le> now \<longleftrightarrow> unat start + en c \<le> n"
    using unat_late_end [OF ok(2)] now by (simp add: word_le_nat_alt)
  have en0: "ac_ending_period c \<noteq> 0" using en by auto
  show ?thesis
  proof (cases "unat start + en c \<le> n \<and> saturating_add start (ac_ending_period c) \<le> known")
    case False
    then show ?thesis using late r by (auto simp: check_auction_end_def Some Let_def)
  next
    case True
    let ?o = "drawn_offset c raw"
    have "min (n - unat start) (en c - 1) = en c - 1" using True en by auto
    then have "last_sample c start n = (en c - 1) div sl c" by (simp add: last_sample_def)
    then have "dm_get (winning s) node ?o = leading (bids_until c start (unat ?o) bs)"
      using ok(5) [of ?o] drawn_offset_le [OF en, of raw] by simp
    moreover obtain d where "leading (bids_until c start (unat ?o) bs) = Some d"
      using leading_ex [OF bids_until_nonempty [OF ok(3), of c "unat ?o"]] by blast
    ultimately show ?thesis
      using True late r en0 by (simp add: check_auction_end_def Some Let_def dm_simps)
  qed
qed

lemma auction_ok_manage:
  assumes "manage_auction_end c node d s = (r, s')" "auction_info s node = None"
    "\<forall>k. dm_get (winning s) node k = None"
  shows "auction_ok c [] n s' node"
  using manage_auction_end_frame [OF assms(1)] assms(2,3) by (simp add: auction_ok_None)

text \<open>The hook on one name: it does not panic, and an ended auction leaves no rows behind.\<close>

lemma on_initialize_node_ok:
  assumes ok: "auction_ok c bs n s node" and now: "unat now = Suc n" and en: "0 < en c"
  shows "\<exists>s'. on_initialize_node c now node s = Some s'
    \<and> auction_ok c (if auction_info s' node = None then [] else bs) (Suc n) s' node"
proof -
  obtain s1 where c: "carry_winning c now node s = Some s1" and ok1: "auction_ok c bs (Suc n) s1 node"
    using carry_winning_ok [OF ok now] by blast
  obtain res s2 where e: "check_auction_end c now node s1 = Some (res, s2)"
    and r: "if auction_info s2 node = auction_info s1 node then res = None \<and> s2 = s1
       else \<exists>start d. auction_info s1 node = Some start \<and> auction_info s2 node = None
         \<and> unat start + en c \<le> Suc n \<and> res = Some d \<and> (\<forall>k. dm_get (winning s2) node k = None)
         \<and> leading (bids_until c start (unat (drawn_offset c (fst (ac_random c (au_world s1))))) bs) = Some d"
    using check_auction_end_ok [OF ok1 now en] by blast
  show ?thesis
  proof (cases "auction_info s2 node = auction_info s1 node")
    case True
    then have "auction_ok c (if auction_info s1 node = None then [] else bs) (Suc n) s1 node"
      using ok1 by (cases "auction_info s1 node") (simp_all add: auction_ok_None)
    with True r c e show ?thesis by (simp add: on_initialize_node_def)
  next
    case False
    with r obtain d where d: "auction_info s2 node = None" "res = Some d"
      "\<forall>k. dm_get (winning s2) node k = None" by auto
    obtain q s3 where m: "manage_auction_end c node d s2 = (q, s3)" by fastforce
    then show ?thesis
      using auction_ok_manage [OF m d(1,3)] manage_auction_end_frame(2) [OF m] c e d
      by (simp add: on_initialize_node_def)
  qed
qed

definition still_open ::
  "'w auction_state \<Rightarrow> (domain_hash \<Rightarrow> (nat \<times> winner_data) list) \<Rightarrow> domain_hash \<Rightarrow> (nat \<times> winner_data) list"
  where
  "still_open s bids node = (if auction_info s node = None then [] else bids node)"

lemma on_initialize_nodes_ok:
  assumes "\<And>node. node \<in> set nodes \<Longrightarrow> auction_ok c (bids node) n s node"
    and "distinct nodes" "unat now = Suc n" "0 < en c"
  shows "\<exists>s'. on_initialize_nodes c now nodes s = Some s'
    \<and> (\<forall>node\<in>set nodes. auction_ok c (still_open s' bids node) (Suc n) s' node)"
  using assms(1,2)
proof (induction nodes arbitrary: s)
  case (Cons node nodes)
  obtain s1 where s1: "on_initialize_node c now node s = Some s1"
    and ok1: "auction_ok c (still_open s1 bids node) (Suc n) s1 node"
    using on_initialize_node_ok [OF Cons.prems(1) assms(3,4), of node] by (auto simp: still_open_def)
  have "auction_ok c (bids m) n s1 m" if "m \<in> set nodes" for m
  proof -
    have "m \<noteq> node" using Cons.prems(2) that by auto
    then show ?thesis using auction_ok_same on_initialize_node_frame(3) [OF s1] Cons.prems(1) that by fastforce
  qed
  then obtain s' where s': "on_initialize_nodes c now nodes s1 = Some s'"
    and ok: "\<forall>m\<in>set nodes. auction_ok c (still_open s' bids m) (Suc n) s' m"
    using Cons.IH [of s1] Cons.prems(2) by auto
  have same: "same_auction node s1 s'"
    using on_initialize_nodes_frame(3) [OF s'] Cons.prems(2) by simp
  then have "still_open s' bids node = still_open s1 bids node"
    by (simp add: still_open_def same_auction_def)
  with ok1 auction_ok_same [OF same, of c] have "auction_ok c (still_open s' bids node) (Suc n) s' node" by simp
  with s1 s' ok show ?case by simp
qed simp

section \<open>Bids keep the invariant\<close>

lemma current_winning_leading:
  assumes "\<And>k. dm_get (winning s) node k =
      (if unat k \<le> l then leading (bids_until c start (unat k) bs) else None)"
    and "\<forall>b\<in>set bs. sample_at c start (fst b) \<le> l" "unat offset = l"
  shows "current_winning node offset s = leading (map snd bs)"
proof -
  have w: "dm_get (winning s) node offset = leading (map snd bs)"
    using assms(1) [of offset] assms(2,3) bids_until_all [OF assms(2), of l] by simp
  show ?thesis
  proof (cases "bs = []")
    case True
    then have "dm_get (winning s) node k = None" for k using assms(1) [of k] by (simp add: bids_until_def)
    then show ?thesis using True
      by (simp add: current_winning_def winning_before_def split: option.splits)
  next
    case False
    then obtain x where "leading (map snd bs) = Some x" using leading_ex by fastforce
    with w show ?thesis by (simp add: current_winning_def)
  qed
qed

lemma place_bid_ok:
  assumes b: "place_bid c a node amount offset s = Inr s'"
    and info: "auction_info s node = Some start" "unat start \<le> n" "unat start + en c < 2 ^ 32"
    and off: "unat offset = last_sample c start n" "sample_at c start n = last_sample c start n"
    and ex: "\<exists>b\<in>set (bs @ [(n, (a, amount))]). fst b = unat start"
    and bs: "\<forall>b\<in>set bs. sample_at c start (fst b) \<le> last_sample c start n"
    and win: "\<And>k. dm_get (winning s) node k =
      (if unat k \<le> last_sample c start n then leading (bids_until c start (unat k) bs) else None)"
    and backed: "\<And>k b x. dm_get (winning s) node k = Some (b, x) \<Longrightarrow>
      \<exists>r\<ge>x. dm_get (reserved_amounts s) node b = Some r"
  shows "auction_ok c (bs @ [(n, (a, amount))]) n s' node"
proof -
  let ?l = "last_sample c start n" and ?bs = "bs @ [(n, (a, amount))]"
  have cur: "current_winning node offset s = leading (map snd bs)"
    by (rule current_winning_leading [OF win bs off(1)])
  have lead: "leading (bids_until c start (unat k) ?bs) =
      (if unat k < ?l then leading (bids_until c start (unat k) bs)
       else better (leading (map snd bs)) (a, amount))" for k
    using bids_until_all [OF bs, of "unat k"] off(2) by (auto simp: bids_until_snoc)
  have info': "auction_info s' node = Some start" using place_bid_frame(1) [OF b] info(1) by simp
  show ?thesis
  proof (rule auction_ok_SomeI [OF info' info(2,3) ex])
    show "\<forall>b\<in>set ?bs. sample_at c start (fst b) \<le> ?l" using bs off(2) by auto
  next
    fix k
    have "dm_get (winning s) node k = leading (map snd bs)" if "unat k = ?l"
      using win [of k] that bids_until_all [OF bs, of ?l] by simp
    then show "dm_get (winning s') node k =
        (if unat k \<le> ?l then leading (bids_until c start (unat k) ?bs) else None)"
      using b cur win [of k] lead [of k] off(1)
      by (auto simp: place_bid_def result_simps dm_simps better_def word_unat_eq_iff
          dest: reserve_bid_frame(2) split: if_splits option.splits)
  next
    fix k b x
    assume "dm_get (winning s') node k = Some (b, x)"
    then show "\<exists>r\<ge>x. dm_get (reserved_amounts s') node b = Some r"
      using assms(1) backed
      by (fastforce simp: place_bid_def result_simps dm_simps split: if_splits
          dest: reserve_bid_frame(2) reserve_bid_covers intro: order_trans)
  qed
qed

lemma do_new_auction_iff:
  "do_new_auction c node amount s = Inr s' \<longleftrightarrow> ac_minimal_auction_price c < amount
    \<and> s' = auction_deposit (AuctionStarted (au_block s) node)
        (s\<lparr>auction_info := (auction_info s)(node \<mapsto> au_block s),
           ongoing_auctions := ongoing_insert node (ongoing_auctions s)\<rparr>)"
  by (auto simp: do_new_auction_def Let_def result_simps)

lemma handle_bid_ok:
  assumes b: "handle_bid c a node amount s = Inr s'" and ok: "auction_ok c bs (unat (au_block s)) s node"
    and bound: "unat (au_block s) + en c < 2 ^ 32" and en: "0 < en c"
  shows "auction_ok c (bs @ [(unat (au_block s), (a, amount))]) (unat (au_block s)) s' node"
proof (cases "auction_info s node")
  case None
  then have bs: "bs = []" "\<And>k. dm_get (winning s) node k = None" using ok by (simp_all add: auction_ok_None)
  from b None obtain s1 where s1: "do_new_auction c node amount s = Inr s1"
    and p: "place_bid c a node amount 0 s1 = Inr s'"
    by (auto simp: handle_bid_def auction_status_def result_simps)
  show ?thesis
    by (rule place_bid_ok [OF p, of "au_block s"])
      (use s1 bs bound in \<open>auto simp: do_new_auction_iff last_sample_def sample_at_def bids_until_def\<close>)
next
  case (Some start)
  note ok = auction_ok_SomeD [OF ok Some]
  have lt: "unat (au_block s) - unat start < en c"
    using b status_vrf [OF Some ok(1)] by (fastforce simp: handle_bid_def result_simps)
  from status_ending [OF Some ok(1) lt] obtain offset r
    where st: "auction_status c (au_block s) node s = EndingPeriod offset r"
      and off: "unat offset = last_sample c start (unat (au_block s))" .
  with b have p: "place_bid c a node amount offset s = Inr s'" by (simp add: handle_bid_def result_simps)
  have "sample_at c start (unat (au_block s)) = last_sample c start (unat (au_block s))"
    using lt by (simp add: sample_at_def last_sample_def min_def)
  then show ?thesis
    by (intro place_bid_ok [OF p Some ok(1,2) off _ _ ok(4)]) (use ok in auto)
qed

lemma handle_bid_frame:
  assumes "handle_bid c a node amount s = Inr s'"
  shows "au_block s' = au_block s" "m \<noteq> node \<Longrightarrow> same_auction m s s'"
    "set (ongoing_auctions s) \<subseteq> set (ongoing_auctions s')"
    "distinct (ongoing_auctions s) \<Longrightarrow> distinct (ongoing_auctions s')"
    "\<forall>m. auction_info s m \<noteq> None \<longrightarrow> m \<in> set (ongoing_auctions s) \<Longrightarrow>
       auction_info s' m \<noteq> None \<Longrightarrow> m \<in> set (ongoing_auctions s')"
proof -
  obtain s1 offset where s1: "s1 = s \<or> do_new_auction c node amount s = Inr s1"
    and p: "place_bid c a node amount offset s1 = Inr s'"
    using assms by (auto simp: handle_bid_def result_simps split: AuctionStatus.splits)
  note f = place_bid_frame [OF p]
  show "au_block s' = au_block s" using s1 f(2) by (auto simp: do_new_auction_iff)
  show "set (ongoing_auctions s) \<subseteq> set (ongoing_auctions s')" using s1 f(3) by (auto simp: do_new_auction_iff)
  show "distinct (ongoing_auctions s')" if "distinct (ongoing_auctions s)"
    using s1 f(3) that by (auto simp: do_new_auction_iff)
  show "same_auction m s s'" if "m \<noteq> node"
  proof -
    have "same_auction m s s1" using s1 that by (auto simp: do_new_auction_iff same_auction_def)
    then show ?thesis using f(4) [OF that] by (rule same_auction_trans)
  qed
  show "m \<in> set (ongoing_auctions s')"
    if "\<forall>m. auction_info s m \<noteq> None \<longrightarrow> m \<in> set (ongoing_auctions s)" "auction_info s' m \<noteq> None"
    using s1 f(1,3) that by (auto simp: do_new_auction_iff split: if_splits)
qed

section \<open>Runs\<close>

text \<open>
  \<open>bids node\<close> are the bids placed in the running auction of the name, oldest first, each with
  its block; the bids of an auction that ends are dropped.  Block numbers stay so far below
  the largest that no ending period reaches it.
\<close>

definition auction_genesis :: "'w \<Rightarrow> u32 \<Rightarrow> 'w auction_state" where
  "auction_genesis w n = \<lparr>auction_info = (\<lambda>_. None), ongoing_auctions = [], reserved_amounts = (\<lambda>_. []),
     winning = (\<lambda>_. []), au_world = w, au_block = n, au_events = []\<rparr>"

definition next_block :: "'w \<Rightarrow> 'w auction_state \<Rightarrow> 'w auction_state" where
  "next_block w s = s\<lparr>au_block := au_block s + 1, au_world := w\<rparr>"

inductive auction_run ::
  "('w, 'd) auction_config \<Rightarrow> (domain_hash \<Rightarrow> (nat \<times> winner_data) list) \<Rightarrow> 'w auction_state \<Rightarrow> bool"
  for c :: "('w, 'd) auction_config"
where
  run_genesis: "unat n + en c < 2 ^ 32 \<Longrightarrow> auction_run c (\<lambda>_. []) (auction_genesis w n)"
| run_bid: "auction_run c bids s \<Longrightarrow> bid c (Origin_Signed a) name amount s = Inr s' \<Longrightarrow>
    ac_domain_new c name = Some d \<Longrightarrow> ac_last_node c d = Some node \<Longrightarrow>
    auction_run c (bids(node := bids node @ [(unat (au_block s), (a, amount))])) s'"
| run_block: "auction_run c bids s \<Longrightarrow> unat (au_block s) + en c + 1 < 2 ^ 32 \<Longrightarrow>
    on_initialize c (au_block s + 1) (next_block w s) = Some s' \<Longrightarrow>
    auction_run c (still_open s' bids) s'"
| run_other: "auction_run c bids s \<Longrightarrow> auction_run c bids (s\<lparr>au_world := w\<rparr>)"

definition run_ok ::
  "('w, 'd) auction_config \<Rightarrow> (domain_hash \<Rightarrow> (nat \<times> winner_data) list) \<Rightarrow> 'w auction_state \<Rightarrow> bool" where
  "run_ok c bids s \<longleftrightarrow> unat (au_block s) + en c < 2 ^ 32 \<and> distinct (ongoing_auctions s)
     \<and> (\<forall>node. auction_info s node \<noteq> None \<longrightarrow> node \<in> set (ongoing_auctions s))
     \<and> (\<forall>node. auction_ok c (bids node) (unat (au_block s)) s node)"

lemma next_block_sel [simp]:
  "auction_info (next_block w s) = auction_info s" "ongoing_auctions (next_block w s) = ongoing_auctions s"
  "reserved_amounts (next_block w s) = reserved_amounts s" "winning (next_block w s) = winning s"
  "au_world (next_block w s) = w" "au_block (next_block w s) = au_block s + 1"
  "same_auction node s' (next_block w s) = same_auction node s' s"
  by (simp_all add: next_block_def same_auction_def)

lemma bid_iff:
  "bid c (Origin_Signed a) name amount s = Inr s' \<longleftrightarrow> (\<exists>d node. ac_domain_new c name = Some d
     \<and> ac_is_anctionable c d (au_world s) \<and> ac_last_node c d = Some node
     \<and> handle_bid c a node amount s = Inr s')"
  by (auto simp: bid_def result_simps)

lemma unat_next_block:
  assumes "unat (n :: u32) + k + 1 < 2 ^ 32"
  shows "unat (n + 1) = Suc (unat n)"
  using assms by (simp add: unat_word_ariths)

lemma run_ok_block:
  assumes ok: "run_ok c bids s" and bound: "unat (au_block s) + en c + 1 < 2 ^ 32" and en: "0 < en c"
  shows "\<exists>s'. on_initialize c (au_block s + 1) (next_block w s) = Some s' \<and> run_ok c (still_open s' bids) s'"
proof -
  let ?n = "unat (au_block s)"
  have n: "unat (au_block s + 1) = Suc ?n" by (rule unat_next_block [OF bound])
  have "auction_ok c (bids node) ?n (next_block w s) node" for node
    using ok auction_ok_same [of node s "next_block w s" c] by (simp add: run_ok_def)
  then obtain s' where s': "on_initialize_nodes c (au_block s + 1) (ongoing_auctions s) (next_block w s) = Some s'"
    and ok': "\<forall>node\<in>set (ongoing_auctions s). auction_ok c (still_open s' bids node) (Suc ?n) s' node"
    using on_initialize_nodes_ok [OF _ _ n en, of "ongoing_auctions s" bids "next_block w s"] ok
    by (auto simp: run_ok_def)
  note f = on_initialize_nodes_frame [OF s']
  have rest: "auction_info s' node = None \<and> (\<forall>k. dm_get (winning s') node k = None)"
    if "node \<notin> set (ongoing_auctions s)" for node
  proof -
    have "auction_info s node = None" using ok that by (auto simp: run_ok_def)
    moreover have "auction_ok c (bids node) ?n s node" using ok by (simp add: run_ok_def)
    ultimately show ?thesis using f(3) [OF that] by (simp add: same_auction_def auction_ok_None)
  qed
  have "auction_ok c (still_open s' bids node) (Suc ?n) s' node" for node
    using ok' rest [of node] by (cases "node \<in> set (ongoing_auctions s)") (auto simp: auction_ok_None still_open_def)
  moreover have "node \<in> set (ongoing_auctions s)" if "auction_info s' node \<noteq> None" for node
    using rest [of node] that by auto
  ultimately have "run_ok c (still_open s' bids) s'"
    using f(1,2) n bound ok by (simp add: run_ok_def)
  with s' show ?thesis by (auto simp: on_initialize_def)
qed

lemma run_ok_bid:
  assumes ok: "run_ok c bids s" and b: "handle_bid c a node amount s = Inr s'" and en: "0 < en c"
  shows "run_ok c (bids(node := bids node @ [(unat (au_block s), (a, amount))])) s'"
proof -
  have inv: "auction_ok c (bids m) (unat (au_block s)) s m" for m using ok by (simp add: run_ok_def)
  note f = handle_bid_frame [OF b]
  have "auction_ok c (bids m) (unat (au_block s)) s' m" if "m \<noteq> node" for m
    using inv auction_ok_same [OF f(2) [OF that], of c] by simp
  moreover have "auction_ok c (bids node @ [(unat (au_block s), (a, amount))]) (unat (au_block s)) s' node"
    by (rule handle_bid_ok [OF b inv _ en]) (use ok in \<open>simp add: run_ok_def\<close>)
  moreover have "\<forall>m. auction_info s m \<noteq> None \<longrightarrow> m \<in> set (ongoing_auctions s)"
    using ok unfolding run_ok_def by blast
  then have "\<forall>m. auction_info s' m \<noteq> None \<longrightarrow> m \<in> set (ongoing_auctions s')"
    using f(5) by blast
  ultimately show ?thesis using ok f(1,4) unfolding run_ok_def by auto
qed

lemma run_ok_run:
  assumes "auction_run c bids s" "0 < en c"
  shows "run_ok c bids s"
  using assms(1)
proof (induction rule: auction_run.induct)
  case (run_genesis n w)
  then show ?case by (simp add: run_ok_def auction_genesis_def auction_ok_None dm_get_def)
next
  case (run_bid bids s a name amount s' d node)
  then have "handle_bid c a node amount s = Inr s'" by (auto simp: bid_iff)
  then show ?case by (rule run_ok_bid [OF run_bid.IH _ assms(2)])
next
  case (run_block bids s w s')
  then show ?case using run_ok_block [OF run_block.IH _ assms(2), of w] by auto
next
  case (run_other bids s w)
  then have "auction_ok c (bids node) (unat (au_block s)) (s\<lparr>au_world := w\<rparr>) node" for node
    using auction_ok_same [of node s "s\<lparr>au_world := w\<rparr>" c] by (simp add: run_ok_def)
  then show ?case using run_other.IH by (simp add: run_ok_def)
qed

section \<open>An example auction\<close>

text \<open>
  An ending period of four blocks in samples of two, over a chain that consists of the reserved
  balances and the owners of the names; the node of a name is its first byte.
\<close>

type_synonym demo_chain = "(account_id \<Rightarrow> nat) \<times> (domain_hash \<rightharpoonup> account_id)"

definition demo_auction :: "(demo_chain, u8 list) auction_config" where
  "demo_auction = \<lparr>ac_ending_period = 4, ac_sample_length = 2, ac_minimal_auction_price = 10,
     ac_offical = 1,
     ac_reserve = (\<lambda>a x (h, r). Inr (h(a := h a + unat x), r)),
     ac_unreserve = (\<lambda>a x (h, r). (h(a := h a - unat x), r)),
     ac_transfer = (\<lambda>a b x w. Inr w),
     ac_is_registered = (\<lambda>node (h, r). r node \<noteq> None),
     ac_domain_new = (\<lambda>name. if name = [] then None else Some name),
     ac_is_anctionable = (\<lambda>d w. True),
     ac_last_node = (\<lambda>d. Some (ucast (hd d))),
     ac_set_expires = (\<lambda>node w. w),
     ac_mint = (\<lambda>a node (h, r). (Inr (), (h, r(node \<mapsto> a)))),
     ac_random = (\<lambda>w. (0, 100))\<rparr>"

definition demo_start :: "demo_chain auction_state" where
  "demo_start = auction_genesis (\<lambda>_. 0, \<lambda>_. None) 1"

definition demo_bid :: "demo_chain auction_state" where
  "demo_bid = \<lparr>auction_info = [97 \<mapsto> 1], ongoing_auctions = [97],
     reserved_amounts = (\<lambda>_. [])(97 := [(2, 20)]), winning = (\<lambda>_. [])(97 := [(0, (2, 20))]),
     au_world = ((\<lambda>_. 0)(2 := 20), \<lambda>_. None), au_block = 1,
     au_events = [AuctionStarted 1 97, Reserved 2 20 20, BidAccepted 2 97 20]\<rparr>"

lemmas demo_auction_eval = demo_auction_def bid_def handle_bid_def place_bid_def reserve_bid_def
  do_new_auction_def auction_status_def current_winning_def winning_before_def auction_deposit_def
  ensure_signed_def dm_get_def dm_insert_def dm_clear_def ongoing_insert_def checked_sub_def
  map_err_def auction_genesis_def

lemma demo_bid_eq: "bid demo_auction (Origin_Signed 2) [97] 20 demo_start = Inr demo_bid"
  by (simp add: demo_auction_eval demo_start_def demo_bid_def)

lemma demo_en [simp]: "en demo_auction = 4"
  by (simp add: demo_auction_def)

lemma demo_run: "auction_run demo_auction ((\<lambda>_. [])(97 := [(1, (2, 20))])) demo_bid"
  using run_bid [OF run_genesis demo_bid_eq [unfolded demo_start_def], of "[97]" 97]
  by (simp add: demo_auction_def auction_genesis_def)

text \<open>Three blocks later both samples have the bid.\<close>

definition demo_late :: "demo_chain auction_state" where
  "demo_late = demo_bid\<lparr>au_block := 4, winning := (\<lambda>_. [])(97 := [(0, (2, 20)), (1, (2, 20))])\<rparr>"

lemmas demo_hook_eval = on_initialize_def on_initialize_node_def carry_winning_def check_auction_end_def
  next_block_def dm_contains_def saturating_add_def sample_len_def

lemma demo_late_run: "auction_run demo_auction ((\<lambda>_. [])(97 := [(1, (2, 20))])) demo_late"
proof -
  let ?s2 = "demo_bid\<lparr>au_block := 2\<rparr>" and ?w = "au_world demo_bid"
  let ?s3 = "demo_late\<lparr>au_block := 3\<rparr>"
  have s2: "on_initialize demo_auction (au_block demo_bid + 1) (next_block ?w demo_bid) = Some ?s2"
    by (simp add: demo_hook_eval demo_auction_eval demo_bid_def)
  have s3: "on_initialize demo_auction (au_block ?s2 + 1) (next_block ?w ?s2) = Some ?s3"
    by (simp add: demo_hook_eval demo_auction_eval demo_bid_def demo_late_def)
  have s4: "on_initialize demo_auction (au_block ?s3 + 1) (next_block ?w ?s3) = Some demo_late"
    by (simp add: demo_hook_eval demo_auction_eval demo_bid_def demo_late_def)
  have step: "auction_run demo_auction ((\<lambda>_. [])(97 := [(1, (2, 20))])) s'"
    if "auction_run demo_auction ((\<lambda>_. [])(97 := [(1, (2, 20))])) s" "unat (au_block s) \<le> 3"
      "on_initialize demo_auction (au_block s + 1) (next_block ?w s) = Some s'" "auction_info s' = [97 \<mapsto> 1]"
    for s s'
  proof -
    have "still_open s' ((\<lambda>_. [])(97 := [(1, (2, 20))])) = (\<lambda>_. [])(97 := [(1, (2, 20))])"
      using that(4) by (auto simp: still_open_def)
    then show ?thesis using run_block [OF that(1) _ that(3)] that(2) by simp
  qed
  have i: "auction_info ?s2 = [97 \<mapsto> 1]" "auction_info ?s3 = [97 \<mapsto> 1]" "auction_info demo_late = [97 \<mapsto> 1]"
    and n: "au_block demo_bid = 1" "au_block ?s2 = 2" "au_block ?s3 = 3"
    by (simp_all add: demo_bid_def demo_late_def)
  show ?thesis
    by (rule step [OF step [OF step [OF demo_run _ s2 i(1)] _ s3 i(2)]
        _ s4 i(3)]) (simp_all add: n)
qed

section \<open>Properties\<close>



text \<open>
  C12: The highest bid wins.  At the first block at which the ending period is over and the seed
  is known late enough, the auction is closed: the seed draws a sample, the winner is the first
  of the highest bids placed up to the end of that sample, all reserves recorded for the name
  are released, and then the winner pays its bid to the official account and receives the
  name.  When the winner cannot pay, the auction is closed all the same and nobody receives
  the name.
\<close>
theorem highest_bid_wins:
  assumes "auction_run c bids s" "0 < ac_ending_period c"
    "unat (au_block s) + unat (ac_ending_period c) + 1 < 2 ^ 32"
    "auction_info s node = Some start" "n = au_block s + 1"
    "unat start + unat (ac_ending_period c) \<le> unat n"
    "same_auction node s s1" "ac_random c (au_world s1) = (raw, known)"
    "unat start + unat (ac_ending_period c) \<le> unat known"
  shows "\<exists>us winner price vs s'.
      bids_until c start (unat (drawn_offset c raw)) (bids node) = us @ (winner, price) # vs
    \<and> (\<forall>x\<in>set us. snd x < price) \<and> (\<forall>x\<in>set vs. snd x \<le> price)
    \<and> on_initialize_node c n node s1 = Some s'
    \<and> auction_info s' node = None \<and> dm_iter (reserved_amounts s') node = []
    \<and> au_world s' = (let w = fold (\<lambda>(b, x). ac_unreserve c b x) (reserved_amounts s1 node) (au_world s1)
        in case ac_transfer c winner (ac_offical c) price w of
             Inl e \<Rightarrow> w
           | Inr w \<Rightarrow> snd (ac_mint c winner node (ac_set_expires c node w)))"
proof -
  let ?n = "unat (au_block s)"
  have en: "0 < en c" using assms(2) by (simp add: word_less_nat_alt)
  have n: "unat n = Suc ?n" using unat_next_block [OF assms(3)] assms(5) by simp
  have "auction_ok c (bids node) ?n s node" using run_ok_run [OF assms(1) en] by (simp add: run_ok_def)
  then have ok: "auction_ok c (bids node) ?n s1 node" using auction_ok_same [OF assms(7), of c] by simp
  have info: "auction_info s1 node = Some start" using assms(4,7) by (simp add: same_auction_def)
  obtain s2 where s2: "carry_winning c n node s1 = Some s2" and ok2: "auction_ok c (bids node) (Suc ?n) s2 node"
    using carry_winning_ok [OF ok n] by blast
  note f = carry_winning_frame [OF s2]
  have late: "unat (saturating_add start (ac_ending_period c)) = unat start + en c"
    by (rule unat_late_end [OF auction_ok_SomeD(2) [OF ok info]])
  obtain res s3 where s3: "check_auction_end c n node s2 = Some (res, s3)"
    and r: "if auction_info s3 node = auction_info s2 node then res = None \<and> s3 = s2
       else \<exists>start d. auction_info s2 node = Some start \<and> auction_info s3 node = None
         \<and> unat start + en c \<le> Suc ?n \<and> res = Some d \<and> (\<forall>k. dm_get (winning s3) node k = None)
         \<and> leading (bids_until c start (unat (drawn_offset c (fst (ac_random c (au_world s2))))) (bids node)) = Some d"
    using check_auction_end_ok [OF ok2 n en] by blast
  have "auction_info s3 node = None"
    using s3 f(1,3) info assms(6,8,9) late en
    by (auto simp: check_auction_end_def Let_def word_le_nat_alt split: if_splits)
  with r f(1,3) info assms(8) obtain winner price where res: "res = Some (winner, price)"
    and lead: "leading (bids_until c start (unat (drawn_offset c raw)) (bids node)) = Some (winner, price)"
    by (auto split: if_splits)
  obtain q s4 where s4: "manage_auction_end c node (winner, price) s3 = (q, s4)" by fastforce
  note f3 = check_auction_end_frame [OF s3] and f4 = manage_auction_end_frame [OF s4]
  have "on_initialize_node c n node s1 = Some s4" using s2 s3 res s4 by (simp add: on_initialize_node_def)
  moreover have "au_world s4 = (let w = fold (\<lambda>(b, x). ac_unreserve c b x) (reserved_amounts s1 node) (au_world s1)
        in case ac_transfer c winner (ac_offical c) price w of
             Inl e \<Rightarrow> w
           | Inr w \<Rightarrow> snd (ac_mint c winner node (ac_set_expires c node w)))"
    using s4 f(3,5) f3(2,4)
    by (auto simp: manage_auction_end_def release_reserves_def Let_def split: sum.splits prod.splits)
  ultimately show ?thesis
    using leading_Some [OF lead] f4(2,5) \<open>auction_info s3 node = None\<close> by fastforce
qed

theorem highest_bid_wins_witness:
  "auction_run demo_auction ((\<lambda>_. [])(97 := [(1, (2, 20))])) demo_late
   \<and> (\<exists>s'. on_initialize_node demo_auction 5 97 demo_late = Some s' \<and> auction_info s' 97 = None
        \<and> snd (au_world s') 97 = Some 2)"
proof -
  have e: "0 < ac_ending_period demo_auction" by (simp add: demo_auction_def)
  have s: "au_block demo_late = 4" "auction_info demo_late 97 = Some 1" "reserved_amounts demo_late 97 = [(2, 20)]"
    "au_world demo_late = ((\<lambda>_. 0)(2 := 20), \<lambda>_. None)"
    by (simp_all add: demo_late_def demo_bid_def)
  have r: "ac_random demo_auction (au_world demo_late) = (0, 100)" by (simp add: demo_auction_def)
  have "\<exists>us winner price vs s'.
      bids_until demo_auction 1 (unat (drawn_offset demo_auction 0)) [(1, (2, 20))] = us @ (winner, price) # vs
    \<and> on_initialize_node demo_auction 5 97 demo_late = Some s' \<and> auction_info s' 97 = None
    \<and> au_world s' = ((\<lambda>_. 0), [97 \<mapsto> winner])"
    using highest_bid_wins [OF demo_late_run e _ s(2) refl _ same_auction_refl r] s
    by (fastforce simp: demo_auction_def Let_def fun_upd_idem)
  moreover have "bids_until demo_auction 1 k [(1, (2, 20))] = [(2, 20)]" for k
    by (simp add: bids_until_def sample_at_def)
  ultimately show ?thesis using demo_late_run by (fastforce simp: Cons_eq_append_conv)
qed

end
