(* ===== verification/Auction_Escrow.thy ===== *)
theory Auction_Escrow
  imports Auction_Laws
begin

text \<open>
  The money of the auctions.  Every leading bid is covered by what its bidder has reserved, and
  what the chain holds in reserve for an account moves exactly with the amounts the pallet has
  on record for it, through bids and through the end of auctions.
\<close>

section \<open>What is held in reserve\<close>

text \<open>
  What the pallet relies on in the currency: \<open>held w b\<close> is what the chain holds in reserve for
  an account, reserving adds to it, releasing takes off, and a payment, the expiry and the mint
  leave it alone.
\<close>

definition reserves_held :: "('w, 'd) auction_config \<Rightarrow> ('w \<Rightarrow> account_id \<Rightarrow> nat) \<Rightarrow> bool" where
  "reserves_held c held \<longleftrightarrow>
     (\<forall>a x w w'. ac_reserve c a x w = Inr w' \<longrightarrow> held w' = (held w)(a := held w a + unat x))
   \<and> (\<forall>a x w. held (ac_unreserve c a x w) = (held w)(a := held w a - unat x))
   \<and> (\<forall>a b x w w'. ac_transfer c a b x w = Inr w' \<longrightarrow> held w' = held w)
   \<and> (\<forall>node w. held (ac_set_expires c node w) = held w)
   \<and> (\<forall>a node w. held (snd (ac_mint c a node w)) = held w)"

definition on_record :: "'w auction_state \<Rightarrow> account_id \<Rightarrow> domain_hash \<Rightarrow> nat" where
  "on_record s b node = (case dm_get (reserved_amounts s) node b of None \<Rightarrow> 0 | Some r \<Rightarrow> unat r)"

definition escrow :: "'w auction_state \<Rightarrow> account_id \<Rightarrow> nat" where
  "escrow s b = sum (on_record s b) (set (ongoing_auctions s))"

definition escrow_ok :: "'w auction_state \<Rightarrow> bool" where
  "escrow_ok s \<longleftrightarrow> dm_distinct (reserved_amounts s)
     \<and> (\<forall>node. node \<notin> set (ongoing_auctions s) \<longrightarrow> dm_iter (reserved_amounts s) node = [])"

lemma on_record_outside:
  assumes "escrow_ok s" "node \<notin> set (ongoing_auctions s)"
  shows "on_record s b node = 0"
  using assms by (auto simp: escrow_ok_def on_record_def dm_get_def dm_iter_def)

lemma escrow_superset:
  assumes "escrow_ok s" "finite A" "set (ongoing_auctions s) \<subseteq> A"
  shows "escrow s b = sum (on_record s b) A"
  unfolding escrow_def using assms on_record_outside [OF assms(1)]
  by (intro sum.mono_neutral_left) auto

lemma escrow_split:
  assumes "finite A" "node \<in> A"
  shows "sum (on_record s b) A = on_record s b node + sum (on_record s b) (A - {node})"
  using assms by (rule sum.remove)

lemma on_record_other:
  "same_auction m s s' \<Longrightarrow> on_record s' b m = on_record s b m"
  by (simp add: on_record_def same_auction_def)

text \<open>Two states that differ in the rows of one name differ by what is on record for it.\<close>

lemma escrow_change:
  assumes "escrow_ok s" "escrow_ok s'" "\<And>m. m \<noteq> node \<Longrightarrow> same_auction m s s'"
    "set (ongoing_auctions s) \<subseteq> set (ongoing_auctions s')" "node \<in> set (ongoing_auctions s')"
  shows "escrow s' b + on_record s b node = escrow s b + on_record s' b node"
proof -
  let ?A = "set (ongoing_auctions s')"
  have "sum (on_record s' b) (?A - {node}) = sum (on_record s b) (?A - {node})"
    by (intro sum.cong) (auto intro: on_record_other assms(3))
  then show ?thesis
    using escrow_superset [OF assms(1) _ assms(4), of b] escrow_superset [OF assms(2), of ?A b]
      escrow_split [OF _ assms(5), of s b] escrow_split [OF _ assms(5), of s' b] by simp
qed

subsection \<open>Bids\<close>

lemma escrow_ok_reserve:
  assumes "reserve_bid c a node amount s = Inr s'" "escrow_ok s" "node \<in> set (ongoing_auctions s)"
  shows "escrow_ok s'"
  using assms
  by (auto simp: reserve_bid_def Let_def result_simps escrow_ok_def split: option.splits)
    (metis dm_iter_other(1))+

lemma held_reserve:
  assumes "reserves_held c held" "reserve_bid c a node amount s = Inr s'"
  shows "held (au_world s') b + on_record s b node = held (au_world s) b + on_record s' b node"
  using assms
  by (auto simp: reserve_bid_def reserves_held_def Let_def result_simps on_record_def dm_simps
      checked_sub_def unat_sub word_le_nat_alt split: option.splits if_splits)

lemma handle_bid_reserves:
  assumes "handle_bid c a node amount s = Inr s'" "\<forall>m. auction_info s m \<noteq> None \<longrightarrow> m \<in> set (ongoing_auctions s)"
  obtains s1 s2 where "reserved_amounts s1 = reserved_amounts s" "au_world s1 = au_world s"
    "set (ongoing_auctions s1) = insert node (set (ongoing_auctions s))"
    "s2 = s1 \<or> reserve_bid c a node amount s1 = Inr s2"
    "reserved_amounts s' = reserved_amounts s2" "au_world s' = au_world s2"
    "ongoing_auctions s' = ongoing_auctions s1"
proof -
  obtain s1 offset where d: "s1 = s \<and> auction_info s node \<noteq> None \<or> do_new_auction c node amount s = Inr s1"
    and p: "place_bid c a node amount offset s1 = Inr s'"
    using assms(1)
    by (auto simp: handle_bid_def result_simps auction_status_def split: option.splits if_splits)
  then have s1: "reserved_amounts s1 = reserved_amounts s" "au_world s1 = au_world s"
      "set (ongoing_auctions s1) = insert node (set (ongoing_auctions s))"
    using assms(2) by (auto simp: do_new_auction_iff)
  have "\<exists>s2. (s2 = s1 \<or> reserve_bid c a node amount s1 = Inr s2) \<and> reserved_amounts s' = reserved_amounts s2
      \<and> au_world s' = au_world s2"
    using p by (auto simp: place_bid_def result_simps split: if_splits)
  with that s1 place_bid_frame(3) [OF p] show thesis by blast
qed

lemma escrow_bid:
  assumes "handle_bid c a node amount s = Inr s'" "escrow_ok s"
    and "\<forall>m. auction_info s m \<noteq> None \<longrightarrow> m \<in> set (ongoing_auctions s)"
  shows "escrow_ok s'"
    and "reserves_held c held \<Longrightarrow>
      held (au_world s') b + escrow s b = held (au_world s) b + escrow s' b"
proof -
  obtain s1 s2 where s1: "reserved_amounts s1 = reserved_amounts s" "au_world s1 = au_world s"
      "set (ongoing_auctions s1) = insert node (set (ongoing_auctions s))"
    and s2: "s2 = s1 \<or> reserve_bid c a node amount s1 = Inr s2"
    and s': "reserved_amounts s' = reserved_amounts s2" "au_world s' = au_world s2"
      "ongoing_auctions s' = ongoing_auctions s1"
    by (rule handle_bid_reserves [OF assms(1,3)])
  have "escrow_ok s1" using assms(2) s1 by (simp add: escrow_ok_def)
  then have ok2: "escrow_ok s2" using s2 escrow_ok_reserve s1(3) by blast
  have "ongoing_auctions s2 = ongoing_auctions s1" using s2 reserve_bid_frame(4) by blast
  with ok2 show ok': "escrow_ok s'" using s' by (simp add: escrow_ok_def)
  assume h: "reserves_held c held"
  have rec: "on_record s1 b node = on_record s b node" "on_record s2 b node = on_record s' b node"
    using s1(1) s'(1) by (simp_all add: on_record_def)
  have "held (au_world s2) b + on_record s1 b node = held (au_world s1) b + on_record s2 b node"
    using s2 held_reserve [OF h] by auto
  moreover have "escrow s' b + on_record s b node = escrow s b + on_record s' b node"
    by (rule escrow_change [OF assms(2) ok' handle_bid_frame(2) [OF assms(1)]]) (use s'(3) s1(3) in auto)
  ultimately show "held (au_world s') b + escrow s b = held (au_world s) b + escrow s' b"
    using rec s1(2) s'(2) by simp
qed

subsection \<open>The hook\<close>

lemma held_release:
  assumes "reserves_held c held" "distinct (map fst row)"
  shows "held (fold (\<lambda>(b, x). ac_unreserve c b x) row w) b =
    held w b - (case map_of row b of None \<Rightarrow> 0 | Some r \<Rightarrow> unat r)"
  using assms(2)
proof (induction row arbitrary: w)
  case (Cons p row)
  obtain a x where "p = (a, x)" by fastforce
  moreover have "held (ac_unreserve c a x w) = (held w)(a := held w a - unat x)"
    using assms(1) by (simp add: reserves_held_def)
  moreover have "map_of row a = None" using Cons.prems \<open>p = (a, x)\<close> by (simp add: map_of_eq_None_iff)
  ultimately show ?case using Cons by simp
qed simp

lemma held_manage:
  assumes "reserves_held c held" "manage_auction_end c node d s = (q, s')" "escrow_ok s"
  shows "held (au_world s') b = held (au_world s) b - on_record s b node"
proof -
  have "distinct (map fst (reserved_amounts s node))"
    using assms(3) by (simp add: escrow_ok_def dm_distinct_def dm_iter_def)
  note r = held_release [OF assms(1) this]
  let ?w = "fold (\<lambda>(b, x). ac_unreserve c b x) (reserved_amounts s node) (au_world s)"
  have "held (au_world s') = held ?w"
  proof (cases "ac_transfer c (fst d) (ac_offical c) (snd d) ?w")
    case (Inl e)
    then show ?thesis
      using assms(2) by (auto simp: manage_auction_end_def release_reserves_def Let_def split: prod.splits)
  next
    case (Inr w)
    then have "au_world s' = snd (ac_mint c (fst d) node (ac_set_expires c node w))"
      using assms(2) by (auto simp: manage_auction_end_def release_reserves_def Let_def split: prod.splits)
    with Inr assms(1) show ?thesis by (simp add: reserves_held_def)
  qed
  then show ?thesis using r by (simp add: on_record_def dm_get_def)
qed

lemma escrow_node:
  assumes "on_initialize_node c n node s = Some s'" "escrow_ok s" "node \<in> set (ongoing_auctions s)"
  shows "escrow_ok s'"
    and "reserves_held c held \<Longrightarrow> escrow s b \<le> held (au_world s) b \<Longrightarrow>
      held (au_world s') b + escrow s b = held (au_world s) b + escrow s' b"
proof -
  obtain s1 res s2 where c: "carry_winning c n node s = Some s1"
    and e: "check_auction_end c n node s1 = Some (res, s2)"
    and s': "s' = (case res of None \<Rightarrow> s2 | Some d \<Rightarrow> snd (manage_auction_end c node d s2))"
    using assms(1) by (auto simp: on_initialize_node_def bind_eq_Some_conv split: option.splits)
  note f = carry_winning_frame [OF c] check_auction_end_frame [OF e]
  have s2: "reserved_amounts s2 = reserved_amounts s" "au_world s2 = au_world s"
    "ongoing_auctions s2 = ongoing_auctions s" using f by simp_all
  then have ok2: "escrow_ok s2" using assms(2) by (simp add: escrow_ok_def)
  have rec: "on_record s2 = on_record s" by (intro ext) (simp add: on_record_def s2(1))
  have "escrow_ok s' \<and> (reserves_held c held \<longrightarrow> escrow s b \<le> held (au_world s) b \<longrightarrow>
      held (au_world s') b + escrow s b = held (au_world s) b + escrow s' b)"
  proof (cases res)
    case None
    then show ?thesis using s' s2 ok2 rec by (simp add: escrow_def)
  next
    case (Some d)
    obtain q where m: "manage_auction_end c node d s2 = (q, s')" using s' Some by (cases "manage_auction_end c node d s2") auto
    note g = manage_auction_end_frame [OF m]
    have ok': "escrow_ok s'"
      using ok2 g(4,5) by (auto simp: escrow_ok_def) (metis dm_iter_clear dm_iter_other(3))
    have "escrow s' b + on_record s b node = escrow s b + on_record s' b node"
      by (rule escrow_change [OF assms(2) ok' on_initialize_node_frame(3) [OF assms(1)]])
        (use g(4) s2(3) assms(3) in simp_all)
    moreover have "on_record s' b node = 0" using g(5) by (simp add: on_record_def dm_simps)
    moreover have "on_record s b node \<le> escrow s b"
      using escrow_split [OF _ assms(3), of s b] by (simp add: escrow_def)
    ultimately show ?thesis
      using ok' held_manage [OF _ m ok2, of held b] s2(2) rec by auto
  qed
  then show "escrow_ok s'" "reserves_held c held \<Longrightarrow> escrow s b \<le> held (au_world s) b \<Longrightarrow>
      held (au_world s') b + escrow s b = held (au_world s) b + escrow s' b" by blast+
qed

lemma escrow_nodes:
  assumes "on_initialize_nodes c n nodes s = Some s'" "escrow_ok s" "set nodes \<subseteq> set (ongoing_auctions s)"
  shows "escrow_ok s' \<and> (reserves_held c held \<longrightarrow> escrow s b \<le> held (au_world s) b \<longrightarrow>
      held (au_world s') b + escrow s b = held (au_world s) b + escrow s' b)"
  using assms
proof (induction nodes arbitrary: s)
  case (Cons node nodes)
  then obtain s1 where s1: "on_initialize_node c n node s = Some s1"
    and r: "on_initialize_nodes c n nodes s1 = Some s'" by (auto simp: bind_eq_Some_conv)
  note n = escrow_node [OF s1 Cons.prems(2)]
  have "set nodes \<subseteq> set (ongoing_auctions s1)"
    using Cons.prems(3) on_initialize_node_frame(2) [OF s1] by auto
  with Cons.IH [OF r] n Cons.prems(3) show ?case by fastforce
qed simp

lemma escrow_ok_run:
  assumes "auction_run c bids s" "0 < en c"
  shows "escrow_ok s"
  using assms(1)
proof (induction rule: auction_run.induct)
  case (run_genesis n w)
  then show ?case by (simp add: escrow_ok_def auction_genesis_def dm_iter_def)
next
  case (run_bid bids s a name amount s' d node)
  then have "handle_bid c a node amount s = Inr s'" by (auto simp: bid_iff)
  moreover have "\<forall>m. auction_info s m \<noteq> None \<longrightarrow> m \<in> set (ongoing_auctions s)"
    using run_ok_run [OF run_bid.hyps(1) assms(2)] unfolding run_ok_def by blast
  ultimately show ?case using escrow_bid(1) run_bid.IH by blast
next
  case (run_block bids s w s')
  then have "on_initialize_nodes c (au_block s + 1) (ongoing_auctions s) (next_block w s) = Some s'"
    by (simp add: on_initialize_def)
  moreover have "escrow_ok (next_block w s)" using run_block.IH by (simp add: escrow_ok_def)
  ultimately show ?case using escrow_nodes by fastforce
next
  case (run_other bids s w)
  then show ?case by (simp add: escrow_ok_def)
qed

section \<open>Properties\<close>

text \<open>
  Every leading bid of a running auction, in whatever sample, is covered: its bidder has at
  least that amount on record as reserved for the name.
\<close>
theorem bids_are_covered:
  assumes "auction_run c bids s" "0 < ac_ending_period c"
    "dm_get (winning s) node k = Some (bidder, amount)"
  shows "\<exists>r\<ge>amount. dm_get (reserved_amounts s) node bidder = Some r"
proof -
  have "0 < en c" using assms(2) by (simp add: word_less_nat_alt)
  then have "auction_ok c (bids node) (unat (au_block s)) s node"
    using run_ok_run [OF assms(1)] by (simp add: run_ok_def)
  with assms(3) show ?thesis by (auto simp: auction_ok_def)
qed

theorem bids_are_covered_witness:
  "auction_run demo_auction ((\<lambda>_. [])(97 := [(1, (2, 20))])) demo_late
   \<and> dm_get (winning demo_late) 97 1 = Some (2, 20)
   \<and> (\<exists>r\<ge>20. dm_get (reserved_amounts demo_late) 97 2 = Some r)"
proof -
  have "0 < ac_ending_period demo_auction" by (simp add: demo_auction_def)
  moreover have "dm_get (winning demo_late) 97 1 = Some (2, 20)" by (simp add: demo_late_def dm_get_def)
  ultimately show ?thesis using bids_are_covered [OF demo_late_run] demo_late_run by blast
qed



end
