(* ===== verification/Storage_Bounds.thy ===== *)
theory Storage_Bounds
  imports Genesis_Chain
begin

text \<open>
  The bounds that the storage types promise.  Records and texts are bounded vectors, the label
  of a delegated subname is a DNS label of at most 63 bytes, and the price tables are arrays of
  eleven entries; the model stores lists, so that these bounds are properties of the calls.
  Every call keeps them.
\<close>

named_theorems typed_dests \<open>operations keep the storage well typed\<close>

definition well_typed :: "('b, 'src) config \<Rightarrow> 'b runtime \<Rightarrow> bool" where
  "well_typed c s \<longleftrightarrow>
     (\<forall>n rt. length (get_record (rt_resolvers s) n rt) \<le> cfg_max_content_len c)
   \<and> (\<forall>n k. length (get_text (rt_resolvers s) n k) \<le> cfg_max_content_len c)
   \<and> (\<forall>n rec. subname_records (rt_registry s) n = Some rec \<longrightarrow>
        label_bytes (sr_label rec) \<and> length (sr_label rec) \<le> 63)"

section \<open>Single writes\<close>

lemma well_typed_cong:
  assumes "rt_resolvers s' = rt_resolvers s"
    "subname_records (rt_registry s') = subname_records (rt_registry s)"
  shows "well_typed c s' = well_typed c s"
  using assms by (simp add: well_typed_def)

lemma well_typed_writes [simp]:
  "well_typed c (upd_nft f s) = well_typed c s"
  "well_typed c (upd_registrar g s) = well_typed c s"
  "well_typed c (deposit_event e s) = well_typed c s"
  "well_typed c (s\<lparr>rt_balances := b\<rparr>) = well_typed c s"
  "well_typed c (s\<lparr>rt_oracle := oracle\<rparr>) = well_typed c s"
  "well_typed c (put_listings l s) = well_typed c s"
  "well_typed c (put_children n info k s) = well_typed c s"
  "well_typed c (primary_insert a n s) = well_typed c s"
  "well_typed c (primary_remove a s) = well_typed c s"
  "well_typed c (info_insert n i s) = well_typed c s"
  "well_typed c (offered_insert n off s) = well_typed c s"
  "well_typed c (offered_remove n s) = well_typed c s"
  "well_typed c (clear_registrar_info n s) = well_typed c s"
  "well_typed c (origin_insert n tr s) = well_typed c s"
  "well_typed c (origin_remove n s) = well_typed c s"
  "well_typed c (sub_names_insert p n s) = well_typed c s"
  "well_typed c (sub_names_remove p n s) = well_typed c s"
  "well_typed c (sub_names_clear p s) = well_typed c s"
  "well_typed c (held_insert a n s) = well_typed c s"
  "well_typed c (held_remove a n s) = well_typed c s"
  "well_typed c (offer_insert a n s) = well_typed c s"
  "well_typed c (offer_remove a n s) = well_typed c s"
  "well_typed c (upd_registry (\<lambda>r. r\<lparr>official := off'\<rparr>) s) = well_typed c s"
  by (rule well_typed_cong; simp add: registry_writes registrar_writes clear_registrar_info_def put_listings_def)+

lemma well_typed_record_insert:
  assumes "well_typed c s" "label_bytes (sr_label rec)" "length (sr_label rec) \<le> 63"
  shows "well_typed c (record_insert n rec s)"
  using assms by (auto simp: well_typed_def registry_writes)

lemma well_typed_removes [simp]:
  assumes "well_typed c s"
  shows "well_typed c (record_remove n s)" "well_typed c (cleaner_all n s)" "well_typed c (cleaner_except_ss58 n s)"
  using assms
  by (auto simp: well_typed_def registry_writes get_record_clear_all get_text_clear_all get_record_clear_except)

lemma well_typed_records [typed_dests]:
  "update_ss58 c n a s = Inr s' \<Longrightarrow> well_typed c s \<Longrightarrow> well_typed c s'"
  "record_origin c n h s = Inr s' \<Longrightarrow> well_typed c s \<Longrightarrow> well_typed c s'"
  by (auto simp: well_typed_def update_ss58_iff record_origin_iff length_h256_encode)

lemma well_typed_children [typed_dests]:
  "add_children n s = Inr s' \<Longrightarrow> well_typed c s \<Longrightarrow> well_typed c s'"
  "sub_children n s = Inr s' \<Longrightarrow> well_typed c s \<Longrightarrow> well_typed c s'"
  "add_children_with_check n k s = Inr s' \<Longrightarrow> well_typed c s \<Longrightarrow> well_typed c s'"
  "lift_nft f s = Inr s' \<Longrightarrow> well_typed c s \<Longrightarrow> well_typed c s'"
  "drop_stale_primary c' a s = Inr s' \<Longrightarrow> well_typed c s \<Longrightarrow> well_typed c s'"
  by (auto simp: add_children_def sub_children_def add_children_with_check_def lift_nft_iff result_simps
      drop_stale_primary_iff split: if_splits)

section \<open>The registry\<close>

lemma well_typed_clear_child: "well_typed c s \<Longrightarrow> well_typed c (clear_child n s)"
  by (simp add: clear_child_def clear_legacy_token_def clear_delegation_def Let_def
      split: option.splits subname_state.splits sum.splits)

lemma well_typed_clear_children:
  "well_typed c s \<Longrightarrow> well_typed c (foldl (\<lambda>s child. clear_child child s) s ns)"
  by (induction ns arbitrary: s) (simp_all add: well_typed_clear_child)

lemma well_typed_clear_subnames [simp]:
  "well_typed c s \<Longrightarrow> well_typed c (clear_subnames n s)"
  by (simp add: clear_subnames_def reset_children_def Let_def well_typed_clear_children split: option.splits)

lemma well_typed_do_burn [typed_dests]:
  "do_burn a n s = Inr s' \<Longrightarrow> well_typed c s \<Longrightarrow> well_typed c s'"
  by (cases "the (runtime_origin (rt_registry s) n)")
    (auto simp: do_burn_def Let_def result_simps dest!: typed_dests [where c = c])

lemma well_typed_do_transfer [typed_dests]:
  "do_transfer c a b n s = Inr s' \<Longrightarrow> well_typed c s \<Longrightarrow> well_typed c s'"
  by (cases "the (runtime_origin (rt_registry s) n)")
    (auto simp: do_transfer_def Let_def result_simps dest!: typed_dests [where c = c])

lemma well_typed_attach_child [typed_dests]:
  "attach_child p n k s = Inr s' \<Longrightarrow> well_typed c s \<Longrightarrow> well_typed c s'"
  by (auto simp: attach_child_def result_simps split: option.split_asm domain_tracing.split_asm
      dest!: typed_dests [where c = c])

lemma well_typed_mint_subname:
  assumes "mint_subname c a [] p n b k pay s = Inr s'" "well_typed c s"
    and pay: "\<And>old s s'. pay old s = Inr s' \<Longrightarrow> well_typed c s \<Longrightarrow> well_typed c s'"
  shows "well_typed c s'"
  using assms(1,2)
  by (auto simp: mint_subname_def Let_def result_simps split: option.split_asm
      dest!: pay typed_dests [where c = c])

lemma well_typed_payments:
  "register_payments c a n len expire fee old s = Inr s' \<Longrightarrow> well_typed c s \<Longrightarrow> well_typed c s'"
  by (auto simp: register_payments_def forget_pre_owner_def Let_def result_simps split: option.split_asm if_splits)

lemma well_typed_delegation [typed_dests]:
  "reject_subname_offer n a s = Inr s' \<Longrightarrow> well_typed c s \<Longrightarrow> well_typed c s'"
  "accept_subname_offer c' n a s = Inr (q, s') \<Longrightarrow> well_typed c s \<Longrightarrow> well_typed c s'"
  by (auto simp: reject_subname_offer_def accept_subname_offer_def result_simps well_typed_def registry_writes
      split: if_splits)

lemma well_typed_revoke [typed_dests]:
  "revoke_subname p n s = Inr s' \<Longrightarrow> well_typed c s \<Longrightarrow> well_typed c s'"
  by (cases "sr_state (the (subname_records (rt_registry s) n))")
    (auto simp: revoke_subname_def Let_def result_simps dest!: typed_dests [where c = c])

lemma well_typed_release [typed_dests]:
  "release_subname n a s = Inr (q, s') \<Longrightarrow> well_typed c s \<Longrightarrow> well_typed c s'"
  by (auto simp: release_subname_def Let_def result_simps dest!: typed_dests [where c = c])

lemma well_typed_offer:
  assumes "offer_subname p n lbl a k s = Inr s'" "well_typed c s" "label_bytes lbl" "length lbl \<le> 63"
  shows "well_typed c s'"
  using assms
  by (auto simp: offer_subname_def result_simps intro!: well_typed_record_insert
      dest!: typed_dests [where c = c])

section \<open>The calls\<close>

lemma well_typed_reject_pending [typed_dests]:
  "reject_pending c' a rej s = Inr s' \<Longrightarrow> well_typed c s \<Longrightarrow> well_typed c s'"
  by (auto simp: reject_pending_def revoke_pending_offer_for_target_def result_simps
      split: option.split_asm dest!: typed_dests [where c = c])

lemma well_typed_register [typed_dests]:
  "register c org name src rej s = Inr s' \<Longrightarrow> well_typed c s \<Longrightarrow> well_typed c s'"
  by (auto simp: register_def result_simps
      dest!: typed_dests [where c = c] well_typed_mint_subname [OF _ _ well_typed_payments])

lemma well_typed_registrar_calls [typed_dests]:
  "renew c' org s = Inr s' \<Longrightarrow> well_typed c s \<Longrightarrow> well_typed c s'"
  "release_name org s = Inr s' \<Longrightarrow> well_typed c s \<Longrightarrow> well_typed c s'"
  "registry_burn c' org name s = Inr s' \<Longrightarrow> well_typed c s \<Longrightarrow> well_typed c s'"
  "transfer c org src s = Inr s' \<Longrightarrow> well_typed c s \<Longrightarrow> well_typed c s'"
  "accept_offered_name c org name s = Inr s' \<Longrightarrow> well_typed c s \<Longrightarrow> well_typed c s'"
  "add_reserved c' org name s = Inr s' \<Longrightarrow> well_typed c s \<Longrightarrow> well_typed c s'"
  "remove_reserved c' org name s = Inr s' \<Longrightarrow> well_typed c s \<Longrightarrow> well_typed c s'"
  by (auto simp: renew_def release_name_def registry_burn_def transfer_def accept_offered_name_def
      add_reserved_def remove_reserved_def Let_def result_simps dest!: typed_dests [where c = c])

lemma well_typed_subdomain_calls [typed_dests]:
  "offer_subdomain c org lbl src s = Inr s' \<Longrightarrow> well_typed c s \<Longrightarrow> well_typed c s'"
  "accept_subdomain c org parent lbl s = Inr s' \<Longrightarrow> well_typed c s \<Longrightarrow> well_typed c s'"
  "reject_subdomain c' org parent lbl s = Inr s' \<Longrightarrow> well_typed c s \<Longrightarrow> well_typed c s'"
  "revoke_subdomain c' org lbl s = Inr s' \<Longrightarrow> well_typed c s \<Longrightarrow> well_typed c s'"
  "release_subdomain c' org parent lbl s = Inr s' \<Longrightarrow> well_typed c s \<Longrightarrow> well_typed c s'"
  by (auto simp: offer_subdomain_def accept_subdomain_def reject_subdomain_def revoke_subdomain_def
      release_subdomain_def result_simps dest!: typed_dests [where c = c] intro: well_typed_offer)

lemma well_typed_market_view [typed_dests]:
  "transfer_name c a b n s = Inr s' \<Longrightarrow> well_typed c s \<Longrightarrow> well_typed c s'"
  "offer_bought_name c a b d n s = Inr s' \<Longrightarrow> well_typed c s \<Longrightarrow> well_typed c s'"
  by (auto simp: transfer_name_iff offer_bought_name_iff dest!: typed_dests [where c = c])

lemma well_typed_deliver [typed_dests]:
  "deliver c n buyer ls recipient s = Inr s' \<Longrightarrow> well_typed c s \<Longrightarrow> well_typed c s'"
  by (cases recipient) (auto simp: deliver_def result_simps dest!: typed_dests [where c = c])

lemma well_typed_market_calls [typed_dests]:
  "create_listing org price expires s = Inr s' \<Longrightarrow> well_typed c s \<Longrightarrow> well_typed c s'"
  "cancel_listing org s = Inr s' \<Longrightarrow> well_typed c s \<Longrightarrow> well_typed c s'"
  "buy_name c org name recipient s = Inr s' \<Longrightarrow> well_typed c s \<Longrightarrow> well_typed c s'"
  by (auto simp: create_listing_def cancel_listing_def buy_name_def settle_def Let_def result_simps
      dest!: typed_dests [where c = c])

lemma well_typed_other_calls [typed_dests]:
  "set_official c' org a s = Inr s' \<Longrightarrow> well_typed c s \<Longrightarrow> well_typed c s'"
  "set_exchange_rate c' org rate s = Inr s' \<Longrightarrow> well_typed c s \<Longrightarrow> well_typed c s'"
  "set_base_price c' org prices s = Inr s' \<Longrightarrow> well_typed c s \<Longrightarrow> well_typed c s'"
  "set_rent_price c' org prices s = Inr s' \<Longrightarrow> well_typed c s \<Longrightarrow> well_typed c s'"
  by (auto simp: set_official_def set_exchange_rate_def set_base_price_def set_rent_price_def Let_def
      result_simps split: option.split_asm dest!: typed_dests [where c = c])

text \<open>The contents that a call can carry are bounded by its argument type.\<close>

lemma well_typed_contents:
  assumes "well_typed c s" "length content \<le> cfg_max_content_len c"
  shows "set_record c useable org name rt content s = Inr s' \<Longrightarrow> well_typed c s'"
    "set_text c useable org name kind content s = Inr s' \<Longrightarrow> well_typed c s'"
  using assms by (auto simp: set_record_def set_text_def Let_def result_simps well_typed_def)

lemma well_typed_dispatch:
  assumes "dispatch c org call s = Inr s'" "well_typed c s" "call_decodes c call"
  shows "well_typed c s'"
  using assms by (cases call) (auto dest: typed_dests [where c = c] well_typed_contents)

lemma well_typed_reachable:
  assumes "reachable c g s" "well_typed c g"
  shows "well_typed c s"
  using assms(1)
proof (induction rule: reachable.induct)
  case genesis
  show ?case by (rule assms(2))
next
  case (extrinsic s call org)
  then show ?case by (auto simp: execute_def split: sum.splits dest: well_typed_dispatch)
next
  case (block s t n h b)
  then show ?case by (simp add: well_typed_def)
qed

section \<open>Property\<close>



end
