(* ===== verification/Dns_Startup.thy ===== *)
theory Dns_Startup
  imports Dns_Server
begin

text \<open>
  How the node starts its DNS server: the command-line options of src/node/src/cli.rs, the
  configuration that src/node/src/command.rs makes of them, and the choice of CPU cores in
  src/pallets/pns-ddns/src/dns_server.rs.  The core ids of the machine are a parameter.
\<close>

section \<open>Command line\<close>

record cli =
  cli_no_dns :: bool
  cli_dns_port :: u16
  cli_dns_workers :: nat
  cli_dns_min_response_ms :: u64
  cli_dns_cores :: "nat list option"

datatype spec_source = Development_Spec | Local_Spec | Json_File string

definition load_spec :: "string \<Rightarrow> spec_source" where
  "load_spec spec_id =
     (if spec_id = ''dev'' then Development_Spec
      else if spec_id = '''' \<or> spec_id = ''local'' then Local_Spec
      else Json_File spec_id)"

definition cli_dns_config :: "cli \<Rightarrow> dns_config" where
  "cli_dns_config opts =
     \<lparr>dns_port = cli_dns_port opts, dns_workers = cli_dns_workers opts,
      dns_cores = cli_dns_cores opts, min_response_ms = cli_dns_min_response_ms opts\<rparr>"

section \<open>CPU affinity\<close>

text \<open>Each thread of the DNS runtime takes the next core; a thread beyond the last is not pinned.\<close>

definition on_thread_start :: "nat list \<Rightarrow> nat option \<times> nat list" where
  "on_thread_start aff_iter = (case aff_iter of [] \<Rightarrow> (None, []) | core # rest \<Rightarrow> (Some core, rest))"

fun thread_cores :: "nat \<Rightarrow> nat list \<Rightarrow> nat option list" where
  "thread_cores 0 aff_iter = []"
| "thread_cores (Suc n) aff_iter =
     (case on_thread_start aff_iter of (core, rest) \<Rightarrow> core # thread_cores n rest)"

text \<open>
  The configuration that the handler is built from, without the core list, and the core of each
  worker thread.  \<open>new_full\<close> starts the server unless it is disabled.
\<close>

definition start_dns_server :: "nat list option \<Rightarrow> dns_config \<Rightarrow> dns_config \<times> nat option list" where
  "start_dns_server core_ids config =
     (let affinity_cores = determine_dns_cores core_ids (dns_cores config) (dns_workers config)
      in (config\<lparr>dns_cores := None\<rparr>, thread_cores (dns_workers config) affinity_cores))"

definition start_dns :: "nat list option \<Rightarrow> cli \<Rightarrow> (dns_config \<times> nat option list) option" where
  "start_dns core_ids opts =
     (if \<not> cli_no_dns opts then Some (start_dns_server core_ids (cli_dns_config opts)) else None)"

section \<open>Facts\<close>

text \<open>
  The requested cores that exist, in the order of the request, or the highest-numbered ones; no
  pinning at all below three cores.
\<close>

lemma map_filter_find: "List.map_filter (\<lambda>i. find (\<lambda>c. c = i) xs) ids = filter (\<lambda>i. i \<in> set xs) ids"
proof -
  have "find (\<lambda>c. c = i) xs = (if i \<in> set xs then Some i else None)" for i
    by (induction xs) auto
  then show ?thesis by (induction ids) (simp_all add: map_filter_simps)
qed

lemma thread_cores_eq:
  "thread_cores n aff_iter = map (\<lambda>i. if i < length aff_iter then Some (aff_iter ! i) else None) [0..<n]"
proof (induction n arbitrary: aff_iter)
  case (Suc n)
  then show ?case
    by (cases aff_iter) (simp_all add: on_thread_start_def map_upt_Suc del: upt_Suc)
qed simp

lemma determine_dns_cores_bounds:
  assumes "determine_dns_cores core_ids requested workers = cores" "core_ids = Some all_cores"
  shows "length cores \<le> workers" "set cores \<subseteq> set all_cores" "length all_cores < 3 \<Longrightarrow> cores = []"
  using assms by (auto simp: determine_dns_cores_def map_filter_find split: option.splits if_splits dest: in_set_takeD)

text \<open>Without a request no core that is left out has a higher number than a chosen one.\<close>

lemma highest_cores_chosen:
  assumes "determine_dns_cores (Some all_cores) None workers = cores" "3 \<le> length all_cores"
    "distinct all_cores" "x \<in> set cores" "y \<in> set all_cores - set cores"
  shows "y < x"
proof -
  let ?r = "rev (sort all_cores)"
  have c: "cores = take workers ?r" using assms(1,2) by (auto simp: determine_dns_cores_def)
  have "distinct ?r" "sorted (rev ?r)" using assms(3) by simp_all
  moreover obtain i where i: "i < length ?r" "i < workers" "x = ?r ! i"
    using assms(4) c by (auto simp: in_set_conv_nth)
  moreover have "y \<in> set ?r" using assms(5) by simp
  then obtain j where j: "j < length ?r" "y = ?r ! j" unfolding in_set_conv_nth by blast
  moreover have "\<not> j < workers" using assms(5) j c by (auto simp: in_set_conv_nth)
  ultimately have "i < j" by simp
  then have "y \<le> x" using sorted_rev_nth_mono [OF \<open>sorted (rev ?r)\<close>, of i j] i j by simp
  moreover have "y \<noteq> x" using assms(4,5) by auto
  ultimately show ?thesis by simp
qed

end
