(* ===== verification/Genesis_Config.thy ===== *)
theory Genesis_Config
  imports Genesis_Chain Dns_Startup
begin

text \<open>
  The genesis configurations: one record per pallet with its default, as the
  \<open>GenesisConfig\<close> structs of the pallets, the configuration of the runtime that
  src/runtime/src/genesis_config_presets.rs fills in, the presets offered by name, and the
  chain specifications of src/node/src/chain_spec.rs that refer to them.

  The key ring, the names of the presets and the start of the currency from a list of
  balances are library code and parameters here.  A preset is the configuration itself; its
  JSON text is not modelled.
\<close>

section \<open>The pallets' configurations\<close>

record nft_genesis_config =
  ng_tokens :: "genesis_class list"

definition nft_genesis_default :: nft_genesis_config where
  "nft_genesis_default = \<lparr>ng_tokens = []\<rparr>"

record registry_genesis_config =
  rg_origin :: "(domain_hash \<times> domain_tracing) list"
  rg_official :: "account_id option"

definition registry_genesis_default :: registry_genesis_config where
  "registry_genesis_default = \<lparr>rg_origin = [], rg_official = None\<rparr>"

record registrar_genesis_config =
  rrg_infos :: "(domain_hash \<times> registrar_info) list"
  rrg_reserved_list :: "domain_hash list"
  rrg_reserved_names :: "u8 list list"

definition registrar_genesis_default :: registrar_genesis_config where
  "registrar_genesis_default = \<lparr>rrg_infos = [], rrg_reserved_list = [], rrg_reserved_names = []\<rparr>"

record oracle_genesis_config =
  og_base_prices :: "u128 list"
  og_rent_prices :: "u128 list"
  og_init_rate :: u128

definition oracle_genesis_default :: oracle_genesis_config where
  "oracle_genesis_default =
     \<lparr>og_base_prices = replicate 11 0, og_rent_prices = replicate 11 0, og_init_rate = 0\<rparr>"

record resolvers_genesis_config =
  rsg_texts :: "(domain_hash \<times> text_kind \<times> u8 list) list"

definition resolvers_genesis_default :: resolvers_genesis_config where
  "resolvers_genesis_default = \<lparr>rsg_texts = []\<rparr>"

text \<open>The manager and redeem-code pallets, which the runtime does not include.\<close>

record origin_genesis_config =
  mg_origins :: "account_id list"

definition origin_genesis_default :: origin_genesis_config where
  "origin_genesis_default = \<lparr>mg_origins = []\<rparr>"

record redeem_genesis_config =
  rdg_redeems :: "(u32 \<times> u32) option"

definition redeem_genesis_default :: redeem_genesis_config where
  "redeem_genesis_default = \<lparr>rdg_redeems = None\<rparr>"

section \<open>The runtime's configuration\<close>

record runtime_genesis_config =
  gc_balances :: "(account_id \<times> u128) list"
  gc_aura :: "h256 list"
  gc_grandpa :: "(h256 \<times> u64) list"
  gc_sudo :: "account_id option"
  gc_nft :: nft_genesis_config
  gc_price_oracle :: oracle_genesis_config
  gc_registry :: registry_genesis_config
  gc_registrar :: registrar_genesis_config
  gc_resolvers :: resolvers_genesis_config

definition build_state ::
  "('b, 'src) config \<Rightarrow> ((account_id \<times> u128) list \<Rightarrow> 'b) \<Rightarrow> h256 \<Rightarrow> runtime_genesis_config \<Rightarrow> 'b runtime option" where
  "build_state c endow parent g =
     map_option (\<lambda>nft_st.
       \<lparr>rt_nft = nft_st,
        rt_registry = registry_genesis_build (rg_origin (gc_registry g)) (rg_official (gc_registry g)),
        rt_registrar = registrar_genesis_build c (rrg_infos (gc_registrar g))
          (rrg_reserved_list (gc_registrar g)) (rrg_reserved_names (gc_registrar g)),
        rt_resolvers = resolvers_genesis_build (rsg_texts (gc_resolvers g)),
        rt_market = \<lparr>listings = Map.empty\<rparr>,
        rt_oracle = oracle_genesis_build (og_base_prices (gc_price_oracle g))
          (og_rent_prices (gc_price_oracle g)) (og_init_rate (gc_price_oracle g)),
        rt_origin = origin_genesis_build (mg_origins origin_genesis_default),
        rt_redeem = \<lparr>redeems = Map.empty\<rparr>,
        rt_balances = endow (gc_balances g), rt_now = 0, rt_block_number = 0, rt_parent_hash = parent,
        rt_events = []\<rparr>)
       (nft_genesis_build (cfg_max_class_metadata c) (cfg_max_token_metadata c) (ng_tokens (gc_nft g)) nft_empty)"

text \<open>What \<open>testnet_genesis\<close> sets; the resolver keeps its default.\<close>

definition testnet_genesis_patch ::
  "bool \<Rightarrow> (h256 \<times> h256) list \<Rightarrow> account_id list \<Rightarrow> account_id \<Rightarrow> runtime_genesis_config" where
  "testnet_genesis_patch kusama initial_authorities endowed_accounts root =
     \<lparr>gc_balances = map (\<lambda>k. (k, push_bit 60 1)) endowed_accounts,
      gc_aura = map fst initial_authorities,
      gc_grandpa = map (\<lambda>x. (snd x, 1)) initial_authorities,
      gc_sudo = Some root,
      gc_nft = \<lparr>ng_tokens = [(root, [], [(root, [], default_token_data, NATIVE_BASENODE kusama)])]\<rparr>,
      gc_price_oracle = \<lparr>og_base_prices = genesis_base_prices, og_rent_prices = replicate 11 0, og_init_rate = 1\<rparr>,
      gc_registry = \<lparr>rg_origin = [], rg_official = Some root\<rparr>,
      gc_registrar = \<lparr>rrg_infos = [], rrg_reserved_list = [], rrg_reserved_names = genesis_reserved_names\<rparr>,
      gc_resolvers = resolvers_genesis_default\<rparr>"

section \<open>Presets\<close>

record 'k keyring_lib =
  kr_iter :: "'k list"
  kr_alice :: 'k
  kr_bob :: 'k
  kr_alice_stash :: 'k
  kr_bob_stash :: 'k
  kr_one :: 'k
  kr_two :: 'k
  kr_to_account_id :: "'k \<Rightarrow> account_id"
  kr_sr_public :: "'k \<Rightarrow> h256"
  kr_ed_public :: "'k \<Rightarrow> h256"
  DEV_RUNTIME_PRESET :: string
  LOCAL_TESTNET_RUNTIME_PRESET :: string

definition development_config_genesis :: "'k keyring_lib \<Rightarrow> bool \<Rightarrow> runtime_genesis_config" where
  "development_config_genesis kr kusama =
     testnet_genesis_patch kusama
       [(kr_sr_public kr (kr_alice kr), kr_ed_public kr (kr_alice kr))]
       [kr_to_account_id kr (kr_alice kr), kr_to_account_id kr (kr_bob kr),
        kr_to_account_id kr (kr_alice_stash kr), kr_to_account_id kr (kr_bob_stash kr)]
       (kr_to_account_id kr (kr_alice kr))"

definition local_config_genesis :: "'k keyring_lib \<Rightarrow> bool \<Rightarrow> runtime_genesis_config" where
  "local_config_genesis kr kusama =
     testnet_genesis_patch kusama
       [(kr_sr_public kr (kr_alice kr), kr_ed_public kr (kr_alice kr)),
        (kr_sr_public kr (kr_bob kr), kr_ed_public kr (kr_bob kr))]
       (map (kr_to_account_id kr) (filter (\<lambda>v. v \<noteq> kr_one kr \<and> v \<noteq> kr_two kr) (kr_iter kr)))
       (kr_to_account_id kr (kr_alice kr))"

definition get_preset :: "'k keyring_lib \<Rightarrow> bool \<Rightarrow> string \<Rightarrow> runtime_genesis_config option" where
  "get_preset kr kusama preset_id =
     (if preset_id = DEV_RUNTIME_PRESET kr then Some (development_config_genesis kr kusama)
      else if preset_id = LOCAL_TESTNET_RUNTIME_PRESET kr then Some (local_config_genesis kr kusama)
      else None)"

definition preset_names :: "'k keyring_lib \<Rightarrow> string list" where
  "preset_names kr = [DEV_RUNTIME_PRESET kr, LOCAL_TESTNET_RUNTIME_PRESET kr]"

section \<open>Chain specifications\<close>

datatype chain_type = Chain_Development | Chain_Local

record 'w chain_spec =
  cs_code :: 'w
  cs_name :: string
  cs_id :: string
  cs_chain_type :: chain_type
  cs_preset_name :: string

definition development_chain_spec :: "'k keyring_lib \<Rightarrow> 'w option \<Rightarrow> string + 'w chain_spec" where
  "development_chain_spec kr wasm_binary =
     (case wasm_binary of
        None \<Rightarrow> Inl ''Development wasm not available''
      | Some w \<Rightarrow> Inr \<lparr>cs_code = w, cs_name = ''Development'', cs_id = ''dev'',
          cs_chain_type = Chain_Development, cs_preset_name = DEV_RUNTIME_PRESET kr\<rparr>)"

definition local_chain_spec :: "'k keyring_lib \<Rightarrow> 'w option \<Rightarrow> string + 'w chain_spec" where
  "local_chain_spec kr wasm_binary =
     (case wasm_binary of
        None \<Rightarrow> Inl ''Development wasm not available''
      | Some w \<Rightarrow> Inr \<lparr>cs_code = w, cs_name = ''Local Testnet'', cs_id = ''local_testnet'',
          cs_chain_type = Chain_Local, cs_preset_name = LOCAL_TESTNET_RUNTIME_PRESET kr\<rparr>)"

definition load_chain_spec ::
  "'k keyring_lib \<Rightarrow> 'w option \<Rightarrow> (string \<Rightarrow> string + 'w chain_spec) \<Rightarrow> string \<Rightarrow> string + 'w chain_spec" where
  "load_chain_spec kr wasm_binary from_json_file spec_id =
     (case load_spec spec_id of
        Development_Spec \<Rightarrow> development_chain_spec kr wasm_binary
      | Local_Spec \<Rightarrow> local_chain_spec kr wasm_binary
      | Json_File path \<Rightarrow> from_json_file path)"

section \<open>Facts\<close>

text \<open>The patched configuration builds the genesis of Runtime\<open>_\<close>Api.\<close>

lemma build_state_testnet:
  "build_state c endow parent (testnet_genesis_patch kusama auths endowed root) =
     testnet_genesis kusama c root (endow (map (\<lambda>k. (k, push_bit 60 1)) endowed)) parent"
  by (simp add: build_state_def testnet_genesis_patch_def testnet_genesis_def resolvers_genesis_default_def
      origin_genesis_default_def)

lemma testnet_genesis_total: "\<exists>g. testnet_genesis kusama c root balances parent = Some g"
  by (simp add: testnet_genesis_def nft_create_class_def nft_mint_def nft_empty_def checked_add_def)

text \<open>
  The names offered are the names that work, and each of them starts a chain in which the
  invariant holds, whose official account and administrator is Alice and on which every
  endowed account has the same balance.
\<close>

theorem presets_bootstrap:
  assumes "cfg_base_node c = NATIVE_BASENODE kusama"
  shows "(get_preset kr kusama i \<noteq> None \<longleftrightarrow> i \<in> set (preset_names kr))
    \<and> (\<forall>p. get_preset kr kusama i = Some p \<longrightarrow>
        gc_sudo p = Some (kr_to_account_id kr (kr_alice kr)) \<and> snd ` set (gc_balances p) \<subseteq> {2 ^ 60}
        \<and> (\<exists>g. build_state c endow parent p = Some g \<and> pns_inv c g \<and> rt_balances g = endow (gc_balances p)
              \<and> official (rt_registry g) = gc_sudo p))"
proof -
  let ?root = "kr_to_account_id kr (kr_alice kr)"
  have patch: "\<exists>auths endowed. p = testnet_genesis_patch kusama auths endowed ?root"
    if "get_preset kr kusama i = Some p" for p
    using that by (auto simp: get_preset_def development_config_genesis_def local_config_genesis_def split: if_splits)
  have "gc_sudo p = Some ?root \<and> snd ` set (gc_balances p) \<subseteq> {2 ^ 60}
      \<and> (\<exists>g. build_state c endow parent p = Some g \<and> pns_inv c g \<and> rt_balances g = endow (gc_balances p)
            \<and> official (rt_registry g) = gc_sudo p)" if p: "get_preset kr kusama i = Some p" for p
  proof -
    obtain auths endowed where a: "p = testnet_genesis_patch kusama auths endowed ?root" using patch [OF p] by blast
    obtain g where g: "build_state c endow parent p = Some g"
      using testnet_genesis_total by (metis a build_state_testnet)
    then have "pns_inv c g"
      using testnet_genesis_inv [OF _ assms] unfolding a build_state_testnet by blast
    with g show ?thesis
      by (auto simp: a build_state_def testnet_genesis_patch_def registry_genesis_build_def push_bit_eq_mult)
  qed
  then show ?thesis by (auto simp: get_preset_def preset_names_def)
qed

text \<open>Without a file the node runs on one of the presets; it fails only when the runtime was not built.\<close>

lemma built_in_specs_start:
  assumes "spec_id \<in> {''dev'', '''', ''local''}"
  shows "(\<exists>e. load_chain_spec kr wasm_binary from_json_file spec_id = Inl e) \<longleftrightarrow> wasm_binary = None"
    "load_chain_spec kr wasm_binary from_json_file spec_id = Inr spec
       \<Longrightarrow> get_preset kr kusama (cs_preset_name spec) \<noteq> None"
  using assms
  by (auto simp: load_chain_spec_def load_spec_def development_chain_spec_def local_chain_spec_def get_preset_def
      split: option.splits)

text \<open>The defaults alone start a chain without an official account, on which no name can be registered.\<close>

definition runtime_genesis_default :: runtime_genesis_config where
  "runtime_genesis_default =
     \<lparr>gc_balances = [], gc_aura = [], gc_grandpa = [], gc_sudo = None, gc_nft = nft_genesis_default,
      gc_price_oracle = oracle_genesis_default, gc_registry = registry_genesis_default,
      gc_registrar = registrar_genesis_default, gc_resolvers = resolvers_genesis_default\<rparr>"

lemma default_genesis_closed:
  "\<exists>g. build_state c endow parent runtime_genesis_default = Some g
     \<and> (\<forall>org name src s'. register c org name src None g \<noteq> Inr s')"
proof -
  obtain g where g: "build_state c endow parent runtime_genesis_default = Some g" "official (rt_registry g) = None"
    by (simp add: build_state_def runtime_genesis_default_def nft_genesis_default_def
        registry_genesis_default_def registry_genesis_build_def)
  then have "register c org name src None g \<noteq> Inr s'" for org name src s'
    by (auto elim!: register_cases simp: reject_pending_def)
  with g(1) show ?thesis by blast
qed

end
