(* ===== verification/Call_Weights.thy ===== *)
theory Call_Weights
  imports Redeem_Code Calls
begin

text \<open>
  The weights of the calls.  Each pallet declares its weights in a trait \<open>WeightInfo\<close>, a record
  here, and names one of them in front of every call; \<open>call_weight\<close> is that choice for the calls
  of the composed runtime.  The type of weights, its addition and its zero are parameters.

  The manager and redeem-code pallets, which the runtime does not include, compute some of
  their weights.
\<close>

section \<open>The pallets of the runtime\<close>

record 'w oracle_weights =
  w_set_exchange_rate :: 'w
  w_set_base_price :: 'w
  w_set_rent_price :: 'w

record 'w registry_weights =
  w_burn :: 'w
  w_set_official :: 'w

record 'w registrar_weights =
  w_offer_subdomain :: "u32 \<Rightarrow> 'w"
  w_accept_subdomain :: 'w
  w_reject_subdomain :: 'w
  w_revoke_subdomain :: 'w
  w_release_subdomain :: 'w
  w_accept_offered_name :: 'w
  w_register :: "u32 \<Rightarrow> 'w"
  w_renew :: 'w
  w_transfer :: 'w
  w_add_reserved :: 'w
  w_remove_reserved :: 'w
  w_release_name :: 'w

record 'w resolvers_weights =
  w_set_text :: "u32 \<Rightarrow> 'w"
  w_set_record :: "u32 \<Rightarrow> 'w"

record 'w market_weights =
  w_create_listing :: 'w
  w_cancel_listing :: 'w
  w_buy_name :: 'w

definition oracle_unit_weights :: "'w \<Rightarrow> 'w oracle_weights" where
  "oracle_unit_weights zero =
     \<lparr>w_set_exchange_rate = zero, w_set_base_price = zero, w_set_rent_price = zero\<rparr>"

definition registry_unit_weights :: "'w \<Rightarrow> 'w registry_weights" where
  "registry_unit_weights zero = \<lparr>w_burn = zero, w_set_official = zero\<rparr>"

definition registrar_unit_weights :: "'w \<Rightarrow> 'w registrar_weights" where
  "registrar_unit_weights zero =
     \<lparr>w_offer_subdomain = (\<lambda>_. zero), w_accept_subdomain = zero, w_reject_subdomain = zero,
      w_revoke_subdomain = zero, w_release_subdomain = zero, w_accept_offered_name = zero,
      w_register = (\<lambda>_. zero), w_renew = zero, w_transfer = zero, w_add_reserved = zero,
      w_remove_reserved = zero, w_release_name = zero\<rparr>"

definition resolvers_unit_weights :: "'w \<Rightarrow> 'w resolvers_weights" where
  "resolvers_unit_weights zero = \<lparr>w_set_text = (\<lambda>_. zero), w_set_record = (\<lambda>_. zero)\<rparr>"

definition market_unit_weights :: "'w \<Rightarrow> 'w market_weights" where
  "market_unit_weights zero = \<lparr>w_create_listing = zero, w_cancel_listing = zero, w_buy_name = zero\<rparr>"

record 'w pns_weights =
  pw_oracle :: "'w oracle_weights"
  pw_registry :: "'w registry_weights"
  pw_registrar :: "'w registrar_weights"
  pw_resolvers :: "'w resolvers_weights"
  pw_market :: "'w market_weights"

fun call_weight :: "'w pns_weights \<Rightarrow> 'src call \<Rightarrow> 'w" where
  "call_weight w (Call_set_exchange_rate rate) = w_set_exchange_rate (pw_oracle w)"
| "call_weight w (Call_set_base_price prices) = w_set_base_price (pw_oracle w)"
| "call_weight w (Call_set_rent_price prices) = w_set_rent_price (pw_oracle w)"
| "call_weight w (Call_burn name) = w_burn (pw_registry w)"
| "call_weight w (Call_set_official new_official) = w_set_official (pw_registry w)"
| "call_weight w (Call_add_reserved name) = w_add_reserved (pw_registrar w)"
| "call_weight w (Call_remove_reserved name) = w_remove_reserved (pw_registrar w)"
| "call_weight w (Call_register name owner reject_offer) = w_register (pw_registrar w) (of_nat (length name))"
| "call_weight w Call_renew = w_renew (pw_registrar w)"
| "call_weight w (Call_transfer receiver) = w_transfer (pw_registrar w)"
| "call_weight w Call_release_name = w_release_name (pw_registrar w)"
| "call_weight w (Call_offer_subdomain lbl target) = w_offer_subdomain (pw_registrar w) (of_nat (length lbl))"
| "call_weight w (Call_accept_subdomain parent lbl) = w_accept_subdomain (pw_registrar w)"
| "call_weight w (Call_reject_subdomain parent lbl) = w_reject_subdomain (pw_registrar w)"
| "call_weight w (Call_revoke_subdomain lbl) = w_revoke_subdomain (pw_registrar w)"
| "call_weight w (Call_release_subdomain parent lbl) = w_release_subdomain (pw_registrar w)"
| "call_weight w (Call_accept_offered_name name) = w_accept_offered_name (pw_registrar w)"
| "call_weight w (Call_set_record name rt content) = w_set_record (pw_resolvers w) (of_nat (length content))"
| "call_weight w (Call_set_text name kind content) = w_set_text (pw_resolvers w) (of_nat (length content))"
| "call_weight w (Call_create_listing price expires_at) = w_create_listing (pw_market w)"
| "call_weight w Call_cancel_listing = w_cancel_listing (pw_market w)"
| "call_weight w (Call_buy_name name recipient) = w_buy_name (pw_market w)"

text \<open>The runtime configures every pallet with the weights of the unit type.\<close>

definition runtime_weights :: "'w \<Rightarrow> 'w pns_weights" where
  "runtime_weights zero =
     \<lparr>pw_oracle = oracle_unit_weights zero, pw_registry = registry_unit_weights zero,
      pw_registrar = registrar_unit_weights zero, pw_resolvers = resolvers_unit_weights zero,
      pw_market = market_unit_weights zero\<rparr>"

lemma runtime_calls_weightless: "call_weight (runtime_weights zero) call = zero"
  by (cases call)
    (simp_all add: runtime_weights_def oracle_unit_weights_def registry_unit_weights_def
      registrar_unit_weights_def resolvers_unit_weights_def market_unit_weights_def)

section \<open>Managers\<close>

record 'w origin_weights =
  w_set_registrar_open :: 'w
  w_set_origin_true :: 'w
  w_set_origin_false :: 'w
  w_set_origin_for_root_true :: 'w
  w_set_origin_for_root_false :: 'w

definition origin_unit_weights :: "'w \<Rightarrow> 'w origin_weights" where
  "origin_unit_weights zero =
     \<lparr>w_set_registrar_open = zero, w_set_origin_true = zero, w_set_origin_false = zero,
      w_set_origin_for_root_true = zero, w_set_origin_for_root_false = zero\<rparr>"

definition set_origin_weight :: "'w origin_weights \<Rightarrow> bool \<Rightarrow> 'w" where
  "set_origin_weight w approved = (if approved then w_set_origin_true w else w_set_origin_false w)"

definition set_origin_for_root_weight :: "'w origin_weights \<Rightarrow> bool \<Rightarrow> 'w" where
  "set_origin_for_root_weight w approved =
     (if approved then w_set_origin_for_root_true w else w_set_origin_for_root_false w)"

section \<open>Redeem codes\<close>

record 'w redeem_weights =
  weight_add :: "'w \<Rightarrow> 'w \<Rightarrow> 'w"
  w_mint_redeem :: "u32 \<Rightarrow> 'w"
  w_create_label :: "u32 \<Rightarrow> 'w"
  w_for_redeem_code :: "u32 \<Rightarrow> 'w"
  w_name_redeem_min :: 'w
  w_name_redeem_any_min :: 'w

definition redeem_unit_weights :: "('w \<Rightarrow> 'w \<Rightarrow> 'w) \<Rightarrow> 'w \<Rightarrow> 'w redeem_weights" where
  "redeem_unit_weights add zero =
     \<lparr>weight_add = add, w_mint_redeem = (\<lambda>_. zero), w_create_label = (\<lambda>_. zero),
      w_for_redeem_code = (\<lambda>_. zero), w_name_redeem_min = zero, w_name_redeem_any_min = zero\<rparr>"

definition mint_redeem_call_weight :: "'w redeem_weights \<Rightarrow> u32 \<Rightarrow> u32 \<Rightarrow> 'w" where
  "mint_redeem_call_weight w start stop =
     w_mint_redeem w (case checked_sub stop start of None \<Rightarrow> 0 | Some n \<Rightarrow> n)"

definition name_redeem_weight :: "'w redeem_weights \<Rightarrow> u32 \<Rightarrow> 'w" where
  "name_redeem_weight w len =
     weight_add w (weight_add w (w_create_label w (len - of_nat LABEL_MIN_LEN))
       (w_for_redeem_code w (len - of_nat LABEL_MIN_LEN))) (w_name_redeem_min w)"

definition name_redeem_any_weight :: "'w redeem_weights \<Rightarrow> u32 \<Rightarrow> 'w" where
  "name_redeem_any_weight w len =
     weight_add w (weight_add w (w_create_label w (len - of_nat MIN_REGISTRABLE_LEN))
       (w_for_redeem_code w (len - of_nat MIN_REGISTRABLE_LEN))) (w_name_redeem_any_min w)"

text \<open>
  The weight is taken before the name is checked, and a call with an empty name is charged for
  the longest one: the length less one wraps.
\<close>

lemma empty_name_weight:
  "name_redeem_weight w (of_nat (length [])) =
     weight_add w (weight_add w (w_create_label w (- 1)) (w_for_redeem_code w (- 1))) (w_name_redeem_min w)"
  "name_redeem_any_weight w (of_nat (length [])) =
     weight_add w (weight_add w (w_create_label w (- 1)) (w_for_redeem_code w (- 1))) (w_name_redeem_any_min w)"
  by (simp_all add: name_redeem_weight_def name_redeem_any_weight_def LABEL_MIN_LEN_def MIN_REGISTRABLE_LEN_def)

text \<open>The implementation for the unit type makes every call free.\<close>

lemma unit_weights_free:
  assumes "add zero zero = zero"
  shows "set_origin_weight (origin_unit_weights zero) approved = zero"
    "set_origin_for_root_weight (origin_unit_weights zero) approved = zero"
    "mint_redeem_call_weight (redeem_unit_weights add zero) start stop = zero"
    "name_redeem_weight (redeem_unit_weights add zero) len = zero"
    "name_redeem_any_weight (redeem_unit_weights add zero) len = zero"
  using assms
  by (simp_all add: set_origin_weight_def set_origin_for_root_weight_def mint_redeem_call_weight_def
      name_redeem_weight_def name_redeem_any_weight_def origin_unit_weights_def redeem_unit_weights_def)

text \<open>An inverted range of redeem numbers is weighed as an empty one, and refused by the call.\<close>

lemma mint_redeem_weight_bounded:
  fixes w :: "'w::order redeem_weights"
  assumes "mono (w_mint_redeem w)" "start \<le> stop"
  shows "mint_redeem_call_weight w start stop \<le> w_mint_redeem w stop"
    "mint_redeem_call_weight w stop start \<le> w_mint_redeem w stop"
proof -
  have "(case checked_sub stop start of None \<Rightarrow> 0 | Some n \<Rightarrow> n) \<le> stop"
    "(case checked_sub start stop of None \<Rightarrow> 0 | Some n \<Rightarrow> n) \<le> stop"
    using assms(2) by (auto simp: checked_sub_def word_le_nat_alt unat_sub split: option.splits)
  then show "mint_redeem_call_weight w start stop \<le> w_mint_redeem w stop"
    "mint_redeem_call_weight w stop start \<le> w_mint_redeem w stop"
    unfolding mint_redeem_call_weight_def by (simp_all add: monoD [OF assms(1)])
qed

end
