(* ===== verification/Spec2Isabelle.thy ===== *)
theory Spec2Isabelle
  imports Delegation Name_Service Redeem_Lifecycle Pallet_Laws State_Queries Dns_Laws Template_Pallet Auction_Escrow Storage_Bounds Genesis_Config Call_Weights
begin

text \<open>
  A verification library of the Polkadot Name Service: the pallets that register, delegate,
  sell and resolve names, the runtime that composes them, and the DNS server that serves names
  from the chain.

  \<^bold>\<open>The program and its parts.\<close> A name is a node, the hash of its label under
  its parent (pns-types, traits.rs). The token pallet (nft.rs) records who owns a node; the registry
  (registry.rs) keeps the tree of nodes, the delegations of subnames and their indexes; the
  registrar (registrar.rs) sells names for a time and keeps each account's canonical name; the price
  oracle, the manager set and redeem codes (price_oracle.rs, origin.rs, redeem_code.rs) serve it.
  The resolver (pns-resolvers) holds the records of a node, of which the chain alone writes SS58,
  the owner, and ORIGIN. The marketplace (pns-marketplace) sells a name to a buyer or, as a gift, to
  a recipient. The runtime (src/runtime) wires the pallets together, answers state queries and
  builds the genesis; the node (pns_rpc.rs) and the DNS server (pns-ddns) answer readers.

  \<^bold>\<open>Theories and correspondence.\<close>
  \<^item> Prelude: machine arithmetic (\<open>checked_add\<close>, \<open>saturating_mul\<close>
    and so on over words), results, and the two kinds of storage map whose order matters.
  \<^item> Pns_Types: pns-types/src/lib.rs and the \<open>Label\<close> of traits.rs. Record_Types:
    pns-types/src/ddns.rs. Std_Text: what the DNS server uses of the standard library.
  \<^item> Runtime_State: the storage of every pallet as a record, all of them together in
    \<open>runtime\<close>, the errors, the events, the origins, and \<open>config\<close>, the
    constants and foreign operations a pallet is configured with.
  \<^item> Nft, Registry, Registrar, Expiry (the registrar as the registry calls it), Resolvers,
    Price_Oracle, Pns_Origin, Redeem_Code, Marketplace, Template_Pallet: one theory per pallet, one
    definition per function, with the function's name. A call takes the origin and the state and
    returns an error or the new state; its checks are in the order of the source.
  \<^item> Runtime_Api: constants, configuration, state queries, RPC methods, genesis and
    initialisers. Calls: \<open>dispatch\<close> of every call of the composed pallets,
    \<open>execute\<close> with the rollback of a failed call, and \<open>reachable\<close>, the
    states of a chain.
  \<^item> Genesis_Config: the \<open>GenesisConfig\<close> of every pallet with its default, the
    presets of genesis_config_presets.rs and the chain specifications of chain_spec.rs.
    Call_Weights: the \<open>WeightInfo\<close> of every pallet and the weight of every call.
  \<^item> Dns_Authority: authority.rs and the HTTP endpoints of lib.rs. Dns_Server: dns_server.rs
    and metrics.rs. Dns_Startup: the DNS options of the node and the cores of the DNS threads.
  \<^item> Auction: auction.rs, over an opaque rest of the chain; Auction_Laws and Auction_Escrow:
    its invariant, its runs and its properties.
  \<^item> Name_Invariant, Call_Invariant: the invariant \<open>pns_inv\<close> and its
    preservation.
  \<^item> Scenario and the last section of Genesis_Chain: states to compute with.
  \<^item> Name_Lifecycle, Delegation, Market_Lifecycle, Call_Success, Call_Sequences, Name_Service,
    Redeem_Lifecycle, Pallet_Laws, State_Queries, Genesis_Chain, Storage_Bounds, Dns_Laws and this
    theory: the properties.

  \<^bold>\<open>Interfaces.\<close> The locale \<open>token_store\<close> is what the registry
  relies on of the token pallet and \<open>record_keeper\<close> what the pallets rely on of the
  resolver; each is interpreted on the model's operations in the theory that provides them
  (\<open>nft_store\<close>, \<open>keeper\<close>). \<open>name_handover\<close> is what the
  marketplace relies on of the registrar, interpreted on the sale to the buyer
  (\<open>direct\<close>) and to a recipient (\<open>gift\<close>) in Market_Lifecycle.

  \<^bold>\<open>What the lemmas show.\<close> The invariant says that the name tree, its counters
  and indexes agree, that SS58 records name the owner or holder, that nothing else has records, that
  exactly the registered names have registrar information, and that the official account owns the
  base node. It holds at genesis and every call keeps it, so it holds in every state of the chain.
  On it rest what each call does to owners, canonical names, records, balances and delegations; when
  registering, transferring and buying succeed, as equivalences; that a released name is free at
  once; that every call refines \<open>service_step\<close> of Name_Service, a specification on the
  tables of holders and sales alone; that an account loses a name only by its own call or by expiry;
  the life cycle of a delegation, whatever the call; the agreement of the readers' answers; and
  which names the DNS zone denies. The presets build chains in which the invariant holds; the
  runtime's calls have no weight. The DNS server is a machine of interleaved requests: its cap, its
  queue, its caches and its filter. The bounds that the storage types promise hold in every state.
  In the auction pallet the stored leading bids are those of the bids placed, so that the highest
  bid of the drawn sample wins and the block hook finds every entry it expects; what is held in
  reserve for an account moves exactly with what the pallet has on record.

  \<^bold>\<open>Parameters and hypotheses.\<close> Keccak-256 is a function argument; where
  distinct names must have distinct nodes the statement carries the collision as a disjunct or
  excludes it for the call at hand (\<open>hash_collision\<close>, \<open>no_collision\<close>,
  \<open>fresh_node\<close>). The currency is an argument with the laws
  \<open>withdraw_burns\<close> and \<open>transfer_moves\<close>; the address lookup, the signature
  scheme, the DNS library's names, rate limiters, caches and Bloom filter are arguments, the last
  two with \<open>cache_laws\<close> and \<open>bloom_laws\<close>. The auction pallet has the
  currency's reserves with \<open>reserves_held\<close> and a randomness source.
  \<open>reachable\<close> excludes one call: accepting a gift whose token the recipient no longer
  owns (\<open>live_gift\<close>), which breaks the invariant; \<open>gift_outlives_name\<close>
  shows what it does. Scenario and Dns_Laws instantiate every parameter of a property. The key ring
  and the type of weights are parameters of Genesis_Config and Call_Weights.

  \<^bold>\<open>Bounds.\<close> Balances are 128-bit, moments 64-bit milliseconds, counters 32-bit
  words; plain additions of the source wrap, as in a release build, and checked ones return an
  error. Every function is total: loops over lists are recursive functions, the two minting loops
  are \<open>while_option\<close> because one of them may not end, and no fuel is used. Lists stand
  for storage maps that are iterated; their order is the model's choice and no property depends on
  it. Runs of the auction pallet stay below the last block number by one ending period, so that the
  end of an auction does not saturate.

  \<^bold>\<open>Not modelled.\<close> Benchmarks, the weights measured for the template pallet, and
  the tests with their mock runtime, which no longer fit the pallets' interfaces; events are kept,
  but their encoding is not. Substrate itself: consensus, balances, sudo, transaction payment, and
  the runtime APIs that only forward to it; trait declarations without a body. The node's start-up,
  command line parser and sockets: I/O. The auction pallet (auction.rs) is modelled although no
  module compiles it; the domain-name type and the operations it calls that the repository no longer
  has are parameters, and the weight of its hook is left out. A part of a request's handling between
  two waits is one step of the DNS machine; the interleaving of single atomic operations within a
  part is not modelled.
\<close>

section \<open>Properties of the chain\<close>



text \<open>
  C5: The name tree of a chain is sound in every state: the children counter of a registered
  name is the number of its subnames, which never exceeds the name's capacity; the index of subnames
  lists exactly the delegations of each parent; and no node is both a registered name and a subname.
\<close>
theorem tree_accounting:
  assumes "testnet_genesis kusama c root balances parent = Some g"
    "cfg_base_node c = NATIVE_BASENODE kusama" "reachable c g s" "get_info p s = Some info"
  shows "\<exists>tok. name_token p s = Some tok
    \<and> unat (td_children (ti_data tok)) = length (dm_iter (sub_names (rt_registry s)) p)
    \<and> length (dm_iter (sub_names (rt_registry s)) p) \<le> unat (ri_capacity info)
    \<and> set (dm_iter (sub_names (rt_registry s)) p)
        = {n. \<exists>rec. subname_records (rt_registry s) n = Some rec \<and> sr_parent rec = p}
    \<and> subname_records (rt_registry s) p = None"
proof -
  note inv = pns_inv_parts [OF chain_inv [OF assms(1-3)]]
  have p: "p \<noteq> cfg_base_node c" "owner_of p s \<noteq> None"
    using inv(3) assms(4) unfolding infos_ok_def by auto
  then obtain tok where tok: "name_token p s = Some tok" by (auto simp: owner_of_def)
  then have "unat (td_children (ti_data tok)) = length (dm_iter (sub_names (rt_registry s)) p)"
    using inv(1) p(1) by (simp add: tree_ok_def counters_ok_def)
  moreover have "length (dm_iter (sub_names (rt_registry s)) p) \<le> unat (ri_capacity info)"
    using inv(4) assms(4) by (simp add: capacity_ok_def)
  moreover have "subname_records (rt_registry s) p = None"
    using inv(1) p(2) by (meson not_None_eq owned_no_record)
  moreover have "set (dm_iter (sub_names (rt_registry s)) p)
      = {n. \<exists>rec. subname_records (rt_registry s) n = Some rec \<and> sr_parent rec = p}"
    using inv(1) by (auto simp: tree_ok_def deleg_defs set_dm_iter)
  ultimately show ?thesis using tok by blast
qed

theorem tree_accounting_witness:
  "\<exists>g s. testnet_genesis False native 1 native_balances 3 = Some g \<and> reachable native g s
     \<and> name_token 122 s \<noteq> None \<and> subname_records (rt_registry s) 122 = None"
proof (rule native_chain)
  fix g s info
  assume g: "testnet_genesis False native 1 native_balances 3 = Some g" "reachable native g s"
    "get_info 122 s = Some info"
  then show ?thesis
    using tree_accounting [OF g(1) _ g(2,3)] by auto
qed



text \<open>
  C39: The names the genesis reserves are protected: each is on the reserved list of the
  genesis state, and in no state of the chain does a registration succeed for a name that is on the
  list then, whoever calls and for whomever.
\<close>
theorem reserved_names_protected:
  assumes "testnet_genesis kusama c root balances parent = Some g"
    "cfg_base_node c = NATIVE_BASENODE kusama" "name \<in> set genesis_reserved_names"
  shows "reserved_list (rt_registrar g) (name_node c name (cfg_base_node c)) \<noteq> None
    \<and> (\<forall>s s' org src reject_offer. reachable c g s \<longrightarrow> register c org name src reject_offer s = Inr s' \<longrightarrow>
         reserved_list (rt_registrar s) (name_node c name (cfg_base_node c)) = None)"
proof -
  have "parse_name_to_node (cfg_keccak c) name (cfg_base_node c) = Some (name_node c name (cfg_base_node c))"
    using assms(3) reserved_names_plain by (simp add: parse_name_plain label_new_eq encode_with_node_def name_node_def)
  moreover have "rt_registrar g = registrar_genesis_build c [] [] genesis_reserved_names"
    using assms(1) by (auto simp: testnet_genesis_def)
  ultimately have "reserved_list (rt_registrar g) (name_node c name (cfg_base_node c)) \<noteq> None"
    using registrar_genesis_reserved [of c genesis_reserved_names] assms(3) by (metis)
  then show ?thesis
    using reject_pending_reserved [OF chain_inv [OF assms(1,2)]] by (auto elim!: register_cases)
qed

theorem reserved_names_protected_witness:
  "\<exists>g. testnet_genesis False native 1 native_balances 3 = Some g
     \<and> reserved_list (rt_registrar g) (name_node native (ascii_of ''jam'') (cfg_base_node native)) = Some ()"
proof -
  obtain g where g: "testnet_genesis False native 1 native_balances 3 = Some g"
    using native_genesis by blast
  from reserved_names_protected [OF g, of "ascii_of ''jam''"] g show ?thesis
    by (auto simp: genesis_reserved_names_def)
qed

end
